(* ===== verification/Prelude.thy ===== *)
theory Prelude
  imports Main "HOL-Library.Word"
begin

unbundle bit_operations_syntax

section \<open>Shared types, byte order, machine arithmetic and table lookups\<close>

text \<open>
  What every component of the development shares: the machine integers of the Rust sources as
  words of their width, the big-endian conversions \<open>to_be_bytes\<close> / \<open>from_be_bytes\<close> of the
  standard library, saturating arithmetic, and the two access patterns the sources use on
  collections (\<open>iter().position\<close> and \<open>values_mut().find(..)\<close> followed by a mutation).
  Plain \<open>+\<close> and \<open>-\<close> on words wrap around, which is what a release build of the sources does.
\<close>

type_synonym u8 = "8 word"
type_synonym u16 = "16 word"
type_synonym u32 = "32 word"
type_synonym u64 = "64 word"
type_synonym bytes = "8 word list"

named_theorems frame \<open>what an operation leaves unchanged\<close>
named_theorems inv_intros \<open>preservation of the session-table invariants\<close>

subsection \<open>Big-endian conversions\<close>

text \<open>\<open>to_be n w\<close>: the low \<open>n\<close> octets of \<open>w\<close>, most significant first.\<close>

fun to_be :: "nat \<Rightarrow> 'a::len word \<Rightarrow> bytes" where
  "to_be 0 w = []"
| "to_be (Suc n) w = to_be n (drop_bit 8 w) @ [ucast w]"

definition from_be :: "bytes \<Rightarrow> 'a::len word" where
  "from_be bs = foldl (\<lambda>acc b. push_bit 8 acc OR ucast b) 0 bs"

lemma length_to_be [simp]: "length (to_be n w) = n"
  by (induction n arbitrary: w) auto

lemma from_be_Nil [simp]: "from_be [] = 0"
  by (simp add: from_be_def)

lemma from_be_snoc [simp]: "from_be (bs @ [b]) = push_bit 8 (from_be bs) OR ucast b"
  by (simp add: from_be_def)

lemma from_be_to_be_take: "from_be (to_be n w) = take_bit (8 * n) (w :: 'a::len word)"
proof (induction n arbitrary: w)
  case 0
  then show ?case by simp
next
  case (Suc n)
  have "push_bit 8 (take_bit (8 * n) (drop_bit 8 w)) OR ucast (ucast w :: u8)
      = take_bit (8 * Suc n) w"
    by (rule bit_word_eqI)
      (auto simp: bit_simps not_less le_imp_diff_is_add add.commute)
  then show ?case by (simp only: to_be.simps from_be_snoc Suc.IH)
qed

lemma from_be_to_be: "LENGTH('a) \<le> 8 * n \<Longrightarrow> from_be (to_be n w) = (w :: 'a::len word)"
  by (simp add: from_be_to_be_take take_bit_word_eq_self)

lemma to_be_from_be:
  "8 * length bs \<le> LENGTH('a) \<Longrightarrow> to_be (length bs) (from_be bs :: 'a::len word) = bs"
proof (induction bs rule: rev_induct)
  case Nil
  then show ?case by simp
next
  case (snoc b bs)
  have low: "(ucast (push_bit 8 (from_be bs :: 'a word) OR ucast b) :: u8) = b"
    using snoc.prems by (intro bit_word_eqI) (auto simp: bit_simps)
  have high: "drop_bit 8 (push_bit 8 (from_be bs :: 'a word) OR ucast b) = take_bit (LENGTH('a) - 8) (from_be bs)"
    by (rule bit_word_eqI) (auto simp: bit_simps dest: bit_imp_le_length)
  have small: "take_bit (LENGTH('a) - 8) (from_be bs :: 'a word) = from_be bs"
  proof -
    have "from_be bs = from_be (to_be (length bs) (from_be bs :: 'a word))"
      using snoc by simp
    also have "\<dots> = take_bit (8 * length bs) (from_be bs :: 'a word)"
      by (rule from_be_to_be_take)
    finally have eq: "(from_be bs :: 'a word) = take_bit (8 * length bs) (from_be bs)" .
    have "take_bit (LENGTH('a) - 8) (take_bit (8 * length bs) (from_be bs :: 'a word))
        = take_bit (8 * length bs) (from_be bs)"
      using snoc.prems by (simp add: min_absorb2)
    with eq show ?thesis by simp
  qed
  from low high small snoc show ?case by simp
qed

lemma from_be_inj:
  assumes "8 * length bs \<le> LENGTH('a)" "length cs = length bs"
    and "from_be bs = (from_be cs :: 'a::len word)"
  shows "bs = cs"
proof -
  have "bs = to_be (length bs) (from_be bs :: 'a word)" using assms(1) by (simp add: to_be_from_be)
  also have "\<dots> = to_be (length cs) (from_be cs :: 'a word)" using assms(2,3) by simp
  also have "\<dots> = cs" using assms(1,2) by (intro to_be_from_be) simp
  finally show ?thesis .
qed

text \<open>The widths the sources use, with the octets spelled out, so that indexing into an
  encoded header evaluates.\<close>

lemma to_be_2: "to_be 2 w = [ucast (drop_bit 8 w), ucast w]"
  by (simp add: eval_nat_numeral)

lemma to_be_3: "to_be 3 w = [ucast (drop_bit 16 w), ucast (drop_bit 8 w), ucast w]"
  by (simp add: eval_nat_numeral)

lemma to_be_4:
  "to_be 4 w = [ucast (drop_bit 24 w), ucast (drop_bit 16 w), ucast (drop_bit 8 w), ucast w]"
  by (simp add: eval_nat_numeral)

lemma from_be_2 [simp]: "from_be [ucast (drop_bit 8 w), ucast w] = (w :: u16)"
  using from_be_to_be[of 2 w] by (simp add: to_be_2)

lemma from_be_4 [simp]:
  "from_be [ucast (drop_bit 24 w), ucast (drop_bit 16 w), ucast (drop_bit 8 w), ucast w] = (w :: u32)"
  using from_be_to_be[of 4 w] by (simp add: to_be_4)

lemma from_be_3_take:
  "from_be [ucast (drop_bit 16 w), ucast (drop_bit 8 w), ucast w] = (take_bit 24 w :: u32)"
  using from_be_to_be_take[of 3 w] by (simp add: to_be_3)

subsection \<open>Slices\<close>

text \<open>The slice \<open>data[a..b]\<close>.\<close>

definition subslice :: "nat \<Rightarrow> nat \<Rightarrow> 'a list \<Rightarrow> 'a list" where
  "subslice a b xs = take (b - a) (drop a xs)"

lemma length_slice [simp]: "length (subslice a b xs) = min (b - a) (length xs - a)"
  by (simp add: subslice_def min.commute)

lemma slice_append:
  "length pre = a \<Longrightarrow> length mid = b - a \<Longrightarrow> subslice a b (pre @ mid @ post) = mid"
  by (simp add: subslice_def)

lemma slice_split:
  "a \<le> b \<Longrightarrow> b \<le> length xs \<Longrightarrow> xs = take a xs @ subslice a b xs @ drop b xs"
  unfolding subslice_def
  by (metis append_assoc append_take_drop_id drop_drop le_add_diff_inverse2)

lemma slice_Cons: "a < b \<Longrightarrow> b \<le> length xs \<Longrightarrow> subslice a b xs = xs ! a # subslice (Suc a) b xs"
  unfolding subslice_def by (subst Cons_nth_drop_Suc [symmetric]) (auto simp: take_Cons')

lemma slice_snoc: "a < b \<Longrightarrow> b \<le> length xs \<Longrightarrow> subslice a b xs = subslice a (b - 1) xs @ [xs ! (b - 1)]"
proof -
  assume "a < b" "b \<le> length xs"
  then obtain n where "b - a = Suc n" "b = a + Suc n" by (metis less_imp_Suc_add add_diff_cancel_left' add_Suc_right)
  with \<open>b \<le> length xs\<close> show ?thesis by (simp add: subslice_def take_Suc_conv_app_nth)
qed

lemma slice_ends:
  "Suc a < b \<Longrightarrow> b \<le> length xs \<Longrightarrow> subslice a b xs = [xs ! a] @ subslice (a + 1) (b - 1) xs @ [xs ! (b - 1)]"
  using slice_Cons[of a b xs] slice_snoc[of "Suc a" b xs] by simp

lemma slice_add: "a \<le> b \<Longrightarrow> b \<le> c \<Longrightarrow> subslice a c xs = subslice a b xs @ subslice b c xs"
proof -
  assume "a \<le> b" "b \<le> c"
  then have "c - a = (b - a) + (c - b)" by simp
  then show ?thesis using \<open>a \<le> b\<close> by (simp only: subslice_def take_add) simp
qed

subsection \<open>Saturating arithmetic\<close>

definition saturating_add :: "'a::len word \<Rightarrow> 'a word \<Rightarrow> 'a word" where
  "saturating_add a b = (if unat a + unat b < 2 ^ LENGTH('a) then a + b else - 1)"

definition saturating_sub :: "'a::len word \<Rightarrow> 'a word \<Rightarrow> 'a word" where
  "saturating_sub a b = (if a < b then 0 else a - b)"

definition saturating_mul :: "'a::len word \<Rightarrow> 'a word \<Rightarrow> 'a word" where
  "saturating_mul a b = (if unat a * unat b < 2 ^ LENGTH('a) then a * b else - 1)"

lemma unat_minus_one_word_eq: "unat (- 1 :: 'a::len word) = 2 ^ LENGTH('a) - 1"
  by (simp add: unsigned_minus_1_eq_mask mask_eq_exp_minus_1)

lemma unat_saturating_add:
  "unat (saturating_add a b) = min (unat a + unat b) (2 ^ LENGTH('a) - 1)"
  for a b :: "'a::len word"
  by (auto simp: saturating_add_def unat_word_ariths unat_minus_one_word_eq)

lemma unat_saturating_sub: "unat (saturating_sub a b) = unat a - unat b"
  by (auto simp: saturating_sub_def word_less_nat_alt unat_sub word_le_nat_alt)

lemma unat_saturating_mul:
  "unat (saturating_mul a b) = min (unat a * unat b) (2 ^ LENGTH('a) - 1)"
  for a b :: "'a::len word"
  by (auto simp: saturating_mul_def unat_word_ariths unat_minus_one_word_eq)

lemma saturating_add_ge: "a \<le> saturating_add a b"
proof -
  have "unat a \<le> 2 ^ LENGTH('a) - 1" for a :: "'a::len word"
    using unsigned_less[of a, where ?'a = nat] by linarith
  then show ?thesis by (simp add: word_le_nat_alt unat_saturating_add)
qed

subsection \<open>Collections: position, find-and-mutate\<close>

text \<open>\<open>iter().position(p)\<close>.\<close>

fun position :: "('a \<Rightarrow> bool) \<Rightarrow> 'a list \<Rightarrow> nat option" where
  "position P [] = None"
| "position P (x # xs) = (if P x then Some 0 else map_option Suc (position P xs))"

lemma position_Some:
  "position P xs = Some i \<Longrightarrow> i < length xs \<and> P (xs ! i) \<and> (\<forall>j<i. \<not> P (xs ! j))"
proof (induction xs arbitrary: i)
  case Nil
  then show ?case by simp
next
  case (Cons x xs)
  then show ?case
    by (cases i) (auto split: if_splits simp: less_Suc_eq_0_disj nth_Cons')
qed

lemma position_None: "position P xs = None \<longleftrightarrow> (\<forall>x\<in>set xs. \<not> P x)"
  by (induction xs) auto

lemma find_position: "find P xs = map_option (nth xs) (position P xs)"
  by (induction xs) (auto simp: option.map_comp comp_def)

text \<open>\<open>values_mut().find(p)\<close> followed by an update of what was found: the first match is
  replaced, everything else stays in place.\<close>

fun map_first :: "('a \<Rightarrow> bool) \<Rightarrow> ('a \<Rightarrow> 'a) \<Rightarrow> 'a list \<Rightarrow> 'a list" where
  "map_first P f [] = []"
| "map_first P f (x # xs) = (if P x then f x # xs else x # map_first P f xs)"

lemma length_map_first [simp]: "length (map_first P f xs) = length xs"
  by (induction xs) auto

lemma map_first_none: "(\<And>x. x \<in> set xs \<Longrightarrow> \<not> P x) \<Longrightarrow> map_first P f xs = xs"
  by (induction xs) auto

lemma map_map_first: "(\<And>x. P x \<Longrightarrow> g (f x) = g x) \<Longrightarrow> map g (map_first P f xs) = map g xs"
  by (induction xs) auto

lemma set_map_firstD:
  "y \<in> set (map_first P f xs) \<Longrightarrow> y \<in> set xs \<or> (\<exists>x\<in>set xs. P x \<and> y = f x)"
  by (induction xs) (auto split: if_splits)

lemma map_first_all:
  assumes "\<And>x. x \<in> set xs \<Longrightarrow> Q x" and "\<And>x. Q x \<Longrightarrow> P x \<Longrightarrow> Q (f x)"
  shows "\<forall>x\<in>set (map_first P f xs). Q x"
  using assms by (induction xs) auto

lemma find_Some_in: "find P xs = Some x \<Longrightarrow> x \<in> set xs \<and> P x"
  by (auto simp: find_Some_iff)

lemma find_None_all: "find P xs = None \<longleftrightarrow> (\<forall>x\<in>set xs. \<not> P x)"
  by (auto simp: find_None_iff)

text \<open>A search that at most one element satisfies does not depend on the order of the list,
  so a model may fix any iteration order of a hash map.\<close>

lemma find_unique:
  assumes "x \<in> set xs" "P x" and "\<And>y. y \<in> set xs \<Longrightarrow> P y \<Longrightarrow> y = x"
  shows "find P xs = Some x"
proof (cases "find P xs")
  case None
  with assms(1,2) show ?thesis by (simp add: find_None_all)
next
  case (Some y)
  with assms(3) show ?thesis by (auto dest: find_Some_in)
qed

lemma find_perm:
  assumes "set xs = set ys"
    and "\<And>x y. x \<in> set xs \<Longrightarrow> y \<in> set xs \<Longrightarrow> P x \<Longrightarrow> P y \<Longrightarrow> x = y"
  shows "find P xs = find P ys"
proof (cases "find P xs")
  case None
  then have "find P ys = None" using assms(1) by (simp add: find_None_all)
  then show ?thesis using None by simp
next
  case (Some x)
  then have x: "x \<in> set xs" "P x" by (auto dest: find_Some_in)
  have "find P ys = Some x"
    by (rule find_unique) (use x assms in auto)
  then show ?thesis using Some by simp
qed

subsection \<open>\<open>filter_map\<close>\<close>

lemma map_filter_append: "List.map_filter f (xs @ ys) = List.map_filter f xs @ List.map_filter f ys"
  by (simp add: List.map_filter_def)

lemma map_filter_none: "(\<And>x. x \<in> set xs \<Longrightarrow> f x = None) \<Longrightarrow> List.map_filter f xs = []"
  by (simp add: List.map_filter_def)

lemma map_filter_map_Some:
  "(\<And>x. x \<in> set xs \<Longrightarrow> f (g x) = Some (h x)) \<Longrightarrow> List.map_filter f (map g xs) = map h xs"
  by (induction xs) (simp_all add: List.map_filter_simps)

lemma map_filter_Some: "(\<And>x. x \<in> set xs \<Longrightarrow> f x = Some (h x)) \<Longrightarrow> List.map_filter f xs = map h xs"
  using map_filter_map_Some[of xs f "\<lambda>x. x" h] by simp

end
