(* ===== verification/Ip_Text.thy ===== *)
theory Ip_Text
  imports Prelude "HOL-Library.Sublist"
begin

section \<open>Textual forms of integers and IP addresses\<close>

text \<open>
  The parts of Rust's standard library that the PFCP flow descriptions go through: decimal
  \<open>Display\<close> and \<open>FromStr\<close> of unsigned integers, \<open>split\<close> and \<open>split_once\<close>, and \<open>Display\<close> and
  \<open>FromStr\<close> of \<open>IpAddr\<close> (including the zero compression of IPv6, its IPv4-mapped form, and
  the recursive-descent parser of \<open>std::net\<close>). The main result is that every address reads
  back from its own text.
\<close>

subsection \<open>Numbers\<close>

definition digit_char :: "nat \<Rightarrow> char" where
  "digit_char d = ''0123456789abcdef'' ! d"

text \<open>\<open>char::to_digit\<close>.\<close>

definition to_digit :: "nat \<Rightarrow> char \<Rightarrow> nat option" where
  "to_digit radix c =
    (let n = of_char c :: nat;
         d = (if 48 \<le> n \<and> n \<le> 57 then n - 48
              else if 97 \<le> n \<and> n \<le> 102 then n - 87
              else if 65 \<le> n \<and> n \<le> 70 then n - 55 else 16)
     in if d < radix then Some d else None)"

function show_radix :: "nat \<Rightarrow> nat \<Rightarrow> string" where
  "show_radix r n = (if n < r \<or> r < 2 then [digit_char n]
     else show_radix r (n div r) @ [digit_char (n mod r)])"
  by pat_completeness auto
termination by (relation "measure snd") auto

declare show_radix.simps [simp del]

definition is_digit :: "nat \<Rightarrow> char \<Rightarrow> bool" where
  "is_digit radix c = (to_digit radix c \<noteq> None)"

definition digits_value :: "nat \<Rightarrow> string \<Rightarrow> nat" where
  "digits_value radix cs = foldl (\<lambda>acc c. acc * radix + the (to_digit radix c)) 0 cs"

lemma digit_cases: "d < 16 \<Longrightarrow> d \<in> {0,1,2,3,4,5,6,7,8,9,10,11,12,13,14,15::nat}"
  by (simp add: eval_nat_numeral less_Suc_eq)

lemma to_digit_digit_char:
  "d < radix \<Longrightarrow> radix \<le> 16 \<Longrightarrow> to_digit radix (digit_char d) = Some d"
  using digit_cases[of d] by (auto simp: to_digit_def digit_char_def)

lemma show_radix_digits:
  "2 \<le> r \<Longrightarrow> r \<le> 16 \<Longrightarrow> \<forall>c\<in>set (show_radix r n). is_digit r c"
  by (induction r n rule: show_radix.induct)
    (subst show_radix.simps, auto simp: is_digit_def to_digit_digit_char)

lemma digits_value_snoc [simp]:
  "digits_value r (cs @ [c]) = digits_value r cs * r + the (to_digit r c)"
  by (simp add: digits_value_def)

lemma digits_value_show:
  "2 \<le> r \<Longrightarrow> r \<le> 16 \<Longrightarrow> digits_value r (show_radix r n) = n"
proof (induction r n rule: show_radix.induct)
  case (1 r n)
  show ?case
  proof (cases "n < r")
    case True
    then show ?thesis
      using 1 by (simp add: show_radix.simps[of r n] digits_value_def to_digit_digit_char)
  next
    case False
    then show ?thesis
      using 1 by (simp add: show_radix.simps[of r n] to_digit_digit_char)
  qed
qed

lemma show_radix_not_Nil [simp]: "show_radix r n \<noteq> []"
  by (subst show_radix.simps) simp

lemma hd_show_radix:
  "2 \<le> r \<Longrightarrow> r \<le> 16 \<Longrightarrow> hd (show_radix r n) = CHR ''0'' \<Longrightarrow> n = 0"
proof (induction r n rule: show_radix.induct)
  case (1 r n)
  show ?case
  proof (cases "n < r")
    case True
    with 1 have "digit_char n = CHR ''0''" by (simp add: show_radix.simps[of r n])
    with True 1 show ?thesis using digit_cases[of n] by (auto simp: digit_char_def)
  next
    case False
    with 1 have "n div r = 0" by (simp add: show_radix.simps[of r n])
    with False 1 show ?thesis by (simp add: div_eq_0_iff)
  qed
qed

lemma length_show_radix:
  "2 \<le> r \<Longrightarrow> n < r ^ Suc k \<Longrightarrow> length (show_radix r n) \<le> Suc k"
proof (induction k arbitrary: n)
  case 0
  then show ?case by (simp add: show_radix.simps)
next
  case (Suc k)
  have "n div r < r ^ Suc k" using Suc.prems by (simp add: less_mult_imp_div_less mult.commute)
  with Suc show ?case by (subst show_radix.simps) simp
qed

text \<open>\<open>str::parse\<close> of an unsigned integer with the given maximum: an optional plus sign, then
  one or more decimal digits; overflow is an error.\<close>

definition parse_uint :: "nat \<Rightarrow> string \<Rightarrow> nat option" where
  "parse_uint max_value s =
    (let ds = (case s of c # cs \<Rightarrow> if c = CHR ''+'' then cs else s | [] \<Rightarrow> [])
     in if ds \<noteq> [] \<and> list_all (is_digit 10) ds \<and> digits_value 10 ds \<le> max_value
        then Some (digits_value 10 ds) else None)"

definition parse_word :: "string \<Rightarrow> 'a::len word option" where
  "parse_word s = map_option of_nat (parse_uint (2 ^ LENGTH('a) - 1) s)"

definition show_word :: "'a::len word \<Rightarrow> string" where
  "show_word w = show_radix 10 (unat w)"

lemma not_digit_plus [simp]: "\<not> is_digit 10 CHR ''+''"
  by (simp add: is_digit_def to_digit_def)

lemma parse_uint_show: "n \<le> m \<Longrightarrow> parse_uint m (show_radix 10 n) = Some n"
proof -
  assume "n \<le> m"
  have d: "\<forall>c\<in>set (show_radix 10 n). is_digit 10 c" by (rule show_radix_digits) auto
  then have "hd (show_radix 10 n) \<noteq> CHR ''+''"
    by (metis not_digit_plus show_radix_not_Nil list.set_sel(1))
  then have "(case show_radix 10 n of c # cs \<Rightarrow> if c = CHR ''+'' then cs else show_radix 10 n | [] \<Rightarrow> [])
      = show_radix 10 n"
    by (auto split: list.splits)
  with d \<open>n \<le> m\<close> show ?thesis
    by (simp add: parse_uint_def digits_value_show list_all_iff)
qed

lemma parse_show_word [simp]: "parse_word (show_word w) = Some (w :: 'a::len word)"
proof -
  have "unat w \<le> 2 ^ LENGTH('a) - 1" using unsigned_less[of w, where ?'a = nat] by linarith
  then show ?thesis by (simp only: parse_word_def show_word_def parse_uint_show) simp
qed

lemma show_word_digits: "c \<in> set (show_word w) \<Longrightarrow> is_digit 10 c"
  using show_radix_digits[of 10 "unat w"] by (simp add: show_word_def)

subsection \<open>Splitting\<close>

text \<open>\<open>split_once\<close>, \<open>split\<close> and \<open>join\<close> for a one-character separator.\<close>

fun split_once :: "char \<Rightarrow> string \<Rightarrow> (string \<times> string) option" where
  "split_once c [] = None"
| "split_once c (x # xs) = (if x = c then Some ([], xs)
     else map_option (\<lambda>(a, b). (x # a, b)) (split_once c xs))"

fun split_on :: "char \<Rightarrow> string \<Rightarrow> string list" where
  "split_on c [] = [[]]"
| "split_on c (x # xs) = (if x = c then [] # split_on c xs
     else (case split_on c xs of p # ps \<Rightarrow> (x # p) # ps | [] \<Rightarrow> [[x]]))"

fun join_with :: "string \<Rightarrow> string list \<Rightarrow> string" where
  "join_with sep [] = []"
| "join_with sep [p] = p"
| "join_with sep (p # q # ps) = p @ sep @ join_with sep (q # ps)"

lemma split_once_append: "c \<notin> set a \<Longrightarrow> split_once c (a @ c # b) = Some (a, b)"
  by (induction a) auto

lemma split_on_none: "c \<notin> set a \<Longrightarrow> split_on c a = [a]"
  by (induction a) auto

lemma split_on_append: "c \<notin> set a \<Longrightarrow> split_on c (a @ c # b) = a # split_on c b"
  by (induction a) auto

lemma split_join:
  "ps \<noteq> [] \<Longrightarrow> (\<And>p. p \<in> set ps \<Longrightarrow> c \<notin> set p) \<Longrightarrow> split_on c (join_with [c] ps) = ps"
  by (induction "[c]" ps rule: join_with.induct) (auto simp: split_on_none split_on_append)

subsection \<open>The readers of std::net\<close>

type_synonym 'a reader = "string \<Rightarrow> ('a \<times> string) option"

datatype ip_addr = IpV4 "32 word" | IpV6 "128 word"

text \<open>\<open>Parser::read_number\<close> with a digit limit and a largest value.\<close>

definition read_number :: "nat \<Rightarrow> nat \<Rightarrow> bool \<Rightarrow> nat \<Rightarrow> nat reader" where
  "read_number radix max_digits allow_zero_prefix max_value s =
    (let ds = takeWhile (is_digit radix) s in
     if length ds > max_digits \<or> ds = [] then None
     else if \<not> allow_zero_prefix \<and> hd ds = CHR ''0'' \<and> length ds > 1 then None
     else if digits_value radix ds > max_value then None
     else Some (digits_value radix ds, dropWhile (is_digit radix) s))"

definition read_given_char :: "char \<Rightarrow> unit reader" where
  "read_given_char c s = (case s of x # xs \<Rightarrow> if x = c then Some ((), xs) else None | [] \<Rightarrow> None)"

text \<open>\<open>Parser::read_separator\<close>: from the second element on, the separator comes first.\<close>

definition read_separator :: "char \<Rightarrow> nat \<Rightarrow> 'a reader \<Rightarrow> 'a reader" where
  "read_separator c i inner s = (if 0 < i then (case read_given_char c s of
       None \<Rightarrow> None | Some (_, s') \<Rightarrow> inner s') else inner s)"

fun read_octets :: "nat \<Rightarrow> nat \<Rightarrow> nat list reader" where
  "read_octets i 0 s = Some ([], s)"
| "read_octets i (Suc k) s = (case read_separator CHR ''.'' i (read_number 10 3 False 255) s of
     None \<Rightarrow> None
   | Some (n, s') \<Rightarrow> map_option (\<lambda>(ns, s''). (n # ns, s'')) (read_octets (Suc i) k s'))"

definition read_ipv4_addr :: "u32 reader" where
  "read_ipv4_addr s = map_option (\<lambda>(ns, s'). (from_be (map of_nat ns), s')) (read_octets 0 4 s)"

text \<open>\<open>read_groups\<close> of \<open>read_ipv6_addr\<close>: at most \<open>limit\<close> groups, of which the last two may be
  written as an IPv4 address; the flag says that they were.\<close>

fun read_groups :: "nat \<Rightarrow> nat \<Rightarrow> string \<Rightarrow> u16 list \<times> bool \<times> string" where
  "read_groups i 0 s = ([], False, s)"
| "read_groups i (Suc k) s =
    (case (if 0 < k then read_separator CHR '':'' i read_ipv4_addr s else None) of
       Some (a, s') \<Rightarrow> ([ucast (drop_bit 16 a), ucast a], True, s')
     | None \<Rightarrow>
        (case read_separator CHR '':'' i (read_number 16 4 True 65535) s of
           None \<Rightarrow> ([], False, s)
         | Some (g, s') \<Rightarrow> (case read_groups (Suc i) k s' of (gs, f, s'') \<Rightarrow> (of_nat g # gs, f, s''))))"

definition segments_to_addr :: "u16 list \<Rightarrow> 128 word" where
  "segments_to_addr gs = from_be (concat (map (to_be 2) gs))"

definition read_ipv6_addr :: "128 word reader" where
  "read_ipv6_addr s =
    (case read_groups 0 8 s of (hd_groups, head_ipv4, s1) \<Rightarrow>
      if length hd_groups = 8 then Some (segments_to_addr hd_groups, s1)
      else if head_ipv4 then None
      else (case read_given_char CHR '':'' s1 of None \<Rightarrow> None | Some (_, s2) \<Rightarrow>
        (case read_given_char CHR '':'' s2 of None \<Rightarrow> None | Some (_, s3) \<Rightarrow>
          (case read_groups 0 (8 - (length hd_groups + 1)) s3 of (tl_groups, _, s4) \<Rightarrow>
            Some (segments_to_addr (hd_groups
              @ replicate (8 - length hd_groups - length tl_groups) 0 @ tl_groups), s4)))))"

text \<open>\<open>IpAddr::from_str\<close>: IPv4, else IPv6, and nothing may follow.\<close>

definition parse_ip :: "string \<Rightarrow> ip_addr option" where
  "parse_ip s = (case read_ipv4_addr s of
      Some (a, r) \<Rightarrow> if r = [] then Some (IpV4 a) else None
    | None \<Rightarrow> (case read_ipv6_addr s of
        Some (a, r) \<Rightarrow> if r = [] then Some (IpV6 a) else None
      | None \<Rightarrow> None))"

subsection \<open>Display of addresses\<close>

definition show_ipv4 :: "u32 \<Rightarrow> string" where
  "show_ipv4 a = join_with ''.'' (map show_word (to_be 4 a))"

definition segments :: "128 word \<Rightarrow> u16 list" where
  "segments a = map (\<lambda>i. ucast (drop_bit (112 - 16 * i) a)) [0..<8]"

definition to_ipv4_mapped :: "128 word \<Rightarrow> u32 option" where
  "to_ipv4_mapped a = (if take 6 (segments a) = [0, 0, 0, 0, 0, 65535]
     then Some (ucast a) else None)"

text \<open>The longest run of zero segments, the first of several, as \<open>(start, len)\<close>.\<close>

fun zero_span :: "nat \<Rightarrow> u16 list \<Rightarrow> nat \<times> nat \<Rightarrow> nat \<times> nat \<Rightarrow> nat \<times> nat" where
  "zero_span i [] cur longest = longest"
| "zero_span i (g # gs) (cs, cl) longest =
    (if g = 0
     then let cur = (if cl = 0 then i else cs, cl + 1)
          in zero_span (Suc i) gs cur (if snd cur > snd longest then cur else longest)
     else zero_span (Suc i) gs (0, 0) longest)"

definition fmt_subslice :: "u16 list \<Rightarrow> string" where
  "fmt_subslice gs = join_with '':'' (map (\<lambda>g. show_radix 16 (unat g)) gs)"

definition show_ipv6 :: "128 word \<Rightarrow> string" where
  "show_ipv6 a =
    (case to_ipv4_mapped a of
       Some v4 \<Rightarrow> ''::ffff:'' @ show_ipv4 v4
     | None \<Rightarrow> (case zero_span 0 (segments a) (0, 0) (0, 0) of (start, len) \<Rightarrow>
         if len > 1 then fmt_subslice (take start (segments a)) @ ''::''
                         @ fmt_subslice (drop (start + len) (segments a))
         else fmt_subslice (segments a)))"

fun show_ip :: "ip_addr \<Rightarrow> string" where
  "show_ip (IpV4 a) = show_ipv4 a"
| "show_ip (IpV6 a) = show_ipv6 a"

subsection \<open>Reading back what was written\<close>

text \<open>The text of a sequence of elements from position \<open>i\<close> on, each but the very first after
  its separator: the shape the readers consume.\<close>

fun sep_text :: "char \<Rightarrow> nat \<Rightarrow> string list \<Rightarrow> string" where
  "sep_text c i [] = []"
| "sep_text c i (x # xs) = (if 0 < i then [c] else []) @ x @ sep_text c (Suc i) xs"

lemma sep_text_Suc: "sep_text c (Suc i) xs = concat (map (\<lambda>x. c # x) xs)"
  by (induction xs arbitrary: i) auto

lemma join_sep_text: "join_with [c] xs = sep_text c 0 xs"
  by (induction "[c]" xs rule: join_with.induct) (auto simp: sep_text_Suc)

lemma separators_no_digit [simp]:
  "\<not> is_digit 10 CHR ''.''" "\<not> is_digit 10 CHR '':''" "\<not> is_digit 16 CHR '':''" "\<not> is_digit 16 CHR ''.''"
  "\<not> is_digit 10 CHR ''f''" "\<not> is_digit 10 CHR '';''" "\<not> is_digit 10 CHR ''/''" "\<not> is_digit 10 CHR ''-''"
  "\<not> is_digit 16 CHR '';''" "\<not> is_digit 16 CHR ''/''"
  by (simp_all add: is_digit_def to_digit_def)

lemma read_number_show:
  assumes "2 \<le> r" "r \<le> 16" "n \<le> m" "length (show_radix r n) \<le> k"
    and "rest = [] \<or> \<not> is_digit r (hd rest)"
  shows "read_number r k z m (show_radix r n @ rest) = Some (n, rest)"
proof -
  have d: "\<forall>c\<in>set (show_radix r n). is_digit r c" using assms by (simp add: show_radix_digits)
  have t: "takeWhile (is_digit r) rest = []" "dropWhile (is_digit r) rest = rest"
    using assms(5) by (cases rest; simp)+
  have tw: "takeWhile (is_digit r) (show_radix r n @ rest) = show_radix r n"
    using d t by simp
  have dw: "dropWhile (is_digit r) (show_radix r n @ rest) = rest"
    using d t by simp
  have "length (show_radix r n) \<le> 1" if "hd (show_radix r n) = CHR ''0''"
    using hd_show_radix[OF assms(1,2) that] assms(1) by (simp add: show_radix.simps)
  with assms show ?thesis unfolding read_number_def tw dw by (auto simp: Let_def digits_value_show)
qed

lemma read_number_fails: "s = [] \<or> \<not> is_digit r (hd s) \<Longrightarrow> read_number r k z m s = None"
  by (cases s) (auto simp: read_number_def)

lemma hd_sep_text: "\<not> is_digit r c \<Longrightarrow> rest = [] \<or> \<not> is_digit r (hd rest) \<Longrightarrow>
    sep_text c (Suc i) xs @ rest = [] \<or> \<not> is_digit r (hd (sep_text c (Suc i) xs @ rest))"
  by (cases xs) auto

lemma length_show_octet: "n \<le> 255 \<Longrightarrow> length (show_radix 10 n) \<le> 3"
  using length_show_radix[of 10 n 2] by simp

lemma length_show_group: "n \<le> 65535 \<Longrightarrow> length (show_radix 16 n) \<le> 4"
  using length_show_radix[of 16 n 3] by simp

lemma read_octets_text:
  assumes "\<forall>n\<in>set ns. n \<le> 255" and "rest = [] \<or> \<not> is_digit 10 (hd rest)"
  shows "read_octets i (length ns) (sep_text CHR ''.'' i (map (show_radix 10) ns) @ rest) = Some (ns, rest)"
  using assms(1)
proof (induction ns arbitrary: i)
  case Nil
  then show ?case by simp
next
  case (Cons n ns)
  have "read_number 10 3 False 255 (show_radix 10 n @ sep_text CHR ''.'' (Suc i) (map (show_radix 10) ns) @ rest)
      = Some (n, sep_text CHR ''.'' (Suc i) (map (show_radix 10) ns) @ rest)"
    using Cons.prems hd_sep_text[OF separators_no_digit(1) assms(2), of i "map (show_radix 10) ns"]
    by (intro read_number_show length_show_octet) simp_all
  with Cons show ?case
    by (auto simp: read_separator_def read_given_char_def simp del: sep_text.simps(1))
qed

lemma unat_octet_le: "unat (w :: u8) \<le> 255"
  using unsigned_less[of w, where ?'a = nat] by simp

lemma unat_group_le: "unat (w :: u16) \<le> 65535"
  using unsigned_less[of w, where ?'a = nat] by simp

lemma read_ipv4_show:
  assumes "rest = [] \<or> \<not> is_digit 10 (hd rest)"
  shows "read_ipv4_addr (show_ipv4 a @ rest) = Some (a, rest)"
proof -
  let ?ns = "map unat (to_be 4 a)"
  have le: "\<forall>n\<in>set ?ns. n \<le> 255"
    by (auto simp: unat_octet_le)
  have text_eq: "show_ipv4 a = sep_text CHR ''.'' 0 (map (show_radix 10) ?ns)"
    by (simp add: show_ipv4_def join_sep_text show_word_def [abs_def] comp_def del: to_be.simps)
  have "length ?ns = 4" by simp
  with read_octets_text[OF le assms, of 0] text_eq
  have "read_octets 0 4 (show_ipv4 a @ rest) = Some (?ns, rest)" by simp
  moreover have "map of_nat ?ns = to_be 4 a" by (simp add: comp_def del: to_be.simps)
  ultimately show ?thesis by (simp add: read_ipv4_addr_def from_be_to_be del: to_be.simps)
qed

lemma read_octets_dot: "read_octets (Suc i) (Suc k) s = Some r \<Longrightarrow> CHR ''.'' \<in> set s"
  by (auto simp: read_separator_def read_given_char_def split: option.splits list.splits if_splits)

lemma read_ipv4_needs_dot:
  assumes "read_ipv4_addr s = Some r"
  shows "CHR ''.'' \<in> set s"
proof -
  have "read_octets 0 (Suc (Suc 2)) s \<noteq> None" using assms by (auto simp: read_ipv4_addr_def)
  then obtain n s' where n: "read_number 10 3 False 255 s = Some (n, s')" "read_octets (Suc 0) (Suc 2) s' \<noteq> None"
    unfolding read_octets.simps(2)[of 0] by (auto simp: read_separator_def split: option.splits)
  then have "CHR ''.'' \<in> set s'" using read_octets_dot by fastforce
  moreover have "set s' \<subseteq> set s"
    using n(1) by (auto simp: read_number_def Let_def split: if_splits dest: set_dropWhileD)
  ultimately show ?thesis by blast
qed

lemma read_ipv4_fails: "s = [] \<or> \<not> is_digit 10 (hd s) \<Longrightarrow> read_ipv4_addr s = None"
proof -
  assume "s = [] \<or> \<not> is_digit 10 (hd s)"
  then have "read_octets 0 (Suc 3) s = None"
    unfolding read_octets.simps(2)[of 0] by (simp add: read_separator_def read_number_fails)
  then show ?thesis by (simp add: read_ipv4_addr_def)
qed

lemma read_groups_fails:
  "read_ipv4_addr s = None \<Longrightarrow> read_number 16 4 True 65535 s = None \<Longrightarrow> read_groups 0 k s = ([], False, s)"
  by (cases k) (simp_all add: read_separator_def)

lemma read_groups_text:
  assumes "length gs \<le> k" and "CHR ''.'' \<notin> set rest" and "rest = [] \<or> (\<exists>t. rest = ''::'' @ t)"
  shows "read_groups i k (sep_text CHR '':'' i (map (\<lambda>g. show_radix 16 (unat g)) gs) @ rest) = (gs, False, rest)"
  using assms(1)
proof (induction gs arbitrary: i k)
  case Nil
  have "read_ipv4_addr rest = None" "read_ipv4_addr (tl rest) = None"
    using assms(2) read_ipv4_needs_dot by (metis option.exhaust, metis option.exhaust list.set_sel(2) tl_Nil)
  then show ?case
    using assms(3) by (cases k) (auto simp: read_separator_def read_given_char_def read_number_fails)
next
  case (Cons g gs)
  obtain k' where k: "k = Suc k'" using Cons.prems by (cases k) auto
  let ?rest = "sep_text CHR '':'' (Suc i) (map (\<lambda>g. show_radix 16 (unat g)) gs) @ rest"
  have "is_digit 16 CHR ''.'' \<Longrightarrow> False" by simp
  then have "CHR ''.'' \<notin> set (show_radix 16 n)" for n using show_radix_digits[of 16 n] by auto
  then have "CHR ''.'' \<notin> set (show_radix 16 (unat g) @ ?rest)"
    using assms(2) by (auto simp: sep_text_Suc)
  then have no4: "read_ipv4_addr (show_radix 16 (unat g) @ ?rest) = None"
    using read_ipv4_needs_dot by (metis option.exhaust)
  have "rest = [] \<or> \<not> is_digit 16 (hd rest)" using assms(3) by auto
  then have "read_number 16 4 True 65535 (show_radix 16 (unat g) @ ?rest) = Some (unat g, ?rest)"
    using hd_sep_text[OF separators_no_digit(3), of rest i "map (\<lambda>g. show_radix 16 (unat g)) gs"]
    by (intro read_number_show length_show_group unat_group_le) simp_all
  with no4 Cons k show ?case
    by (auto simp: read_separator_def read_given_char_def)
qed

lemma fmt_subslice_text: "fmt_subslice gs = sep_text CHR '':'' 0 (map (\<lambda>g. show_radix 16 (unat g)) gs)"
  by (simp add: fmt_subslice_def join_sep_text)

lemma fmt_subslice_no_dot: "CHR ''.'' \<notin> set (fmt_subslice gs)"
proof -
  have "CHR ''.'' \<notin> set (show_radix 16 n)" for n using show_radix_digits[of 16 n] by auto
  then show ?thesis by (cases gs) (auto simp: fmt_subslice_text sep_text_Suc)
qed

lemma to_be_add: "to_be (m + n) w = to_be m (drop_bit (8 * n) w) @ to_be n w"
  by (induction n arbitrary: w) (simp_all add: add.commute)

lemma to_be_ucast16: "to_be 2 (ucast w :: u16) = to_be 2 (w :: 'a::len word)"
  by (simp add: to_be_2) (intro conjI bit_word_eqI; auto simp: bit_simps)

lemma segments_to_addr_segments [simp]: "segments_to_addr (segments a) = a"
proof -
  have "to_be 16 a = concat (map (to_be 2) (segments a))"
    using to_be_add[of 2 14 a] to_be_add[of 2 12 a] to_be_add[of 2 10 a] to_be_add[of 2 8 a]
      to_be_add[of 2 6 a] to_be_add[of 2 4 a] to_be_add[of 2 2 a]
    by (simp add: segments_def upt_rec to_be_ucast16 del: to_be.simps)
  then show ?thesis
    using from_be_to_be[of 16 a] by (simp add: segments_to_addr_def)
qed

definition zero_run :: "u16 list \<Rightarrow> nat \<times> nat \<Rightarrow> bool" where
  "zero_run gs sp = (snd sp = 0 \<or> (fst sp + snd sp \<le> length gs
     \<and> (\<forall>j. fst sp \<le> j \<longrightarrow> j < fst sp + snd sp \<longrightarrow> gs ! j = 0)))"

lemma zero_span_run:
  assumes "i = length pre" "zero_run pre cur" "snd cur = 0 \<or> fst cur + snd cur = i" "zero_run pre longest"
  shows "zero_run (pre @ gs) (zero_span i gs cur longest)"
  using assms
proof (induction gs arbitrary: i pre cur longest)
  case Nil
  then show ?case by simp
next
  case (Cons g gs)
  obtain cs cl ls ll where cur: "cur = (cs, cl)" "longest = (ls, ll)" by (cases cur; cases longest)
  have ext: "zero_run (pre @ [g]) sp" if "zero_run pre sp" for sp
    using that by (auto simp: zero_run_def nth_append)
  have step: "zero_run ((pre @ [g]) @ gs) (zero_span (Suc i) gs cur' longest')"
    if "zero_run (pre @ [g]) cur'" "snd cur' = 0 \<or> fst cur' + snd cur' = Suc i" "zero_run (pre @ [g]) longest'"
    for cur' longest' using Cons.IH[of "Suc i" "pre @ [g]" cur' longest'] Cons.prems(1) that by simp
  have "zero_run (pre @ [g]) (if cl = 0 then i else cs, cl + 1)" if "g = 0"
    using Cons.prems cur that by (auto simp: zero_run_def nth_append)
  then show ?case
    using step[of "(if cl = 0 then i else cs, cl + 1)"] step[of "(0, 0)" longest] ext[OF Cons.prems(4)] Cons.prems cur
    by (auto simp: Let_def zero_run_def[of _ "(0, 0)"])
qed

lemma length_segments [simp]: "length (segments a) = 8"
  by (simp add: segments_def)

lemma zero_run_split:
  "zero_run gs (s, l) \<Longrightarrow> 0 < l \<Longrightarrow> gs = take s gs @ replicate l 0 @ drop (s + l) gs \<and> s + l \<le> length gs"
  unfolding zero_run_def
  by (auto intro!: nth_equalityI simp: nth_append)

lemma mapped_segments:
  assumes "to_ipv4_mapped a = Some v4"
  shows "segments a = [0, 0, 0, 0, 0, 65535, ucast (drop_bit 16 v4), ucast v4]"
proof -
  have "take 6 (segments a) = [0, 0, 0, 0, 0, 65535]" and v: "v4 = ucast a"
    using assms by (auto simp: to_ipv4_mapped_def split: if_splits)
  then have "segments a = [0, 0, 0, 0, 0, 65535] @ drop 6 (segments a)"
    by (metis append_take_drop_id)
  moreover have "drop 6 (segments a) = [ucast (drop_bit 16 v4), ucast v4]"
    unfolding v by (simp add: segments_def upt_rec) (intro conjI bit_word_eqI; auto simp: bit_simps)
  ultimately show ?thesis by simp
qed

lemma read_groups_mapped:
  "read_groups 0 7 (''ffff:'' @ show_ipv4 v4) = ([65535, ucast (drop_bit 16 v4), ucast v4], True, [])"
proof -
  have f: "takeWhile (is_digit 16) (''ffff:'' @ s) = ''ffff''" "dropWhile (is_digit 16) (''ffff:'' @ s) = CHR '':'' # s"
      "digits_value 16 ''ffff'' = 65535" for s
    by (simp_all add: is_digit_def to_digit_def digits_value_def)
  have n: "read_number 16 4 True 65535 (''ffff:'' @ s) = Some (65535, CHR '':'' # s)" for s
    unfolding read_number_def f Let_def by simp
  have "read_ipv4_addr (''ffff:'' @ s) = None" for s by (simp add: read_ipv4_fails)
  moreover have "read_ipv4_addr (show_ipv4 v4) = Some (v4, [])" using read_ipv4_show[of "[]"] by simp
  moreover have "(7::nat) = Suc (Suc 5)" by simp
  ultimately show ?thesis using n[of "show_ipv4 v4"]
    by (simp only: read_groups.simps) (simp add: read_separator_def read_given_char_def)
qed

lemma read_ipv6_show: "read_ipv6_addr (show_ipv6 a) = Some (a, [])"
proof (cases "to_ipv4_mapped a")
  case (Some v4)
  have "read_groups 0 8 (CHR '':'' # s) = ([], False, CHR '':'' # s)" for s
    by (simp add: read_groups_fails read_ipv4_fails read_number_fails)
  moreover have "segments_to_addr ([] @ replicate (8 - 0 - 3) 0 @ [65535, ucast (drop_bit 16 v4), ucast v4]) = a"
    using segments_to_addr_segments[of a] mapped_segments[OF Some] by (simp add: numeral_eq_Suc)
  ultimately show ?thesis
    using Some read_groups_mapped[of v4]
    by (simp add: show_ipv6_def read_ipv6_addr_def read_given_char_def)
next
  case None
  obtain s l where z: "zero_span 0 (segments a) (0, 0) (0, 0) = (s, l)" by fastforce
  have run: "zero_run (segments a) (s, l)"
    using zero_span_run[of 0 "[]" "(0, 0)" "(0, 0)" "segments a"] z by (simp add: zero_run_def)
  show ?thesis
  proof (cases "l > 1")
    case False
    have "read_groups 0 8 (fmt_subslice (segments a) @ []) = (segments a, False, [])"
      unfolding fmt_subslice_text by (rule read_groups_text) auto
    with False None z show ?thesis by (simp add: show_ipv6_def read_ipv6_addr_def)
  next
    case True
    let ?h = "take s (segments a)" and ?t = "drop (s + l) (segments a)"
    from run True have sp: "segments a = ?h @ replicate l 0 @ ?t" "s + l \<le> 8"
      using zero_run_split[of "segments a" s l] by auto
    have "read_groups 0 8 (fmt_subslice ?h @ ''::'' @ fmt_subslice ?t) = (?h, False, ''::'' @ fmt_subslice ?t)"
      using fmt_subslice_no_dot unfolding fmt_subslice_text[of ?h] by (intro read_groups_text) auto
    moreover have "read_groups 0 (8 - (s + 1)) (fmt_subslice ?t @ []) = (?t, False, [])"
      using True sp(2) unfolding fmt_subslice_text by (intro read_groups_text) auto
    moreover have "8 - s - length ?t = l" using sp(2) by simp
    ultimately show ?thesis
      using None z True sp by (simp add: show_ipv6_def read_ipv6_addr_def read_given_char_def)
  qed
qed

lemma read_ipv4_show_ipv6: "read_ipv4_addr (show_ipv6 a) = None"
proof (cases "to_ipv4_mapped a")
  case (Some v4)
  then show ?thesis
    by (simp add: show_ipv6_def read_ipv4_fails)
next
  case None
  then have "CHR ''.'' \<notin> set (show_ipv6 a)"
    by (auto simp: show_ipv6_def fmt_subslice_no_dot split: prod.splits)
  then show ?thesis using read_ipv4_needs_dot by (metis option.exhaust)
qed

text \<open>Every address reads back from its text.\<close>

lemma parse_show_ip [simp]: "parse_ip (show_ip a) = Some a"
proof (cases a)
  case (IpV4 v)
  then show ?thesis using read_ipv4_show[of "[]" v] by (simp add: parse_ip_def)
next
  case (IpV6 v)
  then show ?thesis by (simp add: parse_ip_def read_ipv4_show_ipv6 read_ipv6_show)
qed

text \<open>The text of an address contains none of the separators of a flow description.\<close>

lemma show_ip_chars: "c \<in> set (show_ip a) \<Longrightarrow> is_digit 16 c \<or> c = CHR ''.'' \<or> c = CHR '':''"
proof -
  have hex: "c \<in> set (show_radix 16 n) \<Longrightarrow> is_digit 16 c" for n using show_radix_digits[of 16 n] by auto
  have "c \<in> set (show_word (w :: u8)) \<Longrightarrow> is_digit 16 c" for w
    using show_word_digits[of c w] by (auto simp: is_digit_def to_digit_def Let_def split: if_splits)
  then have v4: "c \<in> set (show_ipv4 v) \<Longrightarrow> is_digit 16 c \<or> c = CHR ''.''" for v
    by (auto simp: show_ipv4_def to_be_4)
  have v6: "c \<in> set (fmt_subslice gs) \<Longrightarrow> is_digit 16 c \<or> c = CHR '':''" for gs
    using hex by (cases gs) (auto simp: fmt_subslice_text sep_text_Suc split: if_splits)
  have "is_digit 16 CHR ''f''" by (simp add: is_digit_def to_digit_def)
  then have "c \<in> set (show_ipv6 v) \<Longrightarrow> is_digit 16 c \<or> c = CHR ''.'' \<or> c = CHR '':''" for v
    using v4 v6 by (auto simp: show_ipv6_def split: option.splits prod.splits if_splits)
  with v4 show "c \<in> set (show_ip a) \<Longrightarrow> is_digit 16 c \<or> c = CHR ''.'' \<or> c = CHR '':''"
    by (cases a) auto
qed

end
