(* ===== verification/Pfcp_Classifier.thy ===== *)
theory Pfcp_Classifier
  imports Ip_Text
begin

unbundle bit_operations_syntax

section \<open>PFCP: prefixes, packet classification, gates\<close>

text \<open>
  The classifier layer of \<open>crates/pfcp/src/lib.rs\<close>: \<open>IpPrefix\<close>, \<open>PacketKey\<close>, \<open>FlowFilter\<close> with
  its flow-description text form, \<open>Gate\<close>, \<open>FlowQer\<close> and \<open>packet_key\<close>, and the small data types
  the session table is built from (\<open>UeAddr\<close>, \<open>Egress\<close>, \<open>SessionAmbr\<close>).
\<close>

subsection \<open>Prefixes\<close>

record ip_prefix =
  px_addr :: ip_addr
  px_len :: u8

fun octets :: "ip_addr \<Rightarrow> bytes" where
  "octets (IpV4 a) = to_be 4 a"
| "octets (IpV6 a) = to_be 16 a"

text \<open>The local function \<open>masked\<close> of \<open>contains\<close>.\<close>

definition masked :: "bytes \<Rightarrow> u8 \<Rightarrow> bytes" where
  "masked bs len8 =
    (let len = min (unat len8) (length bs * 8); full = len div 8; rem = len mod 8
     in take full bs @ (if rem > 0 then [bs ! full AND push_bit (8 - rem) 255] else []))"

fun contains :: "ip_prefix \<Rightarrow> ip_addr \<Rightarrow> bool" where
  "contains p ip = (case (px_addr p, ip) of
     (IpV4 net, IpV4 a) \<Rightarrow> masked (to_be 4 net) (px_len p) = masked (to_be 4 a) (px_len p)
   | (IpV6 net, IpV6 a) \<Rightarrow> masked (to_be 16 net) (px_len p) = masked (to_be 16 a) (px_len p)
   | _ \<Rightarrow> False)"

definition show_prefix :: "ip_prefix \<Rightarrow> string" where
  "show_prefix p = show_ip (px_addr p) @ ''/'' @ show_word (px_len p)"

definition parse_prefix :: "string \<Rightarrow> ip_prefix option" where
  "parse_prefix s = (case split_once CHR ''/'' s of
     None \<Rightarrow> None
   | Some (addr, len) \<Rightarrow> (case parse_ip addr of
       None \<Rightarrow> None
     | Some a \<Rightarrow> (case parse_word len of None \<Rightarrow> None | Some l \<Rightarrow> Some \<lparr>px_addr = a, px_len = l\<rparr>)))"

subsection \<open>Filters\<close>

record packet_key =
  pk_protocol :: u8
  pk_src_port :: u16
  pk_dst_port :: u16
  pk_dst :: ip_addr

record flow_filter =
  ff_protocol :: "u8 option"
  ff_ports :: "(u16 \<times> u16) option"
  ff_dst :: "ip_prefix option"

definition transport :: "u8 \<Rightarrow> u16 \<Rightarrow> u16 \<Rightarrow> flow_filter" where
  "transport protocol port_low port_high =
     \<lparr>ff_protocol = Some protocol, ff_ports = Some (port_low, port_high), ff_dst = None\<rparr>"

definition to_prefix :: "ip_prefix \<Rightarrow> flow_filter" where
  "to_prefix p = \<lparr>ff_protocol = None, ff_ports = None, ff_dst = Some p\<rparr>"

definition is_none_or :: "('a \<Rightarrow> bool) \<Rightarrow> 'a option \<Rightarrow> bool" where
  "is_none_or P x = (case x of None \<Rightarrow> True | Some v \<Rightarrow> P v)"

definition filter_matches :: "flow_filter \<Rightarrow> packet_key \<Rightarrow> bool" where
  "filter_matches f key =
    (is_none_or (\<lambda>p. p = pk_protocol key) (ff_protocol f)
     \<and> is_none_or (\<lambda>(lo, hi). (lo \<le> pk_src_port key \<and> pk_src_port key \<le> hi)
          \<or> (lo \<le> pk_dst_port key \<and> pk_dst_port key \<le> hi)) (ff_ports f)
     \<and> is_none_or (\<lambda>d. contains d (pk_dst key)) (ff_dst f))"

definition to_flow_description :: "flow_filter \<Rightarrow> string" where
  "to_flow_description f = join_with '';''
    ((case ff_protocol f of None \<Rightarrow> [] | Some p \<Rightarrow> [''proto='' @ show_word p])
     @ (case ff_ports f of None \<Rightarrow> [] | Some (lo, hi) \<Rightarrow> [''ports='' @ show_word lo @ ''-'' @ show_word hi])
     @ (case ff_dst f of None \<Rightarrow> [] | Some d \<Rightarrow> [''dst='' @ show_prefix d]))"

text \<open>One component of the description, and the loop over all of them.\<close>

definition flow_part :: "flow_filter \<Rightarrow> string \<Rightarrow> flow_filter option" where
  "flow_part f part = (case split_once CHR ''='' part of
     None \<Rightarrow> None
   | Some (k, v) \<Rightarrow>
       if k = ''proto'' then map_option (\<lambda>p. f\<lparr>ff_protocol := Some p\<rparr>) (parse_word v)
       else if k = ''ports'' then (case split_once CHR ''-'' v of
           None \<Rightarrow> None
         | Some (lo, hi) \<Rightarrow> (case parse_word lo of None \<Rightarrow> None | Some l \<Rightarrow>
             (case parse_word hi of None \<Rightarrow> None | Some h \<Rightarrow> Some (f\<lparr>ff_ports := Some (l, h)\<rparr>))))
       else if k = ''dst'' then map_option (\<lambda>d. f\<lparr>ff_dst := Some d\<rparr>) (parse_prefix v)
       else Some f)"

fun flow_parts :: "flow_filter \<Rightarrow> string list \<Rightarrow> flow_filter option" where
  "flow_parts f [] = Some f"
| "flow_parts f (p # ps) = (case flow_part f p of None \<Rightarrow> None | Some f' \<Rightarrow> flow_parts f' ps)"

definition match_all :: flow_filter where
  "match_all = \<lparr>ff_protocol = None, ff_ports = None, ff_dst = None\<rparr>"

definition from_flow_description :: "string \<Rightarrow> flow_filter option" where
  "from_flow_description s = flow_parts match_all (filter (\<lambda>p. p \<noteq> []) (split_on CHR '';'' s))"

subsection \<open>Gates and flow rules\<close>

record gate =
  gt_uplink :: bool
  gt_downlink :: bool

definition OPEN :: gate where
  "OPEN = \<lparr>gt_uplink = True, gt_downlink = True\<rparr>"

definition is_restricted :: "gate \<Rightarrow> bool" where
  "is_restricted g = (\<not> gt_uplink g \<or> \<not> gt_downlink g)"

text \<open>The Gate Status IE: \<open>GateStatus::new(downlink, uplink)\<close>.\<close>

datatype gate_status_value = GateOpen | GateClosed

record gate_status =
  gs_downlink :: gate_status_value
  gs_uplink :: gate_status_value

definition gate_value :: "bool \<Rightarrow> gate_status_value" where
  "gate_value open_gate = (if open_gate then GateOpen else GateClosed)"

definition to_gate_status :: "gate \<Rightarrow> gate_status" where
  "to_gate_status g = \<lparr>gs_downlink = gate_value (gt_downlink g), gs_uplink = gate_value (gt_uplink g)\<rparr>"

definition from_gate_status :: "gate_status \<Rightarrow> gate" where
  "from_gate_status gs = \<lparr>gt_uplink = (gs_uplink gs = GateOpen), gt_downlink = (gs_downlink gs = GateOpen)\<rparr>"

record flow_qer =
  fq_qfi :: u8
  fq_filter :: flow_filter
  fq_mfbr_dl_bps :: u64
  fq_mfbr_ul_bps :: u64
  fq_gate :: gate

lemma gate_status_roundtrip [simp]: "from_gate_status (to_gate_status g) = g"
  by (cases g) (simp add: from_gate_status_def to_gate_status_def gate_value_def)

lemma unrestricted_is_open: "\<not> is_restricted g \<Longrightarrow> g = OPEN"
  by (cases g) (simp add: is_restricted_def OPEN_def)

subsection \<open>Packet keys\<close>

definition l4_ports :: "bytes \<Rightarrow> u8 \<Rightarrow> nat \<Rightarrow> u16 \<times> u16" where
  "l4_ports pkt protocol off =
    (if (protocol = 6 \<or> protocol = 17 \<or> protocol = 132) \<and> length pkt \<ge> off + 4
     then (from_be [pkt ! off, pkt ! (off + 1)], from_be [pkt ! (off + 2), pkt ! (off + 3)])
     else (0, 0))"

definition packet_key_of :: "bytes \<Rightarrow> packet_key option" where
  "packet_key_of pkt =
    (if pkt = [] then None
     else if drop_bit 4 (pkt ! 0) = 4 \<and> length pkt \<ge> 20 then
       let ihl = unat (pkt ! 0 AND 15) * 4; protocol = pkt ! 9; ps = l4_ports pkt protocol ihl
       in Some \<lparr>pk_protocol = protocol, pk_src_port = fst ps, pk_dst_port = snd ps,
            pk_dst = IpV4 (from_be [pkt ! 16, pkt ! 17, pkt ! 18, pkt ! 19])\<rparr>
     else if drop_bit 4 (pkt ! 0) = 6 \<and> length pkt \<ge> 40 then
       let protocol = pkt ! 6; ps = l4_ports pkt protocol 40
       in Some \<lparr>pk_protocol = protocol, pk_src_port = fst ps, pk_dst_port = snd ps,
            pk_dst = IpV6 (from_be (subslice 24 40 pkt))\<rparr>
     else None)"

subsection \<open>Sessions' addresses and egresses\<close>

record session_ambr =
  sa_uplink_bps :: u64
  sa_downlink_bps :: u64

record ue_addr =
  ua_v4 :: "u32 option"
  ua_v6 :: "128 word option"

definition ue_addr_from_v4 :: "u32 \<Rightarrow> ue_addr" where
  "ue_addr_from_v4 v4 = \<lparr>ua_v4 = Some v4, ua_v6 = None\<rparr>"

datatype egress = ToN6 | ToPeer u32 u32

definition ipv6_in_prefix64 :: "128 word \<Rightarrow> 128 word \<Rightarrow> bool" where
  "ipv6_in_prefix64 addr pre = (take 8 (to_be 16 addr) = take 8 (to_be 16 pre))"

subsection \<open>A prefix contains the addresses that share its leading bits\<close>

lemma nth_to_be: "i < n \<Longrightarrow> to_be n w ! i = ucast (drop_bit (8 * (n - 1 - i)) w)"
proof (induction n arbitrary: w i)
  case 0
  then show ?case by simp
next
  case (Suc n)
  show ?case
  proof (cases "i < n")
    case True
    then have "8 + 8 * (n - Suc i) = 8 * (n - i)" by simp
    then show ?thesis using Suc True by (simp add: nth_append drop_bit_drop_bit add.commute)
  next
    case False
    then show ?thesis using Suc by (simp add: nth_append less_Suc_eq)
  qed
qed

lemma take_to_be: "k \<le> n \<Longrightarrow> take k (to_be n w) = to_be k (drop_bit (8 * (n - k)) w)"
  using to_be_add[of k "n - k" w] by simp

lemma to_be_eq_iff:
  assumes "LENGTH('a) \<le> 8 * n + d"
  shows "to_be n (drop_bit d a) = to_be n (drop_bit d b) \<longleftrightarrow> drop_bit d a = drop_bit d (b :: 'a::len word)"
proof -
  have "take_bit (8 * n) (drop_bit d w) = drop_bit d w" for w :: "'a word"
    using assms by (intro bit_word_eqI) (auto simp: bit_simps dest: bit_imp_le_length)
  then show ?thesis using from_be_to_be_take[of n "drop_bit d a"] from_be_to_be_take[of n "drop_bit d b"]
    by metis
qed

lemma drop_bit_eq_iff: "drop_bit d a = drop_bit d b \<longleftrightarrow> (\<forall>m\<ge>d. bit a m = bit (b :: 'a::len word) m)"
proof
  assume eq: "drop_bit d a = drop_bit d b"
  have "bit a m = bit b m" if "d \<le> m" for m
    using arg_cong[OF eq, of "\<lambda>w. bit w (m - d)"] that by (simp add: bit_drop_bit_eq)
  then show "\<forall>m\<ge>d. bit a m = bit b m" by blast
next
  assume "\<forall>m\<ge>d. bit a m = bit b m"
  then show "drop_bit d a = drop_bit d b" by (intro bit_word_eqI) (simp add: bit_drop_bit_eq)
qed

lemma masked_octet_eq_iff:
  fixes a b :: "'a::len word"
  assumes "r \<le> 8"
  shows "(ucast (drop_bit d a) :: u8) AND push_bit (8 - r) 255 = ucast (drop_bit d b) AND push_bit (8 - r) 255
    \<longleftrightarrow> (\<forall>m. d + (8 - r) \<le> m \<longrightarrow> m < d + 8 \<longrightarrow> bit a m = bit b m)"
    (is "?L = ?R")
proof -
  have "(255 :: u8) = - 1" by simp
  then have m: "bit (push_bit (8 - r) 255 :: u8) k \<longleftrightarrow> 8 - r \<le> k \<and> k < 8" for k
    by (simp only:) (auto simp: bit_simps dest: bit_imp_le_length)
  have u: "bit (ucast (drop_bit d w) :: u8) k \<longleftrightarrow> k < 8 \<and> bit w (d + k)" for w :: "'a word" and k
    by (auto simp: bit_simps dest: bit_imp_le_length)
  show ?thesis
  proof
    assume eq: ?L
    have "bit a m = bit b m" if "d + (8 - r) \<le> m" "m < d + 8" for m
    proof -
      have "m - d < 8" "8 - r \<le> m - d" "d + (m - d) = m" using that by linarith+
      then show ?thesis using arg_cong[OF eq, of "\<lambda>w. bit w (m - d)"] by (simp only: bit_and_iff m u) simp
    qed
    then show ?R by blast
  next
    assume R: ?R
    show ?L
    proof (rule bit_word_eqI)
      fix k
      show "bit ((ucast (drop_bit d a) :: u8) AND push_bit (8 - r) 255) k
          = bit ((ucast (drop_bit d b) :: u8) AND push_bit (8 - r) 255) k"
        using R[rule_format, of "d + k"] by (simp only: bit_and_iff m u) auto
    qed
  qed
qed

lemma masked_eq_iff:
  fixes a b :: "'a::len word"
  assumes "LENGTH('a) = 8 * n"
  shows "masked (to_be n a) l = masked (to_be n b) l
    \<longleftrightarrow> drop_bit (8 * n - min (unat l) (8 * n)) a = drop_bit (8 * n - min (unat l) (8 * n)) b"
proof -
  define len where "len = min (unat l) (8 * n)"
  define full where "full = len div 8"
  define r where "r = len mod 8"
  have len: "len = 8 * full + r" "r < 8" "len \<le> 8 * n" by (simp_all add: full_def r_def len_def)
  have m: "masked (to_be n w) l = to_be full (drop_bit (8 * (n - full)) w)
      @ (if r > 0 then [ucast (drop_bit (8 * (n - 1 - full)) w) AND push_bit (8 - r) 255] else [])"
    for w :: "'a word"
  proof -
    have "masked (to_be n w) l = take full (to_be n w)
        @ (if r > 0 then [to_be n w ! full AND push_bit (8 - r) 255] else [])"
      by (simp add: masked_def Let_def len_def full_def r_def mult.commute[of n])
    moreover have "full < n" if "r > 0" using len that by linarith
    ultimately show ?thesis using len by (auto simp: take_to_be nth_to_be)
  qed
  have "masked (to_be n a) l = masked (to_be n b) l \<longleftrightarrow>
      drop_bit (8 * (n - full)) a = drop_bit (8 * (n - full)) b
      \<and> (r > 0 \<longrightarrow> (\<forall>k. 8 * (n - 1 - full) + (8 - r) \<le> k \<longrightarrow> k < 8 * (n - 1 - full) + 8 \<longrightarrow> bit a k = bit b k))"
    using len assms by (auto simp: m to_be_eq_iff masked_octet_eq_iff)
  also have "\<dots> \<longleftrightarrow> (\<forall>k\<ge>8 * n - len. bit a k = bit b k)"
  proof (cases "r = 0")
    case True
    with len show ?thesis by (simp add: drop_bit_eq_iff algebra_simps)
  next
    case False
    then have "full < n" using len by linarith
    then have e: "8 * (n - full) = 8 * (n - 1 - full) + 8" "8 * n - len = 8 * (n - 1 - full) + (8 - r)"
      using len by linarith+
    show ?thesis unfolding e(2) using False unfolding drop_bit_eq_iff e(1)
      by (auto simp: not_less)
  qed
  finally show ?thesis by (simp add: drop_bit_eq_iff len_def)
qed

text \<open>\<open>IpPrefix::contains\<close>. An address is inside a prefix exactly when it is of the same
  family and its leading \<open>len\<close> bits are those of the prefix; a length beyond the width of the
  family counts as the full width.\<close>

theorem contains_iff_leading_bits:
  "contains p ip \<longleftrightarrow> (case (px_addr p, ip) of
     (IpV4 net, IpV4 a) \<Rightarrow> drop_bit (32 - min (unat (px_len p)) 32) net = drop_bit (32 - min (unat (px_len p)) 32) a
   | (IpV6 net, IpV6 a) \<Rightarrow> drop_bit (128 - min (unat (px_len p)) 128) net = drop_bit (128 - min (unat (px_len p)) 128) a
   | _ \<Rightarrow> False)"
  using masked_eq_iff[where ?'a = 32 and n = 4 and l = "px_len p"]
    masked_eq_iff[where ?'a = 128 and n = 16 and l = "px_len p"]
  by (auto split: ip_addr.splits)

subsection \<open>Flow descriptions\<close>

lemma parse_show_prefix [simp]: "parse_prefix (show_prefix p) = Some p"
proof -
  have "CHR ''/'' \<notin> set (show_ip (px_addr p))" using show_ip_chars by fastforce
  then show ?thesis by (simp add: parse_prefix_def show_prefix_def split_once_append)
qed

lemma no_separator_in_word: "\<not> is_digit 10 c \<Longrightarrow> c \<notin> set (show_word w)"
  using show_word_digits by blast

lemma show_prefix_no_semicolon: "CHR '';'' \<notin> set (show_prefix p)"
proof -
  have "CHR '';'' \<notin> set (show_ip (px_addr p))" using show_ip_chars by fastforce
  then show ?thesis by (auto simp: show_prefix_def no_separator_in_word)
qed

lemma flow_part_roundtrip:
  "flow_part f (''proto='' @ show_word p) = Some (f\<lparr>ff_protocol := Some p\<rparr>)"
  "flow_part f (''ports='' @ show_word lo @ ''-'' @ show_word hi) = Some (f\<lparr>ff_ports := Some (lo, hi)\<rparr>)"
  "flow_part f (''dst='' @ show_prefix d) = Some (f\<lparr>ff_dst := Some d\<rparr>)"
  by (simp_all add: flow_part_def split_once_append no_separator_in_word)

lemma flow_description_text: "from_flow_description (to_flow_description f) = Some f"
proof -
  define parts where "parts =
    (case ff_protocol f of None \<Rightarrow> [] | Some p \<Rightarrow> [''proto='' @ show_word p])
     @ (case ff_ports f of None \<Rightarrow> [] | Some (lo, hi) \<Rightarrow> [''ports='' @ show_word lo @ ''-'' @ show_word hi])
     @ (case ff_dst f of None \<Rightarrow> [] | Some d \<Rightarrow> [''dst='' @ show_prefix d])"
  have sc: "\<forall>p\<in>set parts. CHR '';'' \<notin> set p \<and> p \<noteq> []"
    by (auto simp: parts_def no_separator_in_word show_prefix_no_semicolon split: option.splits)
  have run: "flow_parts match_all parts = Some f"
    by (cases f) (auto simp: parts_def match_all_def flow_part_roundtrip[simplified] split: option.splits)
  have "filter (\<lambda>p. p \<noteq> []) (split_on CHR '';'' (join_with '';'' parts)) = parts"
  proof (cases "parts = []")
    case False
    then have "split_on CHR '';'' (join_with '';'' parts) = parts" using sc by (intro split_join) auto
    then show ?thesis using sc by (simp add: filter_id_conv)
  qed simp
  then show ?thesis
    using run by (simp add: from_flow_description_def to_flow_description_def flip: parts_def)
qed

text \<open>every filter reads back from its flow description, so the classifier the UPF installs is
  the one the SMF asked for; the empty description is the filter that matches everything.\<close>

theorem flow_description_roundtrip:
  "from_flow_description (to_flow_description f) = Some f
   \<and> from_flow_description [] = Some match_all \<and> filter_matches match_all key"
  by (simp add: flow_description_text)
    (simp add: from_flow_description_def filter_matches_def match_all_def is_none_or_def)

end
