(* ===== verification/Pfcp_TokenBucket.thy ===== *)
theory Pfcp_TokenBucket
  imports Prelude
begin

section \<open>PFCP: the token-bucket policer\<close>

text \<open>
  \<open>TokenBucket\<close> of \<open>crates/pfcp/src/lib.rs\<close>: \<open>new\<close>, \<open>poll\<close>, \<open>set_rate\<close>, over 64-bit words with
  the 128-bit product of the refill written out on naturals. The locale \<open>rate_limiter\<close> states
  what the session layer relies on (a poll never spends more than the budget plus what the
  elapsed time earned) and derives the conformance of every sequence of polls; the bucket of
  the sources is its instance.
\<close>

subsection \<open>Model\<close>

record token_bucket =
  rate_bps :: u64
  burst_bits :: u64
  level_bits :: u64
  last_nanos :: u64

definition MIN_BURST_BITS :: u64 where
  "MIN_BURST_BITS = 8 * 4096"

definition bucket_new :: "u64 \<Rightarrow> u64 \<Rightarrow> token_bucket" where
  "bucket_new rate now =
    (let burst = max rate MIN_BURST_BITS
     in \<lparr>rate_bps = rate, burst_bits = burst, level_bits = burst, last_nanos = now\<rparr>)"

text \<open>The refill: the product and the quotient are computed in 128 bits, then truncated to 64.\<close>

definition refill_bits :: "u64 \<Rightarrow> u64 \<Rightarrow> u64" where
  "refill_bits rate elapsed = of_nat (unat rate * unat elapsed div 1000000000)"

definition poll :: "token_bucket \<Rightarrow> u64 \<Rightarrow> u64 \<Rightarrow> bool \<times> token_bucket" where
  "poll b now bytes =
    (if rate_bps b = 0 then (True, b)
     else
       let elapsed = saturating_sub now (last_nanos b);
           refill = refill_bits (rate_bps b) elapsed;
           level = min (saturating_add (level_bits b) refill) (burst_bits b);
           need = saturating_mul bytes 8
       in if need \<le> level then (True, b\<lparr>last_nanos := now, level_bits := level - need\<rparr>)
          else (False, b\<lparr>last_nanos := now, level_bits := level\<rparr>))"

definition set_rate :: "token_bucket \<Rightarrow> u64 \<Rightarrow> u64 \<Rightarrow> token_bucket" where
  "set_rate b rate now =
    (let b' = snd (poll b now 0); fresh = bucket_new rate now
     in b'\<lparr>rate_bps := rate_bps fresh, burst_bits := burst_bits fresh,
           level_bits := min (level_bits b') (burst_bits fresh), last_nanos := now\<rparr>)"

definition bucket_wf :: "token_bucket \<Rightarrow> bool" where
  "bucket_wf b = (level_bits b \<le> burst_bits b \<and> burst_bits b = max (rate_bps b) MIN_BURST_BITS)"

subsection \<open>The contract of a rate limiter\<close>

text \<open>Quantities are in units of \<open>10^-9\<close> bit, so that \<open>rate * nanoseconds\<close> needs no rounding.\<close>

locale rate_limiter =
  fixes lim_poll :: "'b \<Rightarrow> u64 \<Rightarrow> u64 \<Rightarrow> bool \<times> 'b"
    and budget :: "'b \<Rightarrow> nat" and rate :: "'b \<Rightarrow> nat" and clock :: "'b \<Rightarrow> nat" and limited :: "'b \<Rightarrow> bool"
  assumes keeps_limit: "limited b \<Longrightarrow> limited (snd (lim_poll b now n)) \<and> rate (snd (lim_poll b now n)) = rate b"
    and sets_clock: "limited b \<Longrightarrow> clock (snd (lim_poll b now n)) = unat now"
    and spends: "limited b \<Longrightarrow> clock b \<le> unat now \<Longrightarrow> 8 * unat n < 2 ^ 64 \<Longrightarrow>
      (if fst (lim_poll b now n) then 8 * unat n * 1000000000 else 0) + budget (snd (lim_poll b now n))
        \<le> budget b + rate b * (unat now - clock b)"
begin

fun passed :: "'b \<Rightarrow> (u64 \<times> u64) list \<Rightarrow> nat" where
  "passed b [] = 0"
| "passed b ((now, n) # ps) =
    (if fst (lim_poll b now n) then 8 * unat n else 0) + passed (snd (lim_poll b now n)) ps"

fun final :: "'b \<Rightarrow> (u64 \<times> u64) list \<Rightarrow> 'b" where
  "final b [] = b"
| "final b ((now, n) # ps) = final (snd (lim_poll b now n)) ps"

fun in_order :: "nat \<Rightarrow> (u64 \<times> u64) list \<Rightarrow> bool" where
  "in_order t [] = True"
| "in_order t ((now, n) # ps) = (t \<le> unat now \<and> 8 * unat n < 2 ^ 64 \<and> in_order (unat now) ps)"

lemma clock_final: "limited b \<Longrightarrow> in_order (clock b) ps \<Longrightarrow> clock b \<le> clock (final b ps)"
  by (induction b ps rule: final.induct) (auto simp: sets_clock keeps_limit)

lemma conformance:
  assumes "limited b" "in_order (clock b) ps"
  shows "passed b ps * 1000000000 + budget (final b ps) \<le> budget b + rate b * (clock (final b ps) - clock b)"
  using assms
proof (induction b ps rule: final.induct)
  case (1 b)
  then show ?case by simp
next
  case (2 b now n ps)
  let ?b = "snd (lim_poll b now n)"
  have lim: "limited ?b" "rate ?b = rate b" "clock ?b = unat now"
    using 2(2) by (simp_all add: keeps_limit sets_clock)
  have le: "clock b \<le> unat now" "unat now \<le> clock (final ?b ps)"
    using 2(3) clock_final[OF lim(1), of ps] lim(3) by auto
  have step: "(if fst (lim_poll b now n) then 8 * unat n * 1000000000 else 0) + budget ?b
      \<le> budget b + rate b * (unat now - clock b)"
    using 2(2,3) by (intro spends) auto
  have rest: "passed ?b ps * 1000000000 + budget (final ?b ps) \<le> budget ?b + rate b * (clock (final ?b ps) - unat now)"
    using 2(1)[OF lim(1)] 2(3) lim by simp
  have "rate b * (unat now - clock b) + rate b * (clock (final ?b ps) - unat now)
      = rate b * (clock (final ?b ps) - clock b)"
    using le by (simp flip: distrib_left)
  with step rest show ?case by (auto split: if_splits)
qed

end

subsection \<open>The bucket of the sources\<close>

lemma unat_refill_le: "unat (refill_bits r e) * 1000000000 \<le> unat r * unat e"
proof -
  have "unat (refill_bits r e) \<le> unat r * unat e div 1000000000"
    by (simp add: refill_bits_def unat_of_nat)
  then have "unat (refill_bits r e) * 1000000000 \<le> (unat r * unat e div 1000000000) * 1000000000"
    by simp
  also have "\<dots> \<le> unat r * unat e" by (rule div_times_less_eq_dividend)
  finally show ?thesis .
qed

lemma unat_need: "8 * unat n < 2 ^ 64 \<Longrightarrow> unat (saturating_mul n 8 :: u64) = 8 * unat n"
  by (simp add: unat_saturating_mul)

text \<open>The level a poll has to spend: what was there plus what the elapsed time earned, no more
  than the burst.\<close>

definition refilled :: "token_bucket \<Rightarrow> u64 \<Rightarrow> u64" where
  "refilled b now = min (saturating_add (level_bits b)
     (refill_bits (rate_bps b) (saturating_sub now (last_nanos b)))) (burst_bits b)"

lemma poll_limited:
  "rate_bps b \<noteq> 0 \<Longrightarrow> poll b now n =
    (saturating_mul n 8 \<le> refilled b now,
     b\<lparr>last_nanos := now, level_bits :=
        (if saturating_mul n 8 \<le> refilled b now then refilled b now - saturating_mul n 8 else refilled b now)\<rparr>)"
  by (simp add: poll_def refilled_def Let_def)

lemma poll_unlimited [simp]: "rate_bps b = 0 \<Longrightarrow> poll b now n = (True, b)"
  by (simp add: poll_def)

lemma refilled_le:
  "unat (refilled b now) * 1000000000
    \<le> unat (level_bits b) * 1000000000 + unat (rate_bps b) * (unat now - unat (last_nanos b))"
proof -
  have "unat (refilled b now) \<le> unat (level_bits b) + unat (refill_bits (rate_bps b) (saturating_sub now (last_nanos b)))"
    by (simp add: refilled_def min_def word_le_nat_alt unat_saturating_add)
  moreover have "unat (refill_bits (rate_bps b) (saturating_sub now (last_nanos b))) * 1000000000
      \<le> unat (rate_bps b) * (unat now - unat (last_nanos b))"
    using unat_refill_le[of "rate_bps b" "saturating_sub now (last_nanos b)"] by (simp add: unat_saturating_sub)
  ultimately show ?thesis by linarith
qed

interpretation bucket: rate_limiter poll "\<lambda>b. unat (level_bits b) * 1000000000"
  "\<lambda>b. unat (rate_bps b)" "\<lambda>b. unat (last_nanos b)" "\<lambda>b. rate_bps b \<noteq> 0"
proof unfold_locales
  fix b :: token_bucket and now n :: u64
  assume lim: "rate_bps b \<noteq> 0" and n: "8 * unat n < 2 ^ 64"
  show "(if fst (poll b now n) then 8 * unat n * 1000000000 else 0)
      + unat (level_bits (snd (poll b now n))) * 1000000000
      \<le> unat (level_bits b) * 1000000000 + unat (rate_bps b) * (unat now - unat (last_nanos b))"
    using refilled_le[of b now] unat_need[OF n] lim
    by (simp add: poll_limited word_le_nat_alt unat_sub diff_mult_distrib)
qed (simp_all add: poll_limited)

lemma poll_wf [inv_intros]: "bucket_wf b \<Longrightarrow> bucket_wf (snd (poll b now n))"
proof (cases "rate_bps b = 0")
  case False
  assume wf: "bucket_wf b"
  have "refilled b now \<le> burst_bits b" by (simp add: refilled_def)
  then have "refilled b now - saturating_mul n 8 \<le> burst_bits b" if "saturating_mul n 8 \<le> refilled b now"
    using that by (metis order_trans word_sub_le)
  then show ?thesis using wf False \<open>refilled b now \<le> burst_bits b\<close>
    by (simp add: bucket_wf_def poll_limited)
qed simp

lemma bucket_new_wf [inv_intros]: "bucket_wf (bucket_new r now)"
  by (simp add: bucket_wf_def bucket_new_def Let_def)

lemma set_rate_wf [inv_intros]: "bucket_wf (set_rate b r now)"
  by (simp add: bucket_wf_def set_rate_def bucket_new_def Let_def)

subsection \<open>Properties\<close>

fun bucket_passed :: "token_bucket \<Rightarrow> (u64 \<times> u64) list \<Rightarrow> nat" where
  "bucket_passed b [] = 0"
| "bucket_passed b ((now, n) # ps) =
    (if fst (poll b now n) then 8 * unat n else 0) + bucket_passed (snd (poll b now n)) ps"

lemma bucket_passed_eq: "bucket_passed b ps = bucket.passed b ps"
  by (induction b ps rule: bucket_passed.induct) simp_all

fun bucket_final :: "token_bucket \<Rightarrow> (u64 \<times> u64) list \<Rightarrow> token_bucket" where
  "bucket_final b [] = b"
| "bucket_final b ((now, n) # ps) = bucket_final (snd (poll b now n)) ps"

lemma bucket_final_eq: "bucket_final b ps = bucket.final b ps"
  by (induction b ps rule: bucket_final.induct) simp_all

fun polls_in_order :: "nat \<Rightarrow> (u64 \<times> u64) list \<Rightarrow> bool" where
  "polls_in_order t [] = True"
| "polls_in_order t ((now, n) # ps) = (t \<le> unat now \<and> 8 * unat n < 2 ^ 64 \<and> polls_in_order (unat now) ps)"

lemma polls_in_order_eq: "polls_in_order t ps = bucket.in_order t ps"
  by (induction t ps rule: polls_in_order.induct) simp_all

lemma bucket_final_rate: "rate_bps b \<noteq> 0 \<Longrightarrow> rate_bps (bucket_final b ps) = rate_bps b"
  by (induction b ps rule: bucket_final.induct) (simp_all add: poll_limited)

lemma bucket_final_wf: "bucket_wf b \<Longrightarrow> bucket_wf (bucket_final b ps)"
  by (induction b ps rule: bucket_final.induct) (simp_all add: poll_wf)

text \<open>C9: policing conforms. From any bucket state, for any sequence of polls in clock order, the
  bits let through are at most the level at the start plus the rate times the time that
  passed; the level stays within the burst throughout.\<close>

theorem policing_conforms:
  assumes "bucket_wf b" "rate_bps b \<noteq> 0" "polls_in_order (unat (last_nanos b)) ps"
  shows "bucket_passed b ps * 1000000000
      \<le> unat (level_bits b) * 1000000000
        + unat (rate_bps b) * (unat (last_nanos (bucket_final b ps)) - unat (last_nanos b))
    \<and> level_bits (bucket_final b ps) \<le> burst_bits (bucket_final b ps)"
proof
  show "bucket_passed b ps * 1000000000 \<le> unat (level_bits b) * 1000000000
      + unat (rate_bps b) * (unat (last_nanos (bucket_final b ps)) - unat (last_nanos b))"
    using bucket.conformance[OF assms(2), of ps] assms(3)
    by (simp add: bucket_passed_eq bucket_final_eq polls_in_order_eq)
  show "level_bits (bucket_final b ps) \<le> burst_bits (bucket_final b ps)"
    using bucket_final_wf[OF assms(1), of ps] unfolding bucket_wf_def by (rule conjunct1)
qed

theorem policing_conforms_witness:
  "bucket_passed (bucket_new 8000 0) [(0, 4000), (1000000, 96), (2000000000, 100)] * 1000000000
     \<le> 32768 * 1000000000 + 8000 * 2000000000"
  using policing_conforms[of "bucket_new 8000 0" "[(0, 4000), (1000000, 96), (2000000000, 100)]"]
  by (simp add: bucket_new_wf bucket_new_def bucket_wf_def MIN_BURST_BITS_def poll_def Let_def
      saturating_sub_def saturating_add_def saturating_mul_def refill_bits_def)

text \<open>Polls whose gaps are each too short to earn a whole bit, for packets that need more than
  the level.\<close>

fun too_frequent :: "u64 \<Rightarrow> u64 \<Rightarrow> u64 \<Rightarrow> (u64 \<times> u64) list \<Rightarrow> bool" where
  "too_frequent r level t [] = True"
| "too_frequent r level t ((now, n) # ps) =
    (unat r * (unat now - unat t) < 1000000000 \<and> level < saturating_mul n 8 \<and> too_frequent r level now ps)"

lemma refilled_too_soon:
  assumes "unat (rate_bps b) * (unat now - unat (last_nanos b)) < 1000000000" "level_bits b \<le> burst_bits b"
  shows "refilled b now = level_bits b"
proof -
  have "refill_bits (rate_bps b) (saturating_sub now (last_nanos b)) = 0"
    using assms(1) by (simp add: refill_bits_def unat_saturating_sub)
  moreover have "saturating_add (level_bits b) 0 = level_bits b"
    using unsigned_less[of "level_bits b", where ?'a = nat] by (simp add: saturating_add_def)
  ultimately show ?thesis using assms(2) by (simp add: refilled_def)
qed

text \<open>C40: a short bucket under frequent traffic never refills. Each poll discards the fraction of a
  bit its gap has earned and still advances the clock, so when every gap earns less than one
  bit no packet larger than the level passes, however long the traffic lasts.\<close>

theorem frequent_polls_starve:
  assumes "bucket_wf b" "rate_bps b \<noteq> 0" "too_frequent (rate_bps b) (level_bits b) (last_nanos b) ps"
  shows "bucket_passed b ps = 0 \<and> level_bits (bucket_final b ps) = level_bits b"
  using assms
proof (induction b ps rule: bucket_final.induct)
  case (1 b)
  then show ?case by simp
next
  case (2 b now n ps)
  have "refilled b now = level_bits b"
    using 2 by (intro refilled_too_soon) (auto simp: bucket_wf_def)
  then have p: "poll b now n = (False, b\<lparr>last_nanos := now\<rparr>)"
    using 2(3,4) by (auto simp: poll_limited)
  have "bucket_wf (b\<lparr>last_nanos := now\<rparr>)" using 2(2) by (auto simp: bucket_wf_def)
  then show ?case using 2(1) 2(3,4) by (simp add: p)
qed

theorem frequent_polls_starve_witness:
  "bucket_passed (bucket_new 8000 0\<lparr>level_bits := 0\<rparr>) [(100000, 1), (200000, 1), (300000, 1)] = 0"
  using frequent_polls_starve[of "bucket_new 8000 0\<lparr>level_bits := 0\<rparr>" "[(100000, 1), (200000, 1), (300000, 1)]"]
  by (simp add: bucket_new_def bucket_wf_def MIN_BURST_BITS_def Let_def saturating_mul_def)

end
