(* ===== verification/Pfcp_Session.thy ===== *)
theory Pfcp_Session
  imports Pfcp_Classifier Pfcp_TokenBucket
begin

section \<open>PFCP: one session at the UPF\<close>

text \<open>
  \<open>Session\<close> and \<open>FlowEnforcer\<close> of \<open>crates/pfcp/src/lib.rs\<close> with \<open>Session::admit\<close> and
  \<open>Session::downlink_qfi\<close>, and the usage reports computed from the counters. \<open>admit\<close> is one
  definition, split the way its body is: classification, gate, policing by the matched
  bucket, accounting. Counters saturate as in the sources, subtraction of watermarks wraps,
  and the session invariant is what makes that subtraction exact.
\<close>

subsection \<open>State\<close>

record flow_enforcer =
  fe_qfi :: u8
  fe_filter :: flow_filter
  fe_gate :: gate
  fe_ul_bucket :: token_bucket
  fe_dl_bucket :: token_bucket
  fe_ul_bytes :: u64
  fe_dl_bytes :: u64
  fe_ul_pkts :: u64
  fe_dl_pkts :: u64

record session =
  n3_teid :: u32
  cp_seid :: u64
  peer_ip :: "ip_addr option"
  ue_ip :: "u32 option"
  ue_ipv6 :: "128 word option"
  downlink :: "(u32 \<times> u32) option"
  uplink :: egress
  branches :: "(u16 \<times> flow_filter \<times> egress) list"
  dl_ingress_teid :: "u32 option"
  ambr :: "session_ambr option"
  ul_bucket :: "token_bucket option"
  dl_bucket :: "token_bucket option"
  flow_qers :: "flow_enforcer list"
  ul_bytes :: u64
  dl_bytes :: u64
  ul_pkts :: u64
  dl_pkts :: u64
  usage_threshold :: "u64 option"
  reported_ul :: u64
  reported_dl :: u64
  reported_ul_pkts :: u64
  reported_dl_pkts :: u64
  report_due :: bool
  buffering :: bool
  dl_buffer :: "bytes list"
  dl_data_report_due :: bool

definition DL_BUFFER_CAP :: nat where
  "DL_BUFFER_CAP = 64"

definition DEFAULT_QFI :: u8 where
  "DEFAULT_QFI = 1"

definition SESSION_URR_ID :: u32 where
  "SESSION_URR_ID = 1"

definition PER_FLOW_URR_BASE :: u32 where
  "PER_FLOW_URR_BASE = 2000"

record usage_volume =
  urr_id :: u32
  total :: u64
  uv_uplink :: u64
  uv_downlink :: u64
  total_pkts :: u64
  uplink_pkts :: u64
  downlink_pkts :: u64

subsection \<open>Admission\<close>

definition classify :: "flow_enforcer list \<Rightarrow> bytes \<Rightarrow> nat option" where
  "classify fs pkt = (case packet_key_of pkt of
     None \<Rightarrow> None
   | Some key \<Rightarrow> position (\<lambda>f. filter_matches (fe_filter f) key) fs)"

definition gate_open :: "bool \<Rightarrow> gate \<Rightarrow> bool" where
  "gate_open up g = (if up then gt_uplink g else gt_downlink g)"

text \<open>The accounting of one admitted packet, on the flow's counters or on the session's.\<close>

definition count_flow :: "bool \<Rightarrow> nat \<Rightarrow> flow_enforcer \<Rightarrow> flow_enforcer" where
  "count_flow up n f =
    (if up then f\<lparr>fe_ul_bytes := saturating_add (fe_ul_bytes f) (of_nat n), fe_ul_pkts := saturating_add (fe_ul_pkts f) 1\<rparr>
     else f\<lparr>fe_dl_bytes := saturating_add (fe_dl_bytes f) (of_nat n), fe_dl_pkts := saturating_add (fe_dl_pkts f) 1\<rparr>)"

definition count_session :: "bool \<Rightarrow> nat \<Rightarrow> session \<Rightarrow> session" where
  "count_session up n s =
    (let s' = (if up then s\<lparr>ul_bytes := saturating_add (ul_bytes s) (of_nat n), ul_pkts := saturating_add (ul_pkts s) 1\<rparr>
               else s\<lparr>dl_bytes := saturating_add (dl_bytes s) (of_nat n), dl_pkts := saturating_add (dl_pkts s) 1\<rparr>)
     in case usage_threshold s' of
          None \<Rightarrow> s'
        | Some th \<Rightarrow>
            (let unreported = (ul_bytes s' - reported_ul s') + (dl_bytes s' - reported_dl s')
             in if th \<le> unreported then s'\<lparr>report_due := True\<rparr> else s'))"

definition poll_flow :: "bool \<Rightarrow> u64 \<Rightarrow> nat \<Rightarrow> flow_enforcer \<Rightarrow> bool \<times> flow_enforcer" where
  "poll_flow up now n f =
    (if up then (case poll (fe_ul_bucket f) now (of_nat n) of (ok, b) \<Rightarrow> (ok, f\<lparr>fe_ul_bucket := b\<rparr>))
     else (case poll (fe_dl_bucket f) now (of_nat n) of (ok, b) \<Rightarrow> (ok, f\<lparr>fe_dl_bucket := b\<rparr>)))"

definition poll_option :: "token_bucket option \<Rightarrow> u64 \<Rightarrow> nat \<Rightarrow> bool \<times> token_bucket option" where
  "poll_option ob now n = (case ob of
     None \<Rightarrow> (True, None)
   | Some b \<Rightarrow> (case poll b now (of_nat n) of (ok, b') \<Rightarrow> (ok, Some b')))"

definition poll_session :: "bool \<Rightarrow> u64 \<Rightarrow> nat \<Rightarrow> session \<Rightarrow> bool \<times> session" where
  "poll_session up now n s =
    (if up then (case poll_option (ul_bucket s) now n of (ok, b) \<Rightarrow> (ok, s\<lparr>ul_bucket := b\<rparr>))
     else (case poll_option (dl_bucket s) now n of (ok, b) \<Rightarrow> (ok, s\<lparr>dl_bucket := b\<rparr>)))"

definition admit :: "session \<Rightarrow> bool \<Rightarrow> u64 \<Rightarrow> bytes \<Rightarrow> bool \<times> session" where
  "admit s up now pkt = (case classify (flow_qers s) pkt of
     Some i \<Rightarrow>
       (if \<not> gate_open up (fe_gate (flow_qers s ! i)) then (False, s)
        else (case poll_flow up now (length pkt) (flow_qers s ! i) of (admitted, f) \<Rightarrow>
          (admitted, s\<lparr>flow_qers := (flow_qers s)[i := if admitted then count_flow up (length pkt) f else f]\<rparr>)))
   | None \<Rightarrow>
       (case poll_session up now (length pkt) s of (admitted, s') \<Rightarrow>
          (admitted, if admitted then count_session up (length pkt) s' else s')))"

definition downlink_qfi :: "session \<Rightarrow> bytes \<Rightarrow> u8" where
  "downlink_qfi s pkt = (case packet_key_of pkt of
     None \<Rightarrow> DEFAULT_QFI
   | Some key \<Rightarrow> (case find (\<lambda>f. filter_matches (fe_filter f) key) (flow_qers s) of
       None \<Rightarrow> DEFAULT_QFI
     | Some f \<Rightarrow> fe_qfi f))"

subsection \<open>Usage reports\<close>

definition volume :: "u32 \<Rightarrow> u64 \<Rightarrow> u64 \<Rightarrow> u64 \<Rightarrow> u64 \<Rightarrow> usage_volume" where
  "volume i ul dl ulp dlp = \<lparr>urr_id = i, total = ul + dl, uv_uplink = ul, uv_downlink = dl,
     total_pkts = ulp + dlp, uplink_pkts = ulp, downlink_pkts = dlp\<rparr>"

text \<open>The volume not yet covered by a threshold report, and that of one flow.\<close>

definition unreported_volume :: "session \<Rightarrow> usage_volume" where
  "unreported_volume s = volume SESSION_URR_ID (ul_bytes s - reported_ul s) (dl_bytes s - reported_dl s)
     (ul_pkts s - reported_ul_pkts s) (dl_pkts s - reported_dl_pkts s)"

definition flow_volume :: "flow_enforcer \<Rightarrow> usage_volume" where
  "flow_volume f = volume (PER_FLOW_URR_BASE + ucast (fe_qfi f)) (fe_ul_bytes f) (fe_dl_bytes f) (fe_ul_pkts f) (fe_dl_pkts f)"

definition final_usage :: "session \<Rightarrow> usage_volume list" where
  "final_usage s = unreported_volume s # map flow_volume (flow_qers s)"

definition session_urr_usage :: "session \<Rightarrow> u32 \<Rightarrow> usage_volume option" where
  "session_urr_usage s i =
    (if i = SESSION_URR_ID then Some (volume i (ul_bytes s) (dl_bytes s) (ul_pkts s) (dl_pkts s))
     else if i < PER_FLOW_URR_BASE \<or> 255 < i - PER_FLOW_URR_BASE then None
     else map_option (\<lambda>f. volume i (fe_ul_bytes f) (fe_dl_bytes f) (fe_ul_pkts f) (fe_dl_pkts f))
            (find (\<lambda>f. fe_qfi f = ucast (i - PER_FLOW_URR_BASE)) (flow_qers s)))"

text \<open>The body of \<open>take_due_report\<close> on the session it found.\<close>

definition mark_reported :: "session \<Rightarrow> session" where
  "mark_reported s = s\<lparr>report_due := False, reported_ul := ul_bytes s, reported_dl := dl_bytes s,
     reported_ul_pkts := ul_pkts s, reported_dl_pkts := dl_pkts s\<rparr>"

subsection \<open>Invariant\<close>

definition flow_wf :: "flow_enforcer \<Rightarrow> bool" where
  "flow_wf f = (bucket_wf (fe_ul_bucket f) \<and> bucket_wf (fe_dl_bucket f))"

definition session_wf :: "session \<Rightarrow> bool" where
  "session_wf s =
    (reported_ul s \<le> ul_bytes s \<and> reported_dl s \<le> dl_bytes s
     \<and> reported_ul_pkts s \<le> ul_pkts s \<and> reported_dl_pkts s \<le> dl_pkts s
     \<and> length (dl_buffer s) \<le> DL_BUFFER_CAP
     \<and> pred_option bucket_wf (ul_bucket s) \<and> pred_option bucket_wf (dl_bucket s)
     \<and> list_all flow_wf (flow_qers s))"

lemma poll_bucket_wf: "poll b now n = (ok, b') \<Longrightarrow> bucket_wf b \<Longrightarrow> bucket_wf b'"
  using poll_wf[of b now n] by simp

lemma poll_flow_wf: "poll_flow up now n f = (ok, f') \<Longrightarrow> flow_wf f \<Longrightarrow> flow_wf f'"
  by (auto simp: poll_flow_def flow_wf_def poll_bucket_wf split: if_splits prod.splits)

lemma poll_option_wf: "poll_option ob now n = (ok, ob') \<Longrightarrow> pred_option bucket_wf ob \<Longrightarrow> pred_option bucket_wf ob'"
  by (auto simp: poll_option_def poll_bucket_wf split: option.splits prod.splits)

lemma poll_session_wf: "poll_session up now n s = (ok, s') \<Longrightarrow> session_wf s \<Longrightarrow> session_wf s'"
  by (auto simp: poll_session_def session_wf_def poll_option_wf split: if_splits prod.splits)

lemma count_flow_wf [simp]: "flow_wf (count_flow up n f) = flow_wf f"
  by (simp add: count_flow_def flow_wf_def)

lemma count_session_wf: "session_wf s \<Longrightarrow> session_wf (count_session up n s)"
  by (auto simp: count_session_def session_wf_def Let_def saturating_add_ge
      intro: order_trans[OF _ saturating_add_ge] split: option.splits)

lemma classify_Some: "classify fs pkt = Some i \<Longrightarrow> i < length fs"
  by (auto simp: classify_def dest: position_Some split: option.splits)

lemma admit_wf [inv_intros]: "session_wf s \<Longrightarrow> session_wf (snd (admit s up now pkt))"
proof (cases "classify (flow_qers s) pkt")
  case None
  assume "session_wf s"
  with None show ?thesis
    using poll_session_wf[of up now "length pkt" s] count_session_wf
    by (cases "poll_session up now (length pkt) s") (auto simp: admit_def)
next
  case (Some i)
  assume wf: "session_wf s"
  obtain ok f where p: "poll_flow up now (length pkt) (flow_qers s ! i) = (ok, f)" by fastforce
  have "flow_wf (flow_qers s ! i)"
    using wf classify_Some[OF Some] by (simp add: session_wf_def list_all_length)
  then have "flow_wf f" using p poll_flow_wf by blast
  with wf have "list_all flow_wf ((flow_qers s)[i := if ok then count_flow up (length pkt) f else f])"
    by (auto simp: session_wf_def list_all_iff dest!: set_update_subset_insert[THEN subsetD])
  with wf Some p show ?thesis by (simp add: admit_def session_wf_def)
qed

lemma mark_reported_wf [inv_intros]: "session_wf s \<Longrightarrow> session_wf (mark_reported s)"
  by (simp add: session_wf_def mark_reported_def)

subsection \<open>Every admitted packet is counted once\<close>

definition flow_bytes :: "bool \<Rightarrow> flow_enforcer \<Rightarrow> nat" where
  "flow_bytes up f = unat (if up then fe_ul_bytes f else fe_dl_bytes f)"

definition session_bytes :: "bool \<Rightarrow> session \<Rightarrow> nat" where
  "session_bytes up s = unat (if up then ul_bytes s else dl_bytes s)"

text \<open>All volume counters of one direction together.\<close>

definition measured :: "bool \<Rightarrow> session \<Rightarrow> nat" where
  "measured up s = session_bytes up s + sum_list (map (flow_bytes up) (flow_qers s))"

lemma flow_bytes_poll [simp]: "poll_flow up now n f = (ok, f') \<Longrightarrow> flow_bytes d f' = flow_bytes d f"
  by (auto simp: poll_flow_def flow_bytes_def split: if_splits prod.splits)

lemma unat_saturating_add_exact:
  "unat (a :: u64) + n < 2 ^ 64 \<Longrightarrow> unat (saturating_add a (of_nat n)) = unat a + n"
  by (simp add: unat_saturating_add unat_of_nat)

lemma flow_bytes_count:
  "flow_bytes up f + n < 2 ^ 64 \<Longrightarrow> flow_bytes d (count_flow up n f) = flow_bytes d f + (if d = up then n else 0)"
  by (cases up; cases d) (auto simp: flow_bytes_def count_flow_def unat_saturating_add_exact)

lemma session_bytes_count:
  "session_bytes up s + n < 2 ^ 64 \<Longrightarrow>
    session_bytes d (count_session up n s) = session_bytes d s + (if d = up then n else 0)"
  by (cases up; cases d)
    (auto simp: session_bytes_def count_session_def Let_def unat_saturating_add_exact split: option.splits)

lemma count_session_flows [simp]: "flow_qers (count_session up n s) = flow_qers s"
  by (simp add: count_session_def Let_def split: option.splits)

lemma poll_session_frame:
  "poll_session up now n s = (ok, s') \<Longrightarrow> session_bytes d s' = session_bytes d s \<and> flow_qers s' = flow_qers s"
  by (auto simp: poll_session_def session_bytes_def split: if_splits prod.splits)

lemma sum_list_update_nat:
  "i < length xs \<Longrightarrow> sum_list (map g (xs[i := y])) + g (xs ! i) = sum_list (map g xs) + (g y :: nat)"
  by (induction xs arbitrary: i) (auto split: nat.splits)

lemma measured_admit:
  assumes "admit s up now pkt = (ok, s')" "measured up s + length pkt < 2 ^ 64"
  shows "measured d s' = measured d s + (if ok \<and> d = up then length pkt else 0)"
proof (cases "classify (flow_qers s) pkt")
  case None
  obtain a s1 where p: "poll_session up now (length pkt) s = (a, s1)" by fastforce
  have "session_bytes up s + length pkt < 2 ^ 64" using assms(2) by (simp add: measured_def)
  with assms(1) None p show ?thesis
    using poll_session_frame[OF p] session_bytes_count[of up s1 "length pkt" d]
    by (auto simp: admit_def measured_def split: if_splits)
next
  case (Some i)
  note i = classify_Some[OF Some]
  obtain a f where p: "poll_flow up now (length pkt) (flow_qers s ! i) = (a, f)" by fastforce
  have "flow_bytes up (flow_qers s ! i) \<le> sum_list (map (flow_bytes up) (flow_qers s))"
    using i by (intro member_le_sum_list) auto
  then have f: "flow_bytes up f + length pkt < 2 ^ 64"
    using assms(2) p by (simp add: measured_def)
  have upd: "sum_list (map (flow_bytes d) ((flow_qers s)[i := g])) = sum_list (map (flow_bytes d) (flow_qers s)) + k"
    if "flow_bytes d g = flow_bytes d (flow_qers s ! i) + k" for g k
    using sum_list_update_nat[OF i, of "flow_bytes d" g] that by simp
  show ?thesis
  proof (cases "gate_open up (fe_gate (flow_qers s ! i))")
    case False
    with assms(1) Some show ?thesis by (auto simp: admit_def)
  next
    case True
    with assms(1) Some p have s': "ok = a"
      "s' = s\<lparr>flow_qers := (flow_qers s)[i := if a then count_flow up (length pkt) f else f]\<rparr>"
      by (auto simp: admit_def)
    have b: "session_bytes d s' = session_bytes d s" by (simp add: s' session_bytes_def)
    show ?thesis
    proof (cases a)
      case True
      have "flow_bytes d (count_flow up (length pkt) f)
          = flow_bytes d (flow_qers s ! i) + (if d = up then length pkt else 0)"
        using flow_bytes_count[OF f, of d] p by simp
      from upd[OF this] show ?thesis using True b by (simp add: s' measured_def)
    next
      case False
      have "flow_bytes d f = flow_bytes d (flow_qers s ! i) + 0" using p by simp
      from upd[OF this] show ?thesis using False b by (simp add: s' measured_def)
    qed
  qed
qed

text \<open>Admission. A packet of a flow whose gate is closed in its direction is dropped and leaves
  the session as it was, counters and policers included; any other packet raises the volume
  measured in its direction, over all usage rules together, by its length if it is admitted and
  by nothing if it is not, and never the volume of the other direction.\<close>

theorem admit_counts_once:
  assumes "measured up s + length pkt < 2 ^ 64"
  shows "(case classify (flow_qers s) pkt of
       Some i \<Rightarrow> \<not> gate_open up (fe_gate (flow_qers s ! i)) \<longrightarrow> admit s up now pkt = (False, s)
     | None \<Rightarrow> flow_qers (snd (admit s up now pkt)) = flow_qers s)
    \<and> measured up (snd (admit s up now pkt))
        = measured up s + (if fst (admit s up now pkt) then length pkt else 0)
    \<and> measured (\<not> up) (snd (admit s up now pkt)) = measured (\<not> up) s"
proof -
  obtain ok s' where a: "admit s up now pkt = (ok, s')" by fastforce
  have "flow_qers s' = flow_qers s" if "classify (flow_qers s) pkt = None"
  proof -
    obtain q s1 where p: "poll_session up now (length pkt) s = (q, s1)" by fastforce
    then show ?thesis using a that poll_session_frame[OF p] by (auto simp: admit_def split: if_splits)
  qed
  moreover have "admit s up now pkt = (False, s)"
    if "classify (flow_qers s) pkt = Some i" "\<not> gate_open up (fe_gate (flow_qers s ! i))" for i
    using that by (simp add: admit_def)
  ultimately show ?thesis
    using measured_admit[OF a assms] a by (auto split: option.splits)
qed

subsection \<open>The sum of all usage reports is the true volume\<close>

text \<open>The life of a session as the datapath and the reporting task drive it: packets are offered
  for admission, threshold reports are taken. \<open>session_run\<close> returns the admitted volume of a
  direction, the reports taken, and the session at the end.\<close>

datatype session_event = Offer bool u64 bytes | TakeReport

fun session_run :: "session \<Rightarrow> session_event list \<Rightarrow> (bool \<Rightarrow> nat) \<times> usage_volume list \<times> session" where
  "session_run s [] = (\<lambda>_. 0, [], s)"
| "session_run s (Offer up now pkt # es) =
    (case admit s up now pkt of (ok, s') \<Rightarrow> (case session_run s' es of (v, rs, s'') \<Rightarrow>
       (\<lambda>d. v d + (if ok \<and> d = up then length pkt else 0), rs, s'')))"
| "session_run s (TakeReport # es) =
    (case session_run (mark_reported s) es of (v, rs, s'') \<Rightarrow> (v, unreported_volume s # rs, s''))"

fun offered :: "session_event list \<Rightarrow> nat" where
  "offered [] = 0"
| "offered (Offer up now pkt # es) = length pkt + offered es"
| "offered (TakeReport # es) = offered es"

definition direction_volume :: "bool \<Rightarrow> usage_volume \<Rightarrow> nat" where
  "direction_volume up u = unat (if up then uv_uplink u else uv_downlink u)"

definition reported :: "bool \<Rightarrow> session \<Rightarrow> nat" where
  "reported up s = unat (if up then reported_ul s else reported_dl s)"

lemma admit_reported:
  "admit s up now pkt = (ok, s') \<Longrightarrow> reported d s' = reported d s"
  by (auto simp: admit_def reported_def poll_session_def count_session_def Let_def
      split: option.splits if_splits prod.splits)

lemma unreported_direction:
  "session_wf s \<Longrightarrow> direction_volume d (unreported_volume s) + reported d s = session_bytes d s"
  by (cases d) (auto simp: session_wf_def direction_volume_def unreported_volume_def volume_def reported_def
      session_bytes_def unat_sub word_le_nat_alt)

lemma mark_reported_simps [simp]:
  "reported d (mark_reported s) = session_bytes d s" "measured d (mark_reported s) = measured d s"
  "session_bytes d (mark_reported s) = session_bytes d s"
  by (simp_all add: mark_reported_def reported_def session_bytes_def measured_def)

lemma final_usage_sum:
  "session_wf s \<Longrightarrow> sum_list (map (direction_volume d) (final_usage s)) + reported d s = measured d s"
proof -
  have "direction_volume d (flow_volume f) = flow_bytes d f" for f
    by (simp add: direction_volume_def flow_volume_def volume_def flow_bytes_def)
  then show "session_wf s \<Longrightarrow> ?thesis"
    using unreported_direction[of s d] by (simp add: final_usage_def measured_def comp_def)
qed

lemma session_run_measured:
  assumes "session_run s es = (v, rs, s')" "session_wf s" "\<forall>d. measured d s + offered es < 2 ^ 64"
  shows "measured d s' = measured d s + v d \<and> session_wf s'
    \<and> sum_list (map (direction_volume d) rs) + reported d s = reported d s'"
  using assms
proof (induction s es arbitrary: v rs s' rule: session_run.induct)
  case (1 s)
  then show ?case by auto
next
  case (2 s up now pkt es)
  obtain ok s1 where a: "admit s up now pkt = (ok, s1)" by fastforce
  obtain v1 rs1 where r: "session_run s1 es = (v1, rs1, s')" using 2(2) a by (auto split: prod.splits)
  have m: "measured d s1 = measured d s + (if ok \<and> d = up then length pkt else 0)" for d
    using 2(4)[rule_format, of up] by (intro measured_admit[OF a]) simp
  have "\<forall>d. measured d s1 + offered es < 2 ^ 64"
  proof
    fix d
    have "measured d s1 + offered es \<le> measured d s + offered (Offer up now pkt # es)" by (simp add: m)
    also have "\<dots> < 2 ^ 64" using 2(4) by blast
    finally show "measured d s1 + offered es < 2 ^ 64" .
  qed
  moreover have "session_wf s1" using admit_wf[OF 2(3), of up now pkt] a by simp
  ultimately show ?case
    using 2(1)[OF a[symmetric] r] 2(2) a r m admit_reported[OF a] by (auto split: if_splits)
next
  case (3 s es)
  obtain v1 rs1 where r: "session_run (mark_reported s) es = (v1, rs1, s')" using 3(2) by (auto split: prod.splits)
  have "session_wf (mark_reported s)" "\<forall>d. measured d (mark_reported s) + offered es < 2 ^ 64"
    using 3(3,4) by (simp_all add: mark_reported_wf)
  from 3(1)[OF r this] show ?case
    using 3(2) r unreported_direction[OF 3(3), of d] by auto
qed

definition fresh_counters :: "session \<Rightarrow> bool" where
  "fresh_counters s = (session_wf s \<and> (\<forall>d. measured d s = 0 \<and> reported d s = 0))"

text \<open>C8: usage conservation. Starting from zero counters, for any interleaving of packets and
  threshold reports, the threshold reports together with the final report of the deletion sum
  up, in each direction, to exactly the volume that was admitted: nothing is charged twice and
  nothing is lost.\<close>

theorem reports_sum_to_admitted:
  assumes "fresh_counters s" "offered es < 2 ^ 64" "session_run s es = (v, rs, s')"
  shows "sum_list (map (direction_volume d) (rs @ final_usage s')) = v d"
proof -
  have "\<forall>d. measured d s + offered es < 2 ^ 64" "session_wf s"
    using assms(1,2) by (auto simp: fresh_counters_def)
  from session_run_measured[OF assms(3) this(2,1), of d] assms(1) show ?thesis
    using final_usage_sum[of s' d] by (auto simp: fresh_counters_def)
qed

text \<open>A session with one flow (UDP ports 5000 to 5010, uplink gate closed) and no AMBR, and a
  UDP packet of that flow.\<close>

definition demo_flow :: flow_enforcer where
  "demo_flow = \<lparr>fe_qfi = 5, fe_filter = transport 17 5000 5010, fe_gate = \<lparr>gt_uplink = False, gt_downlink = True\<rparr>,
     fe_ul_bucket = bucket_new 0 0, fe_dl_bucket = bucket_new 0 0,
     fe_ul_bytes = 0, fe_dl_bytes = 0, fe_ul_pkts = 0, fe_dl_pkts = 0\<rparr>"

definition demo_session :: session where
  "demo_session = \<lparr>n3_teid = 1, cp_seid = 7, peer_ip = None, ue_ip = Some 0x0A2D0002, ue_ipv6 = None,
     downlink = None, uplink = ToN6, branches = [], dl_ingress_teid = None, ambr = None,
     ul_bucket = None, dl_bucket = None, flow_qers = [demo_flow],
     ul_bytes = 0, dl_bytes = 0, ul_pkts = 0, dl_pkts = 0, usage_threshold = Some 20,
     reported_ul = 0, reported_dl = 0, reported_ul_pkts = 0, reported_dl_pkts = 0, report_due = False,
     buffering = False, dl_buffer = [], dl_data_report_due = False\<rparr>"

definition demo_udp :: bytes where
  "demo_udp = [0x45, 0, 0, 28, 0, 0, 0, 0, 64, 17, 0, 0, 8, 8, 8, 8, 10, 45, 0, 2, 0x13, 0x88, 0x13, 0x89, 0, 8, 0, 0]"

lemma demo_session_fresh: "fresh_counters demo_session"
  by (simp add: fresh_counters_def session_wf_def demo_session_def demo_flow_def flow_wf_def bucket_new_wf
      measured_def session_bytes_def flow_bytes_def reported_def DL_BUFFER_CAP_def)

lemma demo_udp_classified: "classify (flow_qers demo_session) demo_udp = Some 0"
  by (simp add: classify_def packet_key_of_def demo_udp_def demo_session_def demo_flow_def Let_def l4_ports_def
      transport_def filter_matches_def is_none_or_def from_be_def)

theorem admit_counts_once_witness:
  "admit demo_session True 5 demo_udp = (False, demo_session)
   \<and> measured False (snd (admit demo_session False 5 demo_udp)) = 28"
proof -
  have m: "measured d demo_session = 0" for d
    using demo_session_fresh by (simp add: fresh_counters_def)
  have l: "length demo_udp = 28" by (simp add: demo_udp_def)
  have "flow_qers demo_session = [demo_flow]" by (simp add: demo_session_def)
  moreover have "admit demo_session False 5 demo_udp
      = (True, demo_session\<lparr>flow_qers := [demo_flow\<lparr>fe_dl_bytes := 28, fe_dl_pkts := 1\<rparr>]\<rparr>)"
    using demo_udp_classified l
    by (simp add: admit_def gate_open_def demo_session_def demo_flow_def poll_flow_def count_flow_def
        bucket_new_def Let_def saturating_add_def)
  ultimately show ?thesis
    using admit_counts_once[of True demo_session demo_udp 5] admit_counts_once[of False demo_session demo_udp 5]
      demo_udp_classified m l
    by (simp add: gate_open_def demo_flow_def)
qed

theorem reports_sum_to_admitted_witness:
  "\<exists>v rs s'. session_run demo_session [Offer False 1 demo_udp, TakeReport, Offer True 2 (replicate 30 0), TakeReport] = (v, rs, s')
     \<and> length rs = 2 \<and> sum_list (map (direction_volume True) (rs @ final_usage s')) = v True"
proof -
  let ?es = "[Offer False 1 demo_udp, TakeReport, Offer True 2 (replicate 30 0), TakeReport]"
  obtain v rs s' where r: "session_run demo_session ?es = (v, rs, s')" by (metis prod_cases3)
  have "offered ?es < 2 ^ 64" by (simp add: demo_udp_def)
  from reports_sum_to_admitted[OF demo_session_fresh this r, of True] r show ?thesis
    by (auto split: prod.splits)
qed

end
