(* ===== verification/Keyed_Table.thy ===== *)
theory Keyed_Table
  imports Prelude
begin

section \<open>Keyed tables\<close>

text \<open>
  The interface of the hash maps of the sources (\<open>keyed_table\<close>), and a generic implementation: the
  list of the entries, each key once, in the iteration order of the map, which the sources leave
  arbitrary. Iterations go through the list, so every result that holds for all lists holds for
  every iteration order.
\<close>

locale keyed_table =
  fixes get :: "'t \<Rightarrow> 'k \<Rightarrow> 'v option" and upd :: "'k \<Rightarrow> ('v \<Rightarrow> 'v) \<Rightarrow> 't \<Rightarrow> 't"
    and put :: "'k \<Rightarrow> 'v \<Rightarrow> 't \<Rightarrow> 't" and del :: "'k \<Rightarrow> 't \<Rightarrow> 't"
  assumes get_upd: "get (upd k f t) k' = (if k = k' then map_option f (get t k) else get t k')"
    and get_put: "get (put k v t) k' = (if k = k' then Some v else get t k')"
    and get_del: "get (del k t) k' = (if k = k' then None else get t k')"
begin

text \<open>A table transformer that touches one key only.\<close>

definition only :: "'k \<Rightarrow> ('t \<Rightarrow> 't) \<Rightarrow> bool" where
  "only k g \<longleftrightarrow> (\<forall>t k'. k' \<noteq> k \<longrightarrow> get (g t) k' = get t k')"

lemma onlyD: "only k g \<Longrightarrow> k' \<noteq> k \<Longrightarrow> get (g t) k' = get t k'"
  by (simp add: only_def)

lemma only_upd: "only k (upd k f)" and only_put: "only k (put k v)" and only_del: "only k (del k)"
  by (simp_all add: only_def get_upd get_put get_del)

lemma only_id: "only k (\<lambda>t. t)"
  by (simp add: only_def)

lemma only_comp: "only k g \<Longrightarrow> only k h \<Longrightarrow> only k (\<lambda>t. h (g t))"
  by (simp add: only_def)

lemma only_foldl: "(\<And>x. only k (\<lambda>t. g t x)) \<Longrightarrow> only k (\<lambda>t. foldl g t xs)"
  by (induction xs) (simp_all add: only_def)

lemma upd_keeps_none: "get t k' = None \<Longrightarrow> get (upd k f t) k' = None"
  by (auto simp: get_upd)

end

type_synonym 'a hmap = "(string \<times> 'a) list"

definition hm_update :: "string \<Rightarrow> ('a \<Rightarrow> 'a) \<Rightarrow> 'a hmap \<Rightarrow> 'a hmap" where
  "hm_update k f m = map_first (\<lambda>e. fst e = k) (\<lambda>e. (fst e, f (snd e))) m"

definition hm_insert :: "string \<Rightarrow> 'a \<Rightarrow> 'a hmap \<Rightarrow> 'a hmap" where
  "hm_insert k v m = (if map_of m k = None then m @ [(k, v)] else hm_update k (\<lambda>_. v) m)"

definition hm_remove :: "string \<Rightarrow> 'a hmap \<Rightarrow> 'a hmap" where
  "hm_remove k m = filter (\<lambda>e. fst e \<noteq> k) m"

definition hm_wf :: "'a hmap \<Rightarrow> bool" where
  "hm_wf m = distinct (map fst m)"

lemma map_of_hm_update: "map_of (hm_update k f m) k' = (if k = k' then map_option f (map_of m k) else map_of m k')"
  by (induction m) (auto simp: hm_update_def)

interpretation hm: keyed_table map_of hm_update hm_insert hm_remove
proof unfold_locales
  fix k k' and v :: 'a and m :: "'a hmap"
  show "map_of (hm_insert k v m) k' = (if k = k' then Some v else map_of m k')"
    by (auto simp: hm_insert_def map_of_hm_update map_add_def split: option.splits)
  show "map_of (hm_remove k m) k' = (if k = k' then None else map_of m k')"
    by (induction m) (auto simp: hm_remove_def)
qed (rule map_of_hm_update)

lemma hm_keys_update [simp]: "map fst (hm_update k f m) = map fst m"
  unfolding hm_update_def by (rule map_map_first) simp

lemma hm_wf_empty [simp]: "hm_wf []"
  by (simp add: hm_wf_def)

lemma hm_wf_ops [simp]:
  "hm_wf m \<Longrightarrow> hm_wf (hm_update k f m)" "hm_wf m \<Longrightarrow> hm_wf (hm_insert k v m)" "hm_wf m \<Longrightarrow> hm_wf (hm_remove k m)"
  by (auto simp: hm_wf_def hm_insert_def hm_remove_def map_of_eq_None_iff distinct_map_filter)

end
