(* ===== verification/Pfcp_State.thy ===== *)
theory Pfcp_State
  imports Pfcp_Session Keyed_Table
begin

section \<open>PFCP: the UPF session table\<close>

text \<open>
  \<open>UpfState\<close> of \<open>crates/pfcp/src/lib.rs\<close>: the allocators, the session table, the queues the
  datapath drains, and every operation on them. The \<open>HashMap\<close> from UP-SEID to \<open>Session\<close> is an
  association list with distinct keys whose order stands for the iteration order of the map;
  lookups by TEID are shown not to depend on it. The locale \<open>keyed_table\<close> is the interface
  the N4 handler relies on (what a lookup returns after an update, an insertion, a removal).
\<close>

subsection \<open>The keyed table\<close>

type_synonym table = "(u64 \<times> session) list"

definition table_get :: "table \<Rightarrow> u64 \<Rightarrow> session option" where
  "table_get t k = map_of t k"

definition table_update :: "u64 \<Rightarrow> (session \<Rightarrow> session) \<Rightarrow> table \<Rightarrow> table" where
  "table_update k f t = map_first (\<lambda>e. fst e = k) (\<lambda>e. (fst e, f (snd e))) t"

definition table_insert :: "u64 \<Rightarrow> session \<Rightarrow> table \<Rightarrow> table" where
  "table_insert k s t = (if map_of t k = None then t @ [(k, s)] else table_update k (\<lambda>_. s) t)"

definition table_remove :: "u64 \<Rightarrow> table \<Rightarrow> table" where
  "table_remove k t = filter (\<lambda>e. fst e \<noteq> k) t"

lemma table_get_update:
  "table_get (table_update k f t) k' = (if k = k' then map_option f (table_get t k) else table_get t k')"
  by (induction t) (auto simp: table_get_def table_update_def)

lemma table_get_remove: "table_get (table_remove k t) k' = (if k = k' then None else table_get t k')"
  by (induction t) (auto simp: table_get_def table_remove_def)

interpretation tab: keyed_table table_get table_update table_insert table_remove
proof unfold_locales
  fix k k' s t
  show "table_get (table_insert k s t) k' = (if k = k' then Some s else table_get t k')"
    using table_get_update[of k "\<lambda>_. s" t k']
    by (auto simp: table_insert_def table_get_def map_add_def split: option.splits)
qed (simp_all add: table_get_update table_get_remove)

lemma keys_table_update [simp]: "map fst (table_update k f t) = map fst t"
  unfolding table_update_def by (rule map_map_first) simp

lemma length_table_update [simp]: "length (table_update k f t) = length t"
  by (simp add: table_update_def)

lemma table_update_none: "k \<notin> fst ` set t \<Longrightarrow> table_update k f t = t"
  unfolding table_update_def by (rule map_first_none) auto

subsection \<open>State\<close>

record upf_state =
  next_teid :: u32
  next_seid :: u64
  sessions :: table
  max_sessions :: nat
  pending_flush :: "(u32 \<times> u32 \<times> u8 \<times> bytes) list"
  pending_end_markers :: "(u32 \<times> u32) list"
  pending_ra :: "(u32 \<times> u32 \<times> 128 word) list"
  recovery_time :: nat

definition DEFAULT_MAX_SESSIONS :: nat where
  "DEFAULT_MAX_SESSIONS = 100000"

definition with_recovery_time :: "nat \<Rightarrow> upf_state" where
  "with_recovery_time t = \<lparr>next_teid = 1, next_seid = 1, sessions = [], max_sessions = DEFAULT_MAX_SESSIONS,
     pending_flush = [], pending_end_markers = [], pending_ra = [], recovery_time = t\<rparr>"

definition session_count :: "upf_state \<Rightarrow> nat" where
  "session_count st = length (sessions st)"

definition set_max_sessions :: "upf_state \<Rightarrow> nat \<Rightarrow> upf_state" where
  "set_max_sessions st n = st\<lparr>max_sessions := n\<rparr>"

text \<open>\<open>sessions.get\<close>, \<open>sessions.values().find\<close>, and the two mutating forms.\<close>

definition get_session :: "upf_state \<Rightarrow> u64 \<Rightarrow> session option" where
  "get_session st k = table_get (sessions st) k"

definition find_session :: "(session \<Rightarrow> bool) \<Rightarrow> upf_state \<Rightarrow> session option" where
  "find_session P st = find P (map snd (sessions st))"

definition update_session :: "u64 \<Rightarrow> (session \<Rightarrow> session) \<Rightarrow> upf_state \<Rightarrow> upf_state" where
  "update_session k f st = st\<lparr>sessions := table_update k f (sessions st)\<rparr>"

definition update_found :: "(session \<Rightarrow> bool) \<Rightarrow> (session \<Rightarrow> session) \<Rightarrow> upf_state \<Rightarrow> upf_state" where
  "update_found P f st = st\<lparr>sessions := map_first (\<lambda>e. P (snd e)) (\<lambda>e. (fst e, f (snd e))) (sessions st)\<rparr>"

definition session_peer :: "upf_state \<Rightarrow> u64 \<Rightarrow> ip_addr option" where
  "session_peer st k = Option.bind (get_session st k) peer_ip"

definition owns_teid :: "u32 \<Rightarrow> session \<Rightarrow> bool" where
  "owns_teid teid s = (n3_teid s = teid)"

definition owns_ip :: "u32 \<Rightarrow> session \<Rightarrow> bool" where
  "owns_ip dst s = (ue_ip s = Some dst)"

definition owns_ipv6 :: "128 word \<Rightarrow> session \<Rightarrow> bool" where
  "owns_ipv6 dst s = (case ue_ipv6 s of None \<Rightarrow> False | Some p \<Rightarrow> ipv6_in_prefix64 dst p)"

subsection \<open>Lookups of the datapath\<close>

definition knows_teid :: "upf_state \<Rightarrow> u32 \<Rightarrow> bool" where
  "knows_teid st teid = (\<exists>s\<in>set (map snd (sessions st)). n3_teid s = teid)"

definition uplink_egress_for_teid :: "upf_state \<Rightarrow> u32 \<Rightarrow> egress option" where
  "uplink_egress_for_teid st teid = map_option uplink (find_session (owns_teid teid) st)"

definition uplink_egress_for :: "upf_state \<Rightarrow> u32 \<Rightarrow> bytes \<Rightarrow> egress option" where
  "uplink_egress_for st teid pkt = (case find_session (owns_teid teid) st of
     None \<Rightarrow> None
   | Some s \<Rightarrow>
       Some (case packet_key_of pkt of
          None \<Rightarrow> uplink s
        | Some key \<Rightarrow> (case find (\<lambda>(_, flt, _). filter_matches flt key) (branches s) of
            None \<Rightarrow> uplink s
          | Some (_, _, e) \<Rightarrow> e)))"

definition branches_for_teid :: "upf_state \<Rightarrow> u32 \<Rightarrow> (flow_filter \<times> egress) list" where
  "branches_for_teid st teid = (case find_session (owns_teid teid) st of
     None \<Rightarrow> [] | Some s \<Rightarrow> map snd (branches s))"

definition downlink_via_n9_ingress :: "upf_state \<Rightarrow> u32 \<Rightarrow> (u32 \<times> u32) option" where
  "downlink_via_n9_ingress st teid =
     Option.bind (find_session (\<lambda>s. dl_ingress_teid s = Some teid) st) downlink"

definition downlink_for :: "upf_state \<Rightarrow> u64 \<Rightarrow> (u32 \<times> u32) option" where
  "downlink_for st k = Option.bind (get_session st k) downlink"

definition route_downlink :: "upf_state \<Rightarrow> u32 \<Rightarrow> (u32 \<times> u32) option" where
  "route_downlink st dst = Option.bind (find_session (owns_ip dst) st) downlink"

definition route_downlink_v6 :: "upf_state \<Rightarrow> 128 word \<Rightarrow> (u32 \<times> u32) option" where
  "route_downlink_v6 st dst = Option.bind (find_session (owns_ipv6 dst) st) downlink"

definition mark_qfi :: "bytes \<Rightarrow> session \<Rightarrow> (u32 \<times> u32 \<times> u8) option" where
  "mark_qfi pkt s = map_option (\<lambda>(teid, ip). (teid, ip, downlink_qfi s pkt)) (downlink s)"

definition route_downlink_marked :: "upf_state \<Rightarrow> u32 \<Rightarrow> bytes \<Rightarrow> (u32 \<times> u32 \<times> u8) option" where
  "route_downlink_marked st dst pkt = Option.bind (find_session (owns_ip dst) st) (mark_qfi pkt)"

definition route_downlink_marked_v6 :: "upf_state \<Rightarrow> 128 word \<Rightarrow> bytes \<Rightarrow> (u32 \<times> u32 \<times> u8) option" where
  "route_downlink_marked_v6 st dst pkt = Option.bind (find_session (owns_ipv6 dst) st) (mark_qfi pkt)"

definition ue_ip_for_teid :: "upf_state \<Rightarrow> u32 \<Rightarrow> u32 option" where
  "ue_ip_for_teid st teid = Option.bind (find_session (owns_teid teid) st) ue_ip"

definition ue_ipv6_for_teid :: "upf_state \<Rightarrow> u32 \<Rightarrow> 128 word option" where
  "ue_ipv6_for_teid st teid = Option.bind (find_session (owns_teid teid) st) ue_ipv6"

definition ra_target_for_teid :: "upf_state \<Rightarrow> u32 \<Rightarrow> (128 word \<times> u32 \<times> u32) option" where
  "ra_target_for_teid st teid = (case find_session (owns_teid teid) st of
     None \<Rightarrow> None
   | Some s \<Rightarrow> (case ue_ipv6 s of None \<Rightarrow> None | Some p \<Rightarrow>
       (case downlink s of None \<Rightarrow> None | Some (gt, gi) \<Rightarrow> Some (p, gt, gi))))"

definition is_buffering :: "upf_state \<Rightarrow> u32 \<Rightarrow> bool" where
  "is_buffering st dst = (\<exists>s\<in>set (map snd (sessions st)). ue_ip s = Some dst \<and> buffering s)"

definition ambr_for :: "upf_state \<Rightarrow> u64 \<Rightarrow> session_ambr option" where
  "ambr_for st k = Option.bind (get_session st k) ambr"

definition flow_qfis :: "upf_state \<Rightarrow> u64 \<Rightarrow> u8 list" where
  "flow_qfis st k = (case get_session st k of None \<Rightarrow> [] | Some s \<Rightarrow> map fe_qfi (flow_qers s))"

definition query_urr_usage :: "upf_state \<Rightarrow> u64 \<Rightarrow> u32 \<Rightarrow> usage_volume option" where
  "query_urr_usage st k i = (case get_session st k of None \<Rightarrow> None | Some s \<Rightarrow> session_urr_usage s i)"

subsection \<open>Establishment and removal\<close>

definition enforcer_of :: "flow_qer \<Rightarrow> u64 \<Rightarrow> flow_enforcer" where
  "enforcer_of f now = \<lparr>fe_qfi = fq_qfi f, fe_filter = fq_filter f, fe_gate = fq_gate f,
     fe_ul_bucket = bucket_new (fq_mfbr_ul_bps f) now, fe_dl_bucket = bucket_new (fq_mfbr_dl_bps f) now,
     fe_ul_bytes = 0, fe_dl_bytes = 0, fe_ul_pkts = 0, fe_dl_pkts = 0\<rparr>"

text \<open>The arguments of \<open>UpfState::establish\<close>.\<close>

record establish_args =
  ea_cp_seid :: u64
  ea_peer :: "ip_addr option"
  ea_ue :: ue_addr
  ea_ambr :: "session_ambr option"
  ea_flows :: "flow_qer list"
  ea_usage_threshold :: "u64 option"
  ea_uplink :: egress
  ea_branches :: "(u16 \<times> flow_filter \<times> egress) list"
  ea_wants_dl_ingress :: bool

definition new_session :: "establish_args \<Rightarrow> u64 \<Rightarrow> u32 \<Rightarrow> u32 option \<Rightarrow> session" where
  "new_session a now teid dl_ingress =
    \<lparr>n3_teid = teid, cp_seid = ea_cp_seid a, peer_ip = ea_peer a, ue_ip = ua_v4 (ea_ue a), ue_ipv6 = ua_v6 (ea_ue a),
     downlink = None, uplink = ea_uplink a, branches = ea_branches a, dl_ingress_teid = dl_ingress, ambr = ea_ambr a,
     ul_bucket = map_option (\<lambda>m. bucket_new (sa_uplink_bps m) now) (ea_ambr a),
     dl_bucket = map_option (\<lambda>m. bucket_new (sa_downlink_bps m) now) (ea_ambr a),
     flow_qers = map (\<lambda>f. enforcer_of f now) (ea_flows a),
     ul_bytes = 0, dl_bytes = 0, ul_pkts = 0, dl_pkts = 0, usage_threshold = ea_usage_threshold a,
     reported_ul = 0, reported_dl = 0, reported_ul_pkts = 0, reported_dl_pkts = 0,
     report_due = False, buffering = False, dl_buffer = [], dl_data_report_due = False\<rparr>"

definition establish :: "upf_state \<Rightarrow> establish_args \<Rightarrow> u64 \<Rightarrow> (u64 \<times> u32 \<times> u32 option) \<times> upf_state" where
  "establish st a now =
    (let up_seid = next_seid st; teid = next_teid st;
         dl_ingress = (if ea_wants_dl_ingress a then Some (next_teid st + 1) else None);
         next = (if ea_wants_dl_ingress a then next_teid st + 1 + 1 else next_teid st + 1)
     in ((up_seid, teid, dl_ingress),
         st\<lparr>next_seid := next_seid st + 1, next_teid := next,
            sessions := table_insert up_seid (new_session a now teid dl_ingress) (sessions st)\<rparr>))"

definition remove :: "upf_state \<Rightarrow> u64 \<Rightarrow> usage_volume list option \<times> upf_state" where
  "remove st k = (map_option final_usage (get_session st k), st\<lparr>sessions := table_remove k (sessions st)\<rparr>)"

subsection \<open>Reports\<close>

record due_report =
  dr_cp_seid :: u64
  dr_usage :: usage_volume

definition take_due_report :: "upf_state \<Rightarrow> due_report option \<times> upf_state" where
  "take_due_report st = (case find_session report_due st of
     None \<Rightarrow> (None, st)
   | Some s \<Rightarrow> (Some \<lparr>dr_cp_seid = cp_seid s, dr_usage = unreported_volume s\<rparr>,
               update_found report_due mark_reported st))"

definition take_dl_data_report :: "upf_state \<Rightarrow> u64 option \<times> upf_state" where
  "take_dl_data_report st = (case find_session dl_data_report_due st of
     None \<Rightarrow> (None, st)
   | Some s \<Rightarrow> (Some (cp_seid s), update_found dl_data_report_due (\<lambda>s. s\<lparr>dl_data_report_due := False\<rparr>) st))"

definition take_flush :: "upf_state \<Rightarrow> (u32 \<times> u32 \<times> u8 \<times> bytes) list \<times> upf_state" where
  "take_flush st = (pending_flush st, st\<lparr>pending_flush := []\<rparr>)"

definition take_end_markers :: "upf_state \<Rightarrow> (u32 \<times> u32) list \<times> upf_state" where
  "take_end_markers st = (pending_end_markers st, st\<lparr>pending_end_markers := []\<rparr>)"

definition take_pending_ra :: "upf_state \<Rightarrow> (u32 \<times> u32 \<times> 128 word) list \<times> upf_state" where
  "take_pending_ra st = (pending_ra st, st\<lparr>pending_ra := []\<rparr>)"

subsection \<open>The downlink tunnel and the idle buffer\<close>

definition set_downlink :: "upf_state \<Rightarrow> u64 \<Rightarrow> u32 \<Rightarrow> u32 \<Rightarrow> bool \<Rightarrow> bool \<times> upf_state" where
  "set_downlink st k gnb_teid gnb_ip send_end_marker =
    (let st1 = (case downlink_for st k of
            None \<Rightarrow> st
          | Some old \<Rightarrow> if send_end_marker \<and> old \<noteq> (gnb_teid, gnb_ip)
              then st\<lparr>pending_end_markers := pending_end_markers st @ [old]\<rparr> else st)
     in case get_session st1 k of
          None \<Rightarrow> (False, st1)
        | Some s \<Rightarrow>
            (let st2 = update_session k (\<lambda>s. s\<lparr>downlink := Some (gnb_teid, gnb_ip), buffering := False,
                          dl_data_report_due := False, dl_buffer := []\<rparr>) st1;
                 flushed = map (\<lambda>pkt. (gnb_teid, gnb_ip, downlink_qfi s pkt, pkt)) (dl_buffer s);
                 st3 = st2\<lparr>pending_flush := pending_flush st2 @ flushed\<rparr>
             in (True, case ue_ipv6 s of
                   None \<Rightarrow> st3
                 | Some p \<Rightarrow> st3\<lparr>pending_ra := pending_ra st3 @ [(gnb_teid, gnb_ip, p)]\<rparr>)))"

definition clear_downlink :: "upf_state \<Rightarrow> u64 \<Rightarrow> bool \<times> upf_state" where
  "clear_downlink st k = (case get_session st k of
     None \<Rightarrow> (False, st)
   | Some _ \<Rightarrow> (True, update_session k (\<lambda>s. s\<lparr>downlink := None, buffering := True\<rparr>) st))"

text \<open>The body of \<open>buffer_downlink\<close> on the session it found.\<close>

definition push_buffer :: "bytes \<Rightarrow> session \<Rightarrow> session" where
  "push_buffer pkt s =
    (let s1 = (if dl_buffer s = [] then s\<lparr>dl_data_report_due := True\<rparr> else s);
         held = (if length (dl_buffer s1) \<ge> DL_BUFFER_CAP then tl (dl_buffer s1) else dl_buffer s1)
     in s1\<lparr>dl_buffer := held @ [pkt]\<rparr>)"

definition buffer_downlink :: "upf_state \<Rightarrow> u32 \<Rightarrow> bytes \<Rightarrow> bool \<times> upf_state" where
  "buffer_downlink st dst pkt = (case find_session (\<lambda>s. owns_ip dst s \<and> buffering s) st of
     None \<Rightarrow> (False, st)
   | Some _ \<Rightarrow> (True, update_found (\<lambda>s. owns_ip dst s \<and> buffering s) (push_buffer pkt) st))"

subsection \<open>Rates, flows, branches\<close>

definition rerate :: "token_bucket option \<Rightarrow> u64 \<Rightarrow> u64 \<Rightarrow> token_bucket option" where
  "rerate ob rate now = Some (case ob of Some b \<Rightarrow> set_rate b rate now | None \<Rightarrow> bucket_new rate now)"

definition set_ambr :: "upf_state \<Rightarrow> u64 \<Rightarrow> session_ambr \<Rightarrow> u64 \<Rightarrow> bool \<times> upf_state" where
  "set_ambr st k a now = (case get_session st k of
     None \<Rightarrow> (False, st)
   | Some _ \<Rightarrow> (True, update_session k (\<lambda>s. s\<lparr>ul_bucket := rerate (ul_bucket s) (sa_uplink_bps a) now,
        dl_bucket := rerate (dl_bucket s) (sa_downlink_bps a) now, ambr := Some a\<rparr>) st))"

definition add_flow :: "upf_state \<Rightarrow> u64 \<Rightarrow> flow_qer \<Rightarrow> u64 \<Rightarrow> upf_state" where
  "add_flow st k f now = update_session k (\<lambda>s. s\<lparr>flow_qers :=
     filter (\<lambda>e. fe_qfi e \<noteq> fq_qfi f) (flow_qers s) @ [enforcer_of f now]\<rparr>) st"

definition update_flow_rate :: "upf_state \<Rightarrow> u64 \<Rightarrow> u8 \<Rightarrow> u64 \<Rightarrow> u64 \<Rightarrow> u64 \<Rightarrow> upf_state" where
  "update_flow_rate st k qfi mfbr_dl mfbr_ul now = update_session k (\<lambda>s. s\<lparr>flow_qers :=
     map_first (\<lambda>e. fe_qfi e = qfi) (\<lambda>e. e\<lparr>fe_ul_bucket := set_rate (fe_ul_bucket e) mfbr_ul now,
        fe_dl_bucket := set_rate (fe_dl_bucket e) mfbr_dl now\<rparr>) (flow_qers s)\<rparr>) st"

definition set_flow_gate :: "upf_state \<Rightarrow> u64 \<Rightarrow> u8 \<Rightarrow> gate \<Rightarrow> upf_state" where
  "set_flow_gate st k qfi g = update_session k (\<lambda>s. s\<lparr>flow_qers :=
     map_first (\<lambda>e. fe_qfi e = qfi) (\<lambda>e. e\<lparr>fe_gate := g\<rparr>) (flow_qers s)\<rparr>) st"

definition remove_flow :: "upf_state \<Rightarrow> u64 \<Rightarrow> u8 \<Rightarrow> upf_state" where
  "remove_flow st k qfi = update_session k (\<lambda>s. s\<lparr>flow_qers := filter (\<lambda>e. fe_qfi e \<noteq> qfi) (flow_qers s)\<rparr>) st"

definition add_branch :: "upf_state \<Rightarrow> u64 \<Rightarrow> u16 \<Rightarrow> flow_filter \<Rightarrow> egress \<Rightarrow> upf_state" where
  "add_branch st k i flt e = update_session k (\<lambda>s. s\<lparr>branches :=
     sort_key fst (filter (\<lambda>b. fst b \<noteq> i) (branches s) @ [(i, flt, e)])\<rparr>) st"

definition remove_branch :: "upf_state \<Rightarrow> u64 \<Rightarrow> u16 \<Rightarrow> upf_state" where
  "remove_branch st k i = update_session k (\<lambda>s. s\<lparr>branches := filter (\<lambda>b. fst b \<noteq> i) (branches s)\<rparr>) st"

subsection \<open>Admission on the datapath\<close>

definition admit_found :: "(session \<Rightarrow> bool) \<Rightarrow> bool \<Rightarrow> upf_state \<Rightarrow> u64 \<Rightarrow> bytes \<Rightarrow> bool \<times> upf_state" where
  "admit_found P up st now pkt = (case find_session P st of
     None \<Rightarrow> (True, st)
   | Some s \<Rightarrow> (fst (admit s up now pkt), update_found P (\<lambda>s. snd (admit s up now pkt)) st))"

definition admit_uplink :: "upf_state \<Rightarrow> u32 \<Rightarrow> u64 \<Rightarrow> bytes \<Rightarrow> bool \<times> upf_state" where
  "admit_uplink st teid now pkt = admit_found (owns_teid teid) True st now pkt"

definition admit_downlink :: "upf_state \<Rightarrow> u32 \<Rightarrow> u64 \<Rightarrow> bytes \<Rightarrow> bool \<times> upf_state" where
  "admit_downlink st dst now pkt = admit_found (owns_ip dst) False st now pkt"

definition admit_downlink_v6 :: "upf_state \<Rightarrow> 128 word \<Rightarrow> u64 \<Rightarrow> bytes \<Rightarrow> bool \<times> upf_state" where
  "admit_downlink_v6 st dst now pkt = admit_found (owns_ipv6 dst) False st now pkt"

subsection \<open>Invariant of the table\<close>

text \<open>The tunnel endpoints a session owns: its uplink ingress and, on an intermediate UPF, its
  downlink ingress.\<close>

definition teids_of :: "session \<Rightarrow> u32 list" where
  "teids_of s = n3_teid s # (case dl_ingress_teid s of None \<Rightarrow> [] | Some t \<Rightarrow> [t])"

definition all_teids :: "table \<Rightarrow> u32 list" where
  "all_teids t = concat (map (\<lambda>e. teids_of (snd e)) t)"

definition upf_wf :: "upf_state \<Rightarrow> bool" where
  "upf_wf st =
    (distinct (map fst (sessions st)) \<and> (\<forall>k\<in>fst ` set (sessions st). 0 < k \<and> k < next_seid st)
     \<and> distinct (all_teids (sessions st)) \<and> (\<forall>t\<in>set (all_teids (sessions st)). 0 < t \<and> t < next_teid st)
     \<and> 0 < next_seid st \<and> 0 < next_teid st
     \<and> (\<forall>e\<in>set (sessions st). session_wf (snd e)))"

text \<open>Changes of a session that keep its endpoints and its own invariant.\<close>

definition keeps_session :: "(session \<Rightarrow> session) \<Rightarrow> bool" where
  "keeps_session f = (\<forall>s. teids_of (f s) = teids_of s \<and> (session_wf s \<longrightarrow> session_wf (f s)))"

lemma all_teids_map_first:
  "(\<And>e. teids_of (snd (g e)) = teids_of (snd e)) \<Longrightarrow> all_teids (map_first P g t) = all_teids t"
  unfolding all_teids_def by (subst map_map_first) auto

lemma upf_wf_map_first:
  assumes "upf_wf st" "keeps_session f"
  shows "upf_wf (st\<lparr>sessions := map_first P (\<lambda>e. (fst e, f (snd e))) (sessions st)\<rparr>)"
proof -
  let ?g = "\<lambda>e. (fst e, f (snd e))"
  have t: "all_teids (map_first P ?g (sessions st)) = all_teids (sessions st)"
    using assms(2) by (intro all_teids_map_first) (simp add: keeps_session_def)
  have k: "map fst (map_first P ?g (sessions st)) = map fst (sessions st)"
    by (rule map_map_first) simp
  have kset: "fst ` set (map_first P ?g (sessions st)) = fst ` set (sessions st)"
    using arg_cong[OF k, of set] by simp
  have "\<forall>e\<in>set (map_first P ?g (sessions st)). session_wf (snd e)"
    using assms by (intro map_first_all) (auto simp: upf_wf_def keeps_session_def)
  with assms(1) t k kset show ?thesis by (simp only: upf_wf_def) simp
qed

lemma upf_wf_update: "upf_wf st \<Longrightarrow> keeps_session f \<Longrightarrow> upf_wf (update_session k f st)"
  unfolding update_session_def table_update_def by (rule upf_wf_map_first)

lemma upf_wf_found: "upf_wf st \<Longrightarrow> keeps_session f \<Longrightarrow> upf_wf (update_found P f st)"
  unfolding update_found_def by (rule upf_wf_map_first)

lemma upf_wf_queues [simp]:
  "upf_wf (st\<lparr>pending_flush := a\<rparr>) = upf_wf st" "upf_wf (st\<lparr>pending_end_markers := b\<rparr>) = upf_wf st"
  "upf_wf (st\<lparr>pending_ra := c\<rparr>) = upf_wf st" "upf_wf (st\<lparr>max_sessions := n\<rparr>) = upf_wf st"
  by (simp_all add: upf_wf_def)

named_theorems keeps \<open>session changes that keep endpoints and the session invariant\<close>

lemma keeps_admit [keeps]: "keeps_session (\<lambda>s. snd (admit s up now pkt))"
proof -
  have p: "teids_of (snd (poll_session up now n s)) = teids_of s" for s n
    by (simp add: teids_of_def poll_session_def split: prod.split)
  have c: "teids_of (count_session up n s) = teids_of s" for s n
    by (simp add: teids_of_def count_session_def Let_def split: option.split)
  have f: "teids_of (s\<lparr>flow_qers := fs\<rparr>) = teids_of s" for s fs by (simp add: teids_of_def)
  have "teids_of (snd (admit s up now pkt)) = teids_of s" for s
    using p[of "length pkt" s] c f
    by (cases "poll_session up now (length pkt) s") (simp add: admit_def split: option.split prod.split)
  then show ?thesis by (simp add: keeps_session_def admit_wf)
qed

lemma keeps_mark_reported [keeps]: "keeps_session mark_reported"
  by (simp add: keeps_session_def mark_reported_wf) (simp add: mark_reported_def teids_of_def)

lemma keeps_report_flag [keeps]: "keeps_session (\<lambda>s. s\<lparr>dl_data_report_due := False\<rparr>)"
  by (simp add: keeps_session_def session_wf_def teids_of_def)

lemma keeps_set_downlink [keeps]:
  "keeps_session (\<lambda>s. s\<lparr>downlink := Some d, buffering := False, dl_data_report_due := False, dl_buffer := []\<rparr>)"
  by (simp add: keeps_session_def session_wf_def teids_of_def)

lemma keeps_clear_downlink [keeps]: "keeps_session (\<lambda>s. s\<lparr>downlink := None, buffering := True\<rparr>)"
  by (simp add: keeps_session_def session_wf_def teids_of_def)

lemma keeps_push_buffer [keeps]: "keeps_session (push_buffer pkt)"
  by (auto simp: keeps_session_def session_wf_def teids_of_def push_buffer_def Let_def DL_BUFFER_CAP_def)

lemma keeps_ambr [keeps]:
  "keeps_session (\<lambda>s. s\<lparr>ul_bucket := rerate (ul_bucket s) u now, dl_bucket := rerate (dl_bucket s) d now, ambr := a\<rparr>)"
  by (auto simp: keeps_session_def session_wf_def teids_of_def rerate_def bucket_new_wf set_rate_wf split: option.splits)

lemma keeps_flows:
  assumes "\<And>fs. list_all flow_wf fs \<Longrightarrow> list_all flow_wf (g fs)"
  shows "keeps_session (\<lambda>s. s\<lparr>flow_qers := g (flow_qers s)\<rparr>)"
  using assms by (simp add: keeps_session_def session_wf_def teids_of_def)

lemma flow_wf_map_first:
  "list_all flow_wf fs \<Longrightarrow> (\<And>f. flow_wf f \<Longrightarrow> flow_wf (g f)) \<Longrightarrow> list_all flow_wf (map_first P g fs)"
  by (induction fs) auto

lemma enforcer_wf [simp]: "flow_wf (enforcer_of f now)"
  by (simp add: flow_wf_def enforcer_of_def bucket_new_wf)

lemma keeps_branches [keeps]: "keeps_session (\<lambda>s. s\<lparr>branches := g (branches s)\<rparr>)"
  by (simp add: keeps_session_def session_wf_def teids_of_def)

lemma keeps_flow_ops [keeps]:
  "keeps_session (\<lambda>s. s\<lparr>flow_qers := filter P (flow_qers s) @ [enforcer_of f now]\<rparr>)"
  "keeps_session (\<lambda>s. s\<lparr>flow_qers := filter P (flow_qers s)\<rparr>)"
  "keeps_session (\<lambda>s. s\<lparr>flow_qers := map_first P (\<lambda>e. e\<lparr>fe_gate := gt\<rparr>) (flow_qers s)\<rparr>)"
  "keeps_session (\<lambda>s. s\<lparr>flow_qers := map_first P (\<lambda>e. e\<lparr>fe_ul_bucket := set_rate (fe_ul_bucket e) u now,
      fe_dl_bucket := set_rate (fe_dl_bucket e) d now\<rparr>) (flow_qers s)\<rparr>)"
proof -
  show "keeps_session (\<lambda>s. s\<lparr>flow_qers := filter P (flow_qers s) @ [enforcer_of f now]\<rparr>)"
    by (rule keeps_flows) (auto simp: list_all_iff)
  show "keeps_session (\<lambda>s. s\<lparr>flow_qers := filter P (flow_qers s)\<rparr>)"
    by (rule keeps_flows) (auto simp: list_all_iff)
  show "keeps_session (\<lambda>s. s\<lparr>flow_qers := map_first P (\<lambda>e. e\<lparr>fe_gate := gt\<rparr>) (flow_qers s)\<rparr>)"
    by (rule keeps_flows, erule flow_wf_map_first) (simp add: flow_wf_def)
  show "keeps_session (\<lambda>s. s\<lparr>flow_qers := map_first P (\<lambda>e. e\<lparr>fe_ul_bucket := set_rate (fe_ul_bucket e) u now,
      fe_dl_bucket := set_rate (fe_dl_bucket e) d now\<rparr>) (flow_qers s)\<rparr>)"
    by (rule keeps_flows, erule flow_wf_map_first) (simp add: flow_wf_def set_rate_wf)
qed

lemma update_wf_ops [inv_intros]:
  assumes "upf_wf st"
  shows "upf_wf (snd (take_due_report st))" "upf_wf (snd (take_dl_data_report st))"
    "upf_wf (snd (clear_downlink st k))" "upf_wf (snd (buffer_downlink st dst pkt))"
    "upf_wf (snd (set_ambr st k a now))" "upf_wf (add_flow st k f now)"
    "upf_wf (update_flow_rate st k qfi d u now)" "upf_wf (set_flow_gate st k qfi g)"
    "upf_wf (remove_flow st k qfi)" "upf_wf (add_branch st k i flt e)" "upf_wf (remove_branch st k i)"
    "upf_wf (snd (admit_found P up st now pkt))"
  using assms
  by (auto simp: take_due_report_def take_dl_data_report_def clear_downlink_def buffer_downlink_def set_ambr_def
      add_flow_def update_flow_rate_def set_flow_gate_def remove_flow_def add_branch_def remove_branch_def
      admit_found_def split: option.splits intro!: upf_wf_update upf_wf_found keeps)

lemma set_downlink_wf [inv_intros]: "upf_wf st \<Longrightarrow> upf_wf (snd (set_downlink st k t ip em))"
  by (auto simp: set_downlink_def Let_def split: option.splits if_splits intro!: upf_wf_update keeps)

lemma take_queue_wf [inv_intros]:
  "upf_wf st \<Longrightarrow> upf_wf (snd (take_flush st))" "upf_wf st \<Longrightarrow> upf_wf (snd (take_end_markers st))"
  "upf_wf st \<Longrightarrow> upf_wf (snd (take_pending_ra st))" "upf_wf st \<Longrightarrow> upf_wf (set_max_sessions st n)"
  by (simp_all add: take_flush_def take_end_markers_def take_pending_ra_def set_max_sessions_def)

lemma all_teids_filter: "set (all_teids (filter P t)) \<subseteq> set (all_teids t)"
  by (auto simp: all_teids_def)

lemma distinct_all_teids_filter: "distinct (all_teids t) \<Longrightarrow> distinct (all_teids (filter P t))"
  using all_teids_filter[of P] by (induction t) (auto simp: all_teids_def)

lemma remove_wf [inv_intros]: "upf_wf st \<Longrightarrow> upf_wf (snd (remove st k))"
  using distinct_all_teids_filter[of "sessions st"] all_teids_filter[of "\<lambda>e. fst e \<noteq> k" "sessions st"]
  by (auto simp: upf_wf_def remove_def table_remove_def distinct_map_filter)

text \<open>The allocators count up; \<open>room_for\<close> says that a further establishment does not wrap them
  (\<open>2^64\<close> sessions, \<open>2^32\<close> tunnel endpoints over the life of the process).\<close>

definition room_for :: "upf_state \<Rightarrow> bool" where
  "room_for st = (unat (next_seid st) + 1 < 2 ^ 64 \<and> unat (next_teid st) + 2 < 2 ^ 32)"

lemma unat_plus1: "unat w + 1 < 2 ^ LENGTH('a) \<Longrightarrow> unat (w + 1) = unat (w :: 'a::len word) + 1"
  by (simp add: unat_word_ariths)

lemma word_less_plus1: "unat w + 1 < 2 ^ LENGTH('a) \<Longrightarrow> v < w + 1 \<longleftrightarrow> v \<le> (w :: 'a::len word)"
  by (simp add: word_less_nat_alt word_le_nat_alt unat_plus1 less_Suc_eq_le)

lemma new_session_wf: "session_wf (new_session a now t d)"
  by (auto simp: session_wf_def new_session_def list_all_iff bucket_new_wf option.pred_map comp_def
      option.pred_True split: option.splits)

lemma teids_new_session: "teids_of (new_session a now t d) = t # (case d of None \<Rightarrow> [] | Some x \<Rightarrow> [x])"
  by (simp add: teids_of_def new_session_def)

lemma establish_fresh: "upf_wf st \<Longrightarrow> table_insert (next_seid st) s (sessions st) = sessions st @ [(next_seid st, s)]"
  by (auto simp: upf_wf_def table_insert_def map_of_eq_None_iff)

lemma establish_wf [inv_intros]:
  assumes "upf_wf st" "room_for st"
  shows "upf_wf (snd (establish st a now))"
proof -
  have n: "unat (next_seid st + 1) = unat (next_seid st) + 1" "unat (next_teid st + 1) = unat (next_teid st) + 1"
      "unat (next_teid st + 1 + 1) = unat (next_teid st) + 2"
    using assms(2) by (simp_all add: room_for_def unat_word_ariths)
  have lt: "\<forall>k\<in>fst ` set (sessions st). unat k < unat (next_seid st)"
      "\<forall>t\<in>set (all_teids (sessions st)). unat t < unat (next_teid st)"
    using assms(1) by (auto simp: upf_wf_def word_less_nat_alt)
  have fresh: "next_seid st \<notin> fst ` set (sessions st)" "next_teid st \<notin> set (all_teids (sessions st))"
      "next_teid st + 1 \<notin> set (all_teids (sessions st))" "next_teid st + 1 \<noteq> next_teid st"
    using lt n by (auto dest!: bspec)
  have pos: "0 < next_seid st + 1" "0 < next_teid st + 1" "0 < next_teid st + 1 + 1"
    by (simp_all only: word_less_nat_alt n unat_0)
  show ?thesis
    using assms(1) fresh pos lt n
    by (auto simp: upf_wf_def establish_def Let_def establish_fresh[OF assms(1)] all_teids_def teids_new_session
        new_session_wf word_less_nat_alt less_Suc_eq intro: less_trans split: if_splits)
qed

subsection \<open>Operations as steps\<close>

datatype upf_op =
    Establish establish_args u64
  | Remove u64
  | SetDownlink u64 u32 u32 bool
  | ClearDownlink u64
  | BufferDownlink u32 bytes
  | SetAmbr u64 session_ambr u64
  | AddFlow u64 flow_qer u64
  | UpdateFlowRate u64 u8 u64 u64 u64
  | SetFlowGate u64 u8 gate
  | RemoveFlow u64 u8
  | AddBranch u64 u16 flow_filter egress
  | RemoveBranch u64 u16
  | AdmitUplink u32 u64 bytes
  | AdmitDownlink u32 u64 bytes
  | AdmitDownlinkV6 "128 word" u64 bytes
  | TakeDueReport | TakeDlDataReport | TakeFlush | TakeEndMarkers | TakePendingRa
  | SetMaxSessions nat

fun apply_op :: "upf_op \<Rightarrow> upf_state \<Rightarrow> upf_state" where
  "apply_op (Establish a now) st = snd (establish st a now)"
| "apply_op (Remove k) st = snd (remove st k)"
| "apply_op (SetDownlink k t ip em) st = snd (set_downlink st k t ip em)"
| "apply_op (ClearDownlink k) st = snd (clear_downlink st k)"
| "apply_op (BufferDownlink dst pkt) st = snd (buffer_downlink st dst pkt)"
| "apply_op (SetAmbr k a now) st = snd (set_ambr st k a now)"
| "apply_op (AddFlow k f now) st = add_flow st k f now"
| "apply_op (UpdateFlowRate k q d u now) st = update_flow_rate st k q d u now"
| "apply_op (SetFlowGate k q g) st = set_flow_gate st k q g"
| "apply_op (RemoveFlow k q) st = remove_flow st k q"
| "apply_op (AddBranch k i flt e) st = add_branch st k i flt e"
| "apply_op (RemoveBranch k i) st = remove_branch st k i"
| "apply_op (AdmitUplink t now pkt) st = snd (admit_uplink st t now pkt)"
| "apply_op (AdmitDownlink dst now pkt) st = snd (admit_downlink st dst now pkt)"
| "apply_op (AdmitDownlinkV6 dst now pkt) st = snd (admit_downlink_v6 st dst now pkt)"
| "apply_op TakeDueReport st = snd (take_due_report st)"
| "apply_op TakeDlDataReport st = snd (take_dl_data_report st)"
| "apply_op TakeFlush st = snd (take_flush st)"
| "apply_op TakeEndMarkers st = snd (take_end_markers st)"
| "apply_op TakePendingRa st = snd (take_pending_ra st)"
| "apply_op (SetMaxSessions n) st = set_max_sessions st n"

inductive upf_reachable :: "upf_state \<Rightarrow> bool" where
  start: "upf_reachable (with_recovery_time t)"
| step: "upf_reachable st \<Longrightarrow> (\<forall>a now. p = Establish a now \<longrightarrow> room_for st) \<Longrightarrow> upf_reachable (apply_op p st)"

inductive_cases upf_reachableE: "upf_reachable st"

lemma apply_op_wf: "upf_wf st \<Longrightarrow> (\<forall>a now. p = Establish a now \<longrightarrow> room_for st) \<Longrightarrow> upf_wf (apply_op p st)"
  by (cases p) (simp_all add: inv_intros admit_uplink_def admit_downlink_def admit_downlink_v6_def)

lemma reachable_wf: "upf_reachable st \<Longrightarrow> upf_wf st"
proof (induction rule: upf_reachable.induct)
  case (start t)
  then show ?case by (simp add: upf_wf_def with_recovery_time_def all_teids_def)
next
  case (step st p)
  then show ?case by (simp add: apply_op_wf)
qed

lemma apply_op_recovery: "recovery_time (apply_op p st) = recovery_time st"
  by (cases p)
    (simp_all add: establish_def Let_def remove_def set_downlink_def clear_downlink_def buffer_downlink_def
      set_ambr_def add_flow_def update_flow_rate_def set_flow_gate_def remove_flow_def add_branch_def
      remove_branch_def admit_uplink_def admit_downlink_def admit_downlink_v6_def admit_found_def
      take_due_report_def take_dl_data_report_def take_flush_def take_end_markers_def take_pending_ra_def
      set_max_sessions_def update_session_def update_found_def split: option.splits)

subsection \<open>Tunnel endpoints identify sessions\<close>

lemma get_session_iff: "upf_wf st \<Longrightarrow> get_session st k = Some s \<longleftrightarrow> (k, s) \<in> set (sessions st)"
  by (simp add: upf_wf_def get_session_def table_get_def map_of_eq_Some_iff)

lemma distinct_concat_disjoint:
  "distinct (concat (map f xs)) \<Longrightarrow> x \<in> set xs \<Longrightarrow> y \<in> set xs \<Longrightarrow> z \<in> set (f x) \<Longrightarrow> z \<in> set (f y) \<Longrightarrow> f x \<noteq> [] \<Longrightarrow> distinct xs \<Longrightarrow> x = y"
  by (induction xs) auto

lemma teid_owner_unique:
  assumes "upf_wf st" "e \<in> set (sessions st)" "e' \<in> set (sessions st)"
    and "t \<in> set (teids_of (snd e))" "t \<in> set (teids_of (snd e'))"
  shows "e = e'"
proof (rule distinct_concat_disjoint)
  show "distinct (concat (map (\<lambda>e. teids_of (snd e)) (sessions st)))" "distinct (sessions st)"
    using assms(1) by (auto simp: upf_wf_def all_teids_def distinct_map)
qed (use assms(2-5) in \<open>auto simp: teids_of_def\<close>)

lemma owner_teids: "n3_teid s = t \<Longrightarrow> t \<in> set (teids_of s)" "dl_ingress_teid s = Some t \<Longrightarrow> t \<in> set (teids_of s)"
  by (simp_all add: teids_of_def)

lemma find_owner:
  assumes "upf_wf st" "set tbl = set (sessions st)" "\<And>s. P s \<Longrightarrow> t \<in> set (teids_of s)"
  shows "find P (map snd tbl) = Some s \<longleftrightarrow> (\<exists>k. get_session st k = Some s \<and> P s)"
proof
  assume "find P (map snd tbl) = Some s"
  then have "s \<in> set (map snd tbl)" "P s" using find_Some_in by metis+
  then show "\<exists>k. get_session st k = Some s \<and> P s"
    using assms(1,2) by (auto simp: get_session_iff)
next
  assume "\<exists>k. get_session st k = Some s \<and> P s"
  then obtain k where k: "(k, s) \<in> set tbl" "P s" using assms(1,2) by (auto simp: get_session_iff)
  show "find P (map snd tbl) = Some s"
  proof (rule find_unique)
    show "s \<in> set (map snd tbl)" using k(1) by force
    fix y assume "y \<in> set (map snd tbl)" "P y"
    then obtain k' where "(k', y) \<in> set (sessions st)" using assms(2) by auto
    then show "y = s"
      using teid_owner_unique[OF assms(1), of "(k, s)" "(k', y)" t] k assms(2,3) \<open>P y\<close> by auto
  qed (fact k(2))
qed


subsection \<open>The idle buffer\<close>

lemma update_found_unique:
  assumes "distinct (map fst t)" "(k, s) \<in> set t" "P s" "\<And>k' s'. (k', s') \<in> set t \<Longrightarrow> P s' \<Longrightarrow> k' = k"
  shows "map_first (\<lambda>e. P (snd e)) g t = map_first (\<lambda>e. fst e = k) g t"
  using assms
proof (induction t)
  case Nil
  then show ?case by simp
next
  case (Cons e t)
  show ?case
  proof (cases "fst e = k")
    case True
    then have "e = (k, s)" using Cons.prems(1,2) by (auto simp: image_iff)
    then show ?thesis using Cons.prems(3) by simp
  next
    case False
    then have "\<not> P (snd e)" using Cons.prems(4)[of "fst e" "snd e"] by auto
    moreover have "map_first (\<lambda>e. P (snd e)) g t = map_first (\<lambda>e. fst e = k) g t"
    proof (rule Cons.IH)
      show "distinct (map fst t)" "(k, s) \<in> set t" using Cons.prems(1,2) False by auto
      show "P s" by (fact Cons.prems(3))
      show "k' = k" if "(k', s') \<in> set t" "P s'" for k' s' using Cons.prems(4)[of k' s'] that by simp
    qed
    ultimately show ?thesis using False by simp
  qed
qed

text \<open>The session under SEID \<open>k\<close> is idle and is the only one with the address \<open>dst\<close>.\<close>

definition idle_owner :: "upf_state \<Rightarrow> u64 \<Rightarrow> session \<Rightarrow> u32 \<Rightarrow> bool" where
  "idle_owner st k s dst = (distinct (map fst (sessions st)) \<and> (k, s) \<in> set (sessions st)
     \<and> ue_ip s = Some dst \<and> buffering s
     \<and> (\<forall>e\<in>set (sessions st). ue_ip (snd e) = Some dst \<longrightarrow> fst e = k))"

lemma buffer_idle_owner:
  assumes "idle_owner st k s dst"
  shows "snd (buffer_downlink st dst pkt) = update_session k (push_buffer pkt) st
    \<and> idle_owner (update_session k (push_buffer pkt) st) k (push_buffer pkt s) dst"
proof
  have o: "distinct (map fst (sessions st))" "(k, s) \<in> set (sessions st)" "owns_ip dst s \<and> buffering s"
    using assms by (auto simp: idle_owner_def owns_ip_def)
  have "find_session (\<lambda>s. owns_ip dst s \<and> buffering s) st \<noteq> None"
    using o(3) bspec[OF _ o(2), of "\<lambda>x. \<not> (owns_ip dst (snd x) \<and> buffering (snd x))"]
    by (auto simp: find_session_def find_None_iff simp del: not_None_eq)
  moreover have "update_found (\<lambda>s. owns_ip dst s \<and> buffering s) f st = update_session k f st" for f
    unfolding update_found_def update_session_def table_update_def
    using update_found_unique[OF o(1,2), of "\<lambda>s. owns_ip dst s \<and> buffering s"] o(3) assms
    by (fastforce simp: idle_owner_def owns_ip_def)
  ultimately show "snd (buffer_downlink st dst pkt) = update_session k (push_buffer pkt) st"
    by (auto simp: buffer_downlink_def)
  let ?t = "table_update k (push_buffer pkt) (sessions st)"
  have p: "ue_ip (push_buffer pkt u) = ue_ip u" "buffering (push_buffer pkt u) = buffering u" for u
    by (simp_all add: push_buffer_def Let_def)
  have "table_get (sessions st) k = Some s"
    using o(1,2) by (simp add: table_get_def map_of_eq_Some_iff)
  then have "table_get ?t k = Some (push_buffer pkt s)" by (simp add: table_get_update)
  then have "(k, push_buffer pkt s) \<in> set ?t" by (simp add: table_get_def map_of_SomeD)
  moreover have "fst e = k" if e: "e \<in> set ?t" "ue_ip (snd e) = Some dst" for e
  proof -
    have "e \<in> set (sessions st) \<or> (\<exists>x\<in>set (sessions st). fst x = k \<and> e = (fst x, push_buffer pkt (snd x)))"
      using e(1) unfolding table_update_def by (rule set_map_firstD)
    then show ?thesis using e(2) assms by (auto simp: idle_owner_def)
  qed
  ultimately show "idle_owner (update_session k (push_buffer pkt) st) k (push_buffer pkt s) dst"
    using o p by (auto simp: idle_owner_def update_session_def owns_ip_def)
qed

lemma buffer_run:
  assumes "idle_owner st k s dst"
  shows "foldl (\<lambda>st p. snd (buffer_downlink st dst p)) st pkts = update_session k (\<lambda>s. foldl (\<lambda>s p. push_buffer p s) s pkts) st
    \<and> idle_owner (foldl (\<lambda>st p. snd (buffer_downlink st dst p)) st pkts) k (foldl (\<lambda>s p. push_buffer p s) s pkts) dst"
  using assms
proof (induction pkts arbitrary: st s)
  case Nil
  have "map_first P (\<lambda>e. (fst e, snd e)) t = t" for P and t :: table by (induction t) auto
  then show ?case using Nil by (simp add: update_session_def table_update_def)
next
  case (Cons p pkts)
  have "update_session k g (update_session k f st) = update_session k (\<lambda>s. g (f s)) st" for f g
  proof -
    have "table_update k g (table_update k f t) = table_update k (\<lambda>s. g (f s)) t" for t
      unfolding table_update_def by (induction t) auto
    then show ?thesis by (simp add: update_session_def)
  qed
  then show ?case
    using buffer_idle_owner[OF Cons.prems, of p] Cons.IH[of "update_session k (push_buffer p) st" "push_buffer p s"] by auto
qed

lemma last_n_snoc:
  "0 < n \<Longrightarrow> (if length (drop (length xs - n) xs) \<ge> n then tl (drop (length xs - n) xs) else drop (length xs - n) xs) @ [p]
    = drop (length (xs @ [p]) - n) (xs @ [p])"
  by (auto simp: tl_drop drop_Suc Suc_diff_le simp flip: drop_Suc)

lemma push_run:
  assumes "length (dl_buffer s) \<le> DL_BUFFER_CAP"
  shows "dl_buffer (foldl (\<lambda>s p. push_buffer p s) s pkts)
      = drop (length (dl_buffer s @ pkts) - DL_BUFFER_CAP) (dl_buffer s @ pkts)"
    and "flow_qers (foldl (\<lambda>s p. push_buffer p s) s pkts) = flow_qers s"
    and "ue_ipv6 (foldl (\<lambda>s p. push_buffer p s) s pkts) = ue_ipv6 s"
proof -
  show "dl_buffer (foldl (\<lambda>s p. push_buffer p s) s pkts)
      = drop (length (dl_buffer s @ pkts) - DL_BUFFER_CAP) (dl_buffer s @ pkts)"
    using assms
  proof (induction pkts rule: rev_induct)
    case Nil
    then show ?case by simp
  next
    case (snoc p pkts)
    let ?xs = "dl_buffer s @ pkts"
    have push: "dl_buffer (push_buffer p u) = (if length (dl_buffer u) \<ge> DL_BUFFER_CAP then tl (dl_buffer u) else dl_buffer u) @ [p]" for u
      by (simp add: push_buffer_def Let_def)
    have "dl_buffer (foldl (\<lambda>s p. push_buffer p s) s (pkts @ [p]))
        = (if length (drop (length ?xs - DL_BUFFER_CAP) ?xs) \<ge> DL_BUFFER_CAP
           then tl (drop (length ?xs - DL_BUFFER_CAP) ?xs) else drop (length ?xs - DL_BUFFER_CAP) ?xs) @ [p]"
      using snoc by (simp only: foldl_append foldl.simps push)
    also have "\<dots> = drop (length (?xs @ [p]) - DL_BUFFER_CAP) (?xs @ [p])"
      by (rule last_n_snoc) (simp add: DL_BUFFER_CAP_def)
    finally show ?case by simp
  qed
  have "flow_qers (push_buffer p u) = flow_qers u \<and> ue_ipv6 (push_buffer p u) = ue_ipv6 u" for p u
    by (simp add: push_buffer_def Let_def)
  then show "flow_qers (foldl (\<lambda>s p. push_buffer p s) s pkts) = flow_qers s"
      "ue_ipv6 (foldl (\<lambda>s p. push_buffer p s) s pkts) = ue_ipv6 s"
    by (induction pkts arbitrary: s) simp_all
qed

lemma downlink_qfi_cong: "flow_qers v = flow_qers s \<Longrightarrow> downlink_qfi v = downlink_qfi s"
  by (rule ext) (simp only: downlink_qfi_def)

text \<open>paging and resumption. Downlink packets for an idle UE are held, at most 64 and the most
  recent ones, and when its tunnel is re-installed exactly those are queued to the new tunnel
  in order of arrival, each stamped with the QFI of its flow; the buffer is then empty, and the
  first packet of an idle period raises the report that triggers paging.\<close>

theorem idle_buffer_flush:
  assumes "upf_reachable st" "idle_owner st k s dst" "dl_buffer s = []"
    and "st' = foldl (\<lambda>st p. snd (buffer_downlink st dst p)) st pkts"
  shows "fst (set_downlink st' k t ip em)
    \<and> pending_flush (snd (set_downlink st' k t ip em))
        = pending_flush st @ map (\<lambda>p. (t, ip, downlink_qfi s p, p)) (drop (length pkts - 64) pkts)
    \<and> (\<exists>s'. get_session (snd (set_downlink st' k t ip em)) k = Some s' \<and> dl_buffer s' = []
          \<and> \<not> buffering s' \<and> downlink s' = Some (t, ip))
    \<and> (pkts \<noteq> [] \<longrightarrow> (\<exists>u. get_session st' k = Some u \<and> dl_data_report_due u \<and> length (dl_buffer u) \<le> 64))"
proof -
  let ?u = "foldl (\<lambda>s p. push_buffer p s) s pkts"
  note run = buffer_run[OF assms(2), of pkts]
  have "idle_owner st' k ?u dst" using conjunct2[OF run] by (simp only: assms(4))
  then have u: "get_session st' k = Some ?u"
    by (simp add: idle_owner_def get_session_def table_get_def map_of_eq_Some_iff)
  have b: "dl_buffer ?u = drop (length pkts - 64) pkts" "downlink_qfi ?u = downlink_qfi s"
    using push_run(1)[of s pkts] downlink_qfi_cong[OF push_run(2)[of s pkts]] assms(3) by (simp_all add: DL_BUFFER_CAP_def)
  have fl: "pending_flush st' = pending_flush st" using run assms(4) by (simp add: update_session_def)
  have due: "dl_data_report_due (foldl (\<lambda>s p. push_buffer p s) v ps)"
    if "dl_data_report_due v \<or> (dl_buffer v = [] \<and> ps \<noteq> [])" for v ps
  proof -
    have "dl_data_report_due (foldl (\<lambda>s p. push_buffer p s) v ps)" if "dl_data_report_due v" for v ps
      using that by (induction ps arbitrary: v) (simp_all add: push_buffer_def Let_def)
    then show ?thesis using that by (cases ps) (auto simp: push_buffer_def Let_def)
  qed
  define st1 where "st1 = (case downlink_for st' k of None \<Rightarrow> st'
    | Some old \<Rightarrow> if em \<and> old \<noteq> (t, ip) then st'\<lparr>pending_end_markers := pending_end_markers st' @ [old]\<rparr> else st')"
  have st1: "get_session st1 k = Some ?u" "pending_flush st1 = pending_flush st"
    using u fl by (simp_all add: st1_def get_session_def split: option.split)
  show ?thesis
    using st1 u b due[of s pkts] assms(3)
    by (auto simp: set_downlink_def Let_def st1_def[symmetric] update_session_def get_session_def table_get_update
        split: option.split)
qed

definition idle_state :: upf_state where
  "idle_state = snd (clear_downlink (snd (establish (with_recovery_time 0)
     \<lparr>ea_cp_seid = 7, ea_peer = None, ea_ue = \<lparr>ua_v4 = Some 9, ua_v6 = None\<rparr>, ea_ambr = None, ea_flows = [],
      ea_usage_threshold = None, ea_uplink = ToN6, ea_branches = [], ea_wants_dl_ingress = False\<rparr> 0)) 1)"

lemma idle_state_reachable: "upf_reachable idle_state"
proof -
  let ?st = "with_recovery_time 0"
  let ?op = "Establish \<lparr>ea_cp_seid = 7, ea_peer = None, ea_ue = \<lparr>ua_v4 = Some 9, ua_v6 = None\<rparr>, ea_ambr = None,
      ea_flows = [], ea_usage_threshold = None, ea_uplink = ToN6, ea_branches = [], ea_wants_dl_ingress = False\<rparr> 0"
  have "room_for ?st" by (simp add: room_for_def with_recovery_time_def)
  then have "upf_reachable (apply_op ?op ?st)"
    by (intro upf_reachable.step upf_reachable.start) simp
  then have "upf_reachable (apply_op (ClearDownlink 1) (apply_op ?op ?st))"
    by (rule upf_reachable.step) simp
  then show ?thesis by (simp add: idle_state_def)
qed

definition idle_session :: session where
  "idle_session = (new_session \<lparr>ea_cp_seid = 7, ea_peer = None, ea_ue = \<lparr>ua_v4 = Some 9, ua_v6 = None\<rparr>, ea_ambr = None,
     ea_flows = [], ea_usage_threshold = None, ea_uplink = ToN6, ea_branches = [], ea_wants_dl_ingress = False\<rparr> 0 1 None)
     \<lparr>downlink := None, buffering := True\<rparr>"

lemma idle_state_sessions: "sessions idle_state = [(1, idle_session)]"
  by (simp add: idle_state_def idle_session_def clear_downlink_def establish_def Let_def with_recovery_time_def
      get_session_def table_get_def table_insert_def update_session_def table_update_def)

theorem idle_buffer_flush_witness:
  "pending_flush (snd (set_downlink (foldl (\<lambda>st p. snd (buffer_downlink st 9 p)) idle_state [[1], [2]]) 1 5 6 True))
   = [(5, 6, 1, [1]), (5, 6, 1, [2])]"
proof -
  have "idle_owner idle_state 1 idle_session 9" "dl_buffer idle_session = []"
    by (simp_all add: idle_owner_def idle_state_sessions) (simp_all add: idle_session_def new_session_def)
  moreover have "pending_flush idle_state = []"
    by (simp add: idle_state_def clear_downlink_def establish_def Let_def with_recovery_time_def update_session_def
        split: option.split)
  moreover have "downlink_qfi idle_session p = 1" for p
    by (simp add: idle_session_def new_session_def downlink_qfi_def DEFAULT_QFI_def split: option.split)
  ultimately show ?thesis
    using idle_buffer_flush[OF idle_state_reachable, of 1 idle_session 9 _ "[[1], [2]]" 5 6 True] by simp
qed


end
