(* ===== verification/Pfcp_Msg.thy ===== *)
theory Pfcp_Msg
  imports Pfcp_State
begin

section \<open>PFCP: messages and the SMF's request builders\<close>

text \<open>
  The N4 messages of \<open>crates/pfcp/src/lib.rs\<close> as the sources see them: a message is its type,
  header SEID, sequence number and, for each information element the sources read, the list of
  its occurrences in order, each \<open>None\<close> when its payload does not unmarshal. The binary codec is
  the external crate \<open>rs_pfcp\<close>: it is a parameter of the model, the record \<open>pfcp_lib\<close>, with the
  decoder, the encoder, the validation done by the fallible builders, and the constructors whose
  result the crate decides (\<open>rate_limit\<close>, \<open>forward_to_network\<close>, \<open>gtpu_ipv4\<close>, ...). What the sources
  rely on is the predicate \<open>lib_ok\<close> and, per message, \<open>travels\<close>.
\<close>

subsection \<open>Information elements\<close>

datatype interface = Access | Core

datatype cause = RequestAccepted | RequestRejected | NoResourcesAvailable | SessionContextNotFound

datatype msg_type =
    AssociationSetupRequest | AssociationSetupResponse | HeartbeatRequest | HeartbeatResponse
  | SessionEstablishmentRequest | SessionEstablishmentResponse
  | SessionModificationRequest | SessionModificationResponse
  | SessionDeletionRequest | SessionDeletionResponse
  | SessionReportRequest | SessionReportResponse | OtherMsg

record fteid =
  ft_teid :: u32
  ft_ipv4 :: "u32 option"
  ft_choose :: bool

record ohc =
  oh_teid :: "u32 option"
  oh_ipv4 :: "u32 option"

record pdi =
  pdi_source :: interface
  pdi_f_teid :: "fteid option"
  pdi_ue_ip :: "ue_addr option"
  pdi_sdf_filter :: "string option"

record create_pdr =
  cp_pdr_id :: u16
  cp_precedence :: u32
  cp_pdi :: pdi
  cp_far_id :: "u32 option"
  cp_qer_id :: "u32 option"
  cp_urr_id :: "u32 option"

record fwd_params =
  fp_destination :: interface
  fp_network_instance :: "string option"
  fp_ohc :: "ohc option"

record apply_action =
  aa_drop :: bool
  aa_forw :: bool
  aa_buff :: bool
  aa_nocp :: bool

record create_far =
  cf_far_id :: u32
  cf_action :: apply_action
  cf_params :: "fwd_params option"

record mbr =
  mbr_uplink :: u64
  mbr_downlink :: u64

record create_qer =
  cq_qer_id :: u32
  cq_gate :: "gate_status option"
  cq_mbr :: "mbr option"

record create_urr =
  cu_urr_id :: u32
  cu_volth :: bool
  cu_threshold :: "u64 option option"

record update_far =
  uf_far_id :: u32
  uf_action :: "apply_action option"
  uf_params :: "fwd_params option"

record update_qer =
  uq_qer_id :: u32
  uq_mbr :: "mbr option"
  uq_gate :: "gate_status option"

record created_pdr =
  cd_pdr_id :: u16
  cd_f_teid :: fteid

record volume_measurement =
  vm_total :: "u64 option"
  vm_uplink :: "u64 option"
  vm_downlink :: "u64 option"
  vm_total_pkts :: "u64 option"
  vm_uplink_pkts :: "u64 option"
  vm_downlink_pkts :: "u64 option"

record usage_report =
  ur_urr_id :: u32
  ur_seqn :: u32
  ur_trigger :: u8
  ur_volume :: "volume_measurement option"

record report_type =
  rt_dldr :: bool
  rt_usar :: bool

record pfcp_msg =
  m_type :: msg_type
  m_seid :: "u64 option"
  m_seq :: u32
  ie_node_id :: "u32 option list"
  ie_recovery :: "nat option list"
  ie_cause :: "cause list"
  ie_fseid :: "(u64 \<times> u32) option list"
  ie_create_pdr :: "create_pdr option list"
  ie_create_far :: "create_far option list"
  ie_create_qer :: "create_qer option list"
  ie_create_urr :: "create_urr option list"
  ie_update_far :: "update_far option list"
  ie_update_qer :: "update_qer option list"
  ie_remove_qer :: "u32 option list"
  ie_remove_pdr :: "u16 option list"
  ie_remove_far :: "u32 option list"
  ie_query_urr :: "u32 option list"
  ie_sndem :: "bool option list"
  ie_created_pdr :: "created_pdr option list"
  ie_report_type :: "report_type option list"
  ie_usage_srr :: "usage_report option list"
  ie_usage_mod :: "usage_report option list"
  ie_usage_del :: "usage_report option list"

definition bare_msg :: "msg_type \<Rightarrow> u64 option \<Rightarrow> u32 \<Rightarrow> pfcp_msg" where
  "bare_msg t seid seq = \<lparr>m_type = t, m_seid = seid, m_seq = seq, ie_node_id = [], ie_recovery = [], ie_cause = [],
     ie_fseid = [], ie_create_pdr = [], ie_create_far = [], ie_create_qer = [], ie_create_urr = [],
     ie_update_far = [], ie_update_qer = [], ie_remove_qer = [], ie_remove_pdr = [], ie_remove_far = [],
     ie_query_urr = [], ie_sndem = [], ie_created_pdr = [], ie_report_type = [], ie_usage_srr = [], ie_usage_mod = [],
     ie_usage_del = []\<rparr>"

text \<open>\<open>.filter_map(|ie| X::unmarshal(..).ok())\<close> over the occurrences of an element.\<close>

definition decoded :: "'a option list \<Rightarrow> 'a list" where
  "decoded xs = List.map_filter (\<lambda>x. x) xs"

lemma decoded_simps [simp]:
  "decoded [] = []" "decoded (Some x # xs) = x # decoded xs" "decoded (None # xs) = decoded xs"
  by (simp_all add: decoded_def List.map_filter_def)

lemma decoded_map_Some [simp]: "decoded (map Some xs) = xs" "decoded (map (\<lambda>x. Some (f x)) xs) = map f xs"
  by (induction xs) simp_all

lemma decoded_append [simp]: "decoded (xs @ ys) = decoded xs @ decoded ys"
  by (simp add: decoded_def List.map_filter_def)

subsection \<open>The external codec\<close>

record pfcp_lib =
  lib_parse :: "bytes \<Rightarrow> pfcp_msg option"
  lib_marshal :: "pfcp_msg \<Rightarrow> bytes"
  lib_build_ok :: "pfcp_msg \<Rightarrow> bool"
  lib_uplink_access :: pdi
  lib_downlink_core :: pdi
  lib_downlink_core_ue :: "ue_addr \<Rightarrow> pdi"
  lib_choose_fteid :: fteid
  lib_fteid_ipv4 :: "u32 \<Rightarrow> u32 \<Rightarrow> fteid"
  lib_gtpu_ipv4 :: "u32 \<Rightarrow> u32 \<Rightarrow> ohc"
  lib_forward_to_network :: "u32 \<Rightarrow> interface \<Rightarrow> string \<Rightarrow> create_far"
  lib_rate_limit :: "u32 \<Rightarrow> u64 \<Rightarrow> u64 \<Rightarrow> create_qer"

text \<open>What the constructors are documented to put where: an F-TEID or an Outer Header Creation
  carries the endpoint it is given, a rate limit carries its MBR and leaves the gate open or
  unstated, plain forwarding creates no outer header, and a fresh PDI matches on its source
  interface only.\<close>

definition lib_ok :: "pfcp_lib \<Rightarrow> bool" where
  "lib_ok L \<longleftrightarrow>
    pdi_f_teid (lib_uplink_access L) = None \<and> pdi_ue_ip (lib_uplink_access L) = None
    \<and> pdi_sdf_filter (lib_uplink_access L) = None
    \<and> pdi_f_teid (lib_downlink_core L) = None \<and> pdi_ue_ip (lib_downlink_core L) = None
    \<and> pdi_sdf_filter (lib_downlink_core L) = None
    \<and> (\<forall>ue. pdi_f_teid (lib_downlink_core_ue L ue) = None \<and> pdi_ue_ip (lib_downlink_core_ue L ue) = Some ue
          \<and> pdi_sdf_filter (lib_downlink_core_ue L ue) = None)
    \<and> (\<forall>t a. ft_teid (lib_fteid_ipv4 L t a) = t \<and> ft_ipv4 (lib_fteid_ipv4 L t a) = Some a)
    \<and> (\<forall>t a. oh_teid (lib_gtpu_ipv4 L t a) = Some t \<and> oh_ipv4 (lib_gtpu_ipv4 L t a) = Some a)
    \<and> (\<forall>i f n. cf_far_id (lib_forward_to_network L i f n) = i
          \<and> Option.bind (cf_params (lib_forward_to_network L i f n)) fp_ohc = None)
    \<and> (\<forall>i u d. cq_qer_id (lib_rate_limit L i u d) = i
          \<and> cq_mbr (lib_rate_limit L i u d) = Some \<lparr>mbr_uplink = u, mbr_downlink = d\<rparr>
          \<and> map_option from_gate_status (cq_gate (lib_rate_limit L i u d)) \<in> {None, Some OPEN})"

text \<open>The validation of a message's builder includes that of the builders of its elements.
  A message travels when its builder accepts it and the peer decodes it to the same elements.\<close>

definition travels :: "pfcp_lib \<Rightarrow> pfcp_msg \<Rightarrow> bool" where
  "travels L m \<longleftrightarrow> lib_build_ok L m \<and> lib_parse L (lib_marshal L m) = Some m"

subsection \<open>Identifiers\<close>

definition AMBR_QER_ID :: u32 where "AMBR_QER_ID = 1"
definition UPLINK_FAR_ID :: u32 where "UPLINK_FAR_ID = 1"
definition DOWNLINK_FAR_ID :: u32 where "DOWNLINK_FAR_ID = 2"
definition DOWNLINK_PDR_ID :: u16 where "DOWNLINK_PDR_ID = 2"
definition PER_FLOW_QER_BASE :: u32 where "PER_FLOW_QER_BASE = 1000"
definition PER_FLOW_PDR_BASE :: u16 where "PER_FLOW_PDR_BASE = 100"
definition ULCL_PDR_BASE :: u16 where "ULCL_PDR_BASE = 400"
definition ULCL_FAR_BASE :: u32 where "ULCL_FAR_BASE = 3"
definition ULCL_PRECEDENCE :: u32 where "ULCL_PRECEDENCE = 40"

lemmas id_defs = AMBR_QER_ID_def UPLINK_FAR_ID_def DOWNLINK_FAR_ID_def DOWNLINK_PDR_ID_def PER_FLOW_QER_BASE_def
  PER_FLOW_PDR_BASE_def ULCL_PDR_BASE_def ULCL_FAR_BASE_def SESSION_URR_ID_def PER_FLOW_URR_BASE_def

definition FORW :: apply_action where
  "FORW = \<lparr>aa_drop = False, aa_forw = True, aa_buff = False, aa_nocp = False\<rparr>"

definition BUFF_NOCP :: apply_action where
  "BUFF_NOCP = \<lparr>aa_drop = False, aa_forw = False, aa_buff = True, aa_nocp = True\<rparr>"

subsection \<open>Elements of flows and branches\<close>

definition flow_create_ies :: "pfcp_lib \<Rightarrow> flow_qer \<Rightarrow> create_qer \<times> create_pdr \<times> create_urr" where
  "flow_create_ies L f =
    (let qid = PER_FLOW_QER_BASE + ucast (fq_qfi f);
         uid = PER_FLOW_URR_BASE + ucast (fq_qfi f);
         qer0 = lib_rate_limit L qid (fq_mfbr_ul_bps f) (fq_mfbr_dl_bps f);
         qer = (if is_restricted (fq_gate f) then qer0\<lparr>cq_gate := Some (to_gate_status (fq_gate f))\<rparr> else qer0);
         urr = \<lparr>cu_urr_id = uid, cu_volth = False, cu_threshold = None\<rparr>;
         pdi = (lib_uplink_access L)\<lparr>pdi_sdf_filter := Some (to_flow_description (fq_filter f))\<rparr>;
         pdr = \<lparr>cp_pdr_id = PER_FLOW_PDR_BASE + ucast (fq_qfi f), cp_precedence = 50, cp_pdi = pdi,
                cp_far_id = Some 1, cp_qer_id = Some qid, cp_urr_id = Some uid\<rparr>
     in (qer, pdr, urr))"

definition egress_forwarding_parameters :: "pfcp_lib \<Rightarrow> egress \<Rightarrow> string \<Rightarrow> fwd_params" where
  "egress_forwarding_parameters L e dnn =
    \<lparr>fp_destination = Core, fp_network_instance = Some dnn,
     fp_ohc = (case e of ToN6 \<Rightarrow> None | ToPeer teid addr \<Rightarrow> Some (lib_gtpu_ipv4 L teid addr))\<rparr>"

definition branch_create_ies :: "pfcp_lib \<Rightarrow> nat \<Rightarrow> flow_filter \<Rightarrow> egress \<Rightarrow> string \<Rightarrow> create_pdr \<times> create_far" where
  "branch_create_ies L index flt e dnn =
    (let far_id = ULCL_FAR_BASE + of_nat index;
         pdi = (lib_uplink_access L)\<lparr>pdi_sdf_filter := Some (to_flow_description flt)\<rparr>;
         pdr = \<lparr>cp_pdr_id = ULCL_PDR_BASE + of_nat index, cp_precedence = ULCL_PRECEDENCE, cp_pdi = pdi,
                cp_far_id = Some far_id, cp_qer_id = None, cp_urr_id = None\<rparr>;
         far = \<lparr>cf_far_id = far_id, cf_action = FORW, cf_params = Some (egress_forwarding_parameters L e dnn)\<rparr>
     in (pdr, far))"

text \<open>The egress a FAR describes: its Outer Header Creation when complete, else N6.\<close>

definition ohc_target :: "ohc \<Rightarrow> (u32 \<times> u32) option" where
  "ohc_target h = (case oh_teid h of None \<Rightarrow> None | Some t \<Rightarrow> (case oh_ipv4 h of None \<Rightarrow> None | Some a \<Rightarrow> Some (t, a)))"

definition far_egress :: "create_far \<Rightarrow> egress" where
  "far_egress far = (case Option.bind (Option.bind (cf_params far) fp_ohc) ohc_target of
     None \<Rightarrow> ToN6 | Some (t, a) \<Rightarrow> ToPeer t a)"

text \<open>Collecting pairs into a \<open>HashMap\<close>: the last pair for a key stays.\<close>

definition collect_map :: "('k \<times> 'v) list \<Rightarrow> 'k \<Rightarrow> 'v option" where
  "collect_map kvs k = map_of (rev kvs) k"

definition parse_branches :: "pfcp_msg \<Rightarrow> (u16 \<times> flow_filter \<times> egress) list" where
  "parse_branches msg =
    (let fars = collect_map (map (\<lambda>far. (cf_far_id far, far_egress far)) (decoded (ie_create_far msg)));
         pdrs = sort_key cp_pdr_id (filter (\<lambda>pdr. ULCL_PDR_BASE \<le> cp_pdr_id pdr) (decoded (ie_create_pdr msg)))
     in List.map_filter (\<lambda>pdr.
          case Option.bind (pdi_sdf_filter (cp_pdi pdr)) from_flow_description of
            None \<Rightarrow> None
          | Some flt \<Rightarrow> (case Option.bind (cp_far_id pdr) fars of
              None \<Rightarrow> None | Some e \<Rightarrow> Some (cp_pdr_id pdr, flt, e))) pdrs)"

definition qfi_of_qer :: "u32 \<Rightarrow> u8" where
  "qfi_of_qer qid = ucast (saturating_sub qid PER_FLOW_QER_BASE)"

definition parse_created_flows :: "pfcp_msg \<Rightarrow> flow_qer list" where
  "parse_created_flows msg =
    (let qers = collect_map (List.map_filter (\<lambda>q. map_option (\<lambda>m. (cq_qer_id q, m,
              case cq_gate q of None \<Rightarrow> OPEN | Some gs \<Rightarrow> from_gate_status gs)) (cq_mbr q)) (decoded (ie_create_qer msg)))
     in List.map_filter (\<lambda>pdr.
          case Option.bind (pdi_sdf_filter (cp_pdi pdr)) from_flow_description of
            None \<Rightarrow> None
          | Some flt \<Rightarrow> (case cp_qer_id pdr of
              None \<Rightarrow> None
            | Some qid \<Rightarrow> map_option (\<lambda>(m, g). \<lparr>fq_qfi = qfi_of_qer qid, fq_filter = flt,
                  fq_mfbr_dl_bps = mbr_downlink m, fq_mfbr_ul_bps = mbr_uplink m, fq_gate = g\<rparr>) (qers qid)))
          (decoded (ie_create_pdr msg)))"

subsection \<open>Requests of the SMF\<close>

text \<open>\<open>builder.build().expect(..).marshal()\<close>: \<open>None\<close> is the panic.\<close>

definition expect_marshal :: "pfcp_lib \<Rightarrow> pfcp_msg \<Rightarrow> bytes option" where
  "expect_marshal L m = (if lib_build_ok L m then Some (lib_marshal L m) else None)"

definition association_setup_request_msg :: "u32 \<Rightarrow> u32 \<Rightarrow> nat \<Rightarrow> pfcp_msg" where
  "association_setup_request_msg node_ip seq now =
    (bare_msg AssociationSetupRequest None seq)\<lparr>ie_node_id := [Some node_ip], ie_recovery := [Some now]\<rparr>"

definition heartbeat_request_msg :: "u32 \<Rightarrow> nat \<Rightarrow> pfcp_msg" where
  "heartbeat_request_msg seq now = (bare_msg HeartbeatRequest None seq)\<lparr>ie_recovery := [Some now]\<rparr>"

definition upf_chooses_fteid :: "pfcp_lib \<Rightarrow> fteid" where
  "upf_chooses_fteid L = lib_choose_fteid L"

record est_params =
  ep_cp_seid :: u64
  ep_seq :: u32
  ep_smf_ip :: u32
  ep_ue :: ue_addr
  ep_dnn :: string
  ep_ambr :: "session_ambr option"
  ep_flows :: "flow_qer list"
  ep_threshold :: "u64 option"

definition session_establishment_request_msg :: "pfcp_lib \<Rightarrow> est_params \<Rightarrow> pfcp_msg" where
  "session_establishment_request_msg L p =
    (let qer_id = map_option (\<lambda>_. AMBR_QER_ID) (ep_ambr p);
         ul_pdi = (lib_uplink_access L)\<lparr>pdi_f_teid := Some (upf_chooses_fteid L)\<rparr>;
         ul_pdr = \<lparr>cp_pdr_id = 1, cp_precedence = 100, cp_pdi = ul_pdi, cp_far_id = Some 1, cp_qer_id = qer_id,
                   cp_urr_id = Some SESSION_URR_ID\<rparr>;
         ul_far = lib_forward_to_network L 1 Core (ep_dnn p);
         dl_pdr = \<lparr>cp_pdr_id = 2, cp_precedence = 200, cp_pdi = lib_downlink_core_ue L (ep_ue p), cp_far_id = Some 2,
                   cp_qer_id = qer_id, cp_urr_id = Some SESSION_URR_ID\<rparr>;
         dl_far = lib_forward_to_network L 2 Access (ep_dnn p);
         urr = \<lparr>cu_urr_id = SESSION_URR_ID, cu_volth = (ep_threshold p \<noteq> None), cu_threshold = map_option Some (ep_threshold p)\<rparr>;
         ambr_qers = (case ep_ambr p of None \<Rightarrow> []
           | Some a \<Rightarrow> [lib_rate_limit L AMBR_QER_ID (sa_uplink_bps a) (sa_downlink_bps a)]);
         ies = map (flow_create_ies L) (ep_flows p)
     in (bare_msg SessionEstablishmentRequest (Some 0) (ep_seq p))
          \<lparr>ie_node_id := [Some (ep_smf_ip p)], ie_fseid := [Some (ep_cp_seid p, ep_smf_ip p)],
           ie_create_pdr := map Some ([ul_pdr, dl_pdr] @ map (\<lambda>(q, p, u). p) ies),
           ie_create_far := map Some [ul_far, dl_far],
           ie_create_urr := map Some (urr # map (\<lambda>(q, p, u). u) ies),
           ie_create_qer := map Some (ambr_qers @ map (\<lambda>(q, p, u). q) ies)\<rparr>)"

definition session_establishment_request :: "pfcp_lib \<Rightarrow> est_params \<Rightarrow> bytes option" where
  "session_establishment_request L p = expect_marshal L (session_establishment_request_msg L p)"

definition peer_far :: "pfcp_lib \<Rightarrow> u32 \<Rightarrow> interface \<Rightarrow> u32 \<Rightarrow> u32 \<Rightarrow> create_far" where
  "peer_far L i dest teid addr = \<lparr>cf_far_id = i, cf_action = FORW,
     cf_params = Some \<lparr>fp_destination = dest, fp_network_instance = None, fp_ohc = Some (lib_gtpu_ipv4 L teid addr)\<rparr>\<rparr>"

definition session_establishment_request_via_peer_msg ::
  "pfcp_lib \<Rightarrow> u64 \<Rightarrow> u32 \<Rightarrow> u32 \<Rightarrow> ue_addr \<Rightarrow> string \<Rightarrow> u32 \<Rightarrow> u32 \<Rightarrow> (flow_filter \<times> egress) list \<Rightarrow> pfcp_msg" where
  "session_establishment_request_via_peer_msg L cp seq smf_ip ue dnn peer_teid peer_addr brs =
    (let ul_pdi = (lib_uplink_access L)\<lparr>pdi_f_teid := Some (upf_chooses_fteid L), pdi_ue_ip := Some ue\<rparr>;
         ul_pdr = \<lparr>cp_pdr_id = 1, cp_precedence = 100, cp_pdi = ul_pdi, cp_far_id = Some UPLINK_FAR_ID, cp_qer_id = None,
                   cp_urr_id = None\<rparr>;
         ul_far = peer_far L UPLINK_FAR_ID Core peer_teid peer_addr;
         dl_pdi = (lib_downlink_core L)\<lparr>pdi_f_teid := Some (upf_chooses_fteid L)\<rparr>;
         dl_pdr = \<lparr>cp_pdr_id = DOWNLINK_PDR_ID, cp_precedence = 200, cp_pdi = dl_pdi, cp_far_id = Some 2,
                   cp_qer_id = None, cp_urr_id = None\<rparr>;
         dl_far = lib_forward_to_network L 2 Access dnn;
         ies = map (\<lambda>(i, flt, e). branch_create_ies L i flt e dnn) (enumerate 0 brs)
     in (bare_msg SessionEstablishmentRequest (Some 0) seq)
          \<lparr>ie_node_id := [Some smf_ip], ie_fseid := [Some (cp, smf_ip)],
           ie_create_pdr := map Some ([ul_pdr, dl_pdr] @ map fst ies),
           ie_create_far := map Some ([ul_far, dl_far] @ map snd ies)\<rparr>)"

definition session_establishment_request_indirect_forwarding_msg ::
  "pfcp_lib \<Rightarrow> u64 \<Rightarrow> u32 \<Rightarrow> u32 \<Rightarrow> u32 \<Rightarrow> u32 \<Rightarrow> pfcp_msg" where
  "session_establishment_request_indirect_forwarding_msg L cp seq smf_ip target_teid target_addr =
    (let pdi = (lib_uplink_access L)\<lparr>pdi_f_teid := Some (upf_chooses_fteid L)\<rparr>;
         pdr = \<lparr>cp_pdr_id = 1, cp_precedence = 100, cp_pdi = pdi, cp_far_id = Some 1, cp_qer_id = None, cp_urr_id = None\<rparr>
     in (bare_msg SessionEstablishmentRequest (Some 0) seq)
          \<lparr>ie_node_id := [Some smf_ip], ie_fseid := [Some (cp, smf_ip)], ie_create_pdr := [Some pdr],
           ie_create_far := [Some (peer_far L 1 Access target_teid target_addr)]\<rparr>)"

definition session_qer_update_request_msg :: "u64 \<Rightarrow> u32 \<Rightarrow> session_ambr \<Rightarrow> pfcp_msg" where
  "session_qer_update_request_msg up_seid seq a =
    (bare_msg SessionModificationRequest (Some up_seid) seq)
      \<lparr>ie_update_qer := [Some \<lparr>uq_qer_id = AMBR_QER_ID,
         uq_mbr = Some \<lparr>mbr_uplink = sa_uplink_bps a, mbr_downlink = sa_downlink_bps a\<rparr>, uq_gate = None\<rparr>]\<rparr>"

definition session_urr_query_request_msg :: "u64 \<Rightarrow> u32 \<Rightarrow> u32 list \<Rightarrow> pfcp_msg" where
  "session_urr_query_request_msg up_seid seq ids =
    (bare_msg SessionModificationRequest (Some up_seid) seq)\<lparr>ie_query_urr := map Some ids\<rparr>"

definition session_flow_modification_request_msg ::
  "pfcp_lib \<Rightarrow> u64 \<Rightarrow> u32 \<Rightarrow> flow_qer list \<Rightarrow> flow_qer list \<Rightarrow> u8 list \<Rightarrow> pfcp_msg" where
  "session_flow_modification_request_msg L up_seid seq create update remove_qfis =
    (let ies = map (flow_create_ies L) create
     in (bare_msg SessionModificationRequest (Some up_seid) seq)
          \<lparr>ie_create_qer := map (\<lambda>(q, p, u). Some q) ies, ie_create_pdr := map (\<lambda>(q, p, u). Some p) ies,
           ie_create_urr := map (\<lambda>(q, p, u). Some u) ies,
           ie_update_qer := map (\<lambda>f. Some \<lparr>uq_qer_id = PER_FLOW_QER_BASE + ucast (fq_qfi f),
              uq_mbr = Some \<lparr>mbr_uplink = fq_mfbr_ul_bps f, mbr_downlink = fq_mfbr_dl_bps f\<rparr>,
              uq_gate = Some (to_gate_status (fq_gate f))\<rparr>) update,
           ie_remove_qer := map (\<lambda>q. Some (PER_FLOW_QER_BASE + ucast q)) remove_qfis,
           ie_remove_pdr := map (\<lambda>q. Some (PER_FLOW_PDR_BASE + ucast q)) remove_qfis\<rparr>)"

definition session_modification_add_branch_msg ::
  "pfcp_lib \<Rightarrow> u64 \<Rightarrow> u32 \<Rightarrow> nat \<Rightarrow> flow_filter \<Rightarrow> egress \<Rightarrow> string \<Rightarrow> pfcp_msg" where
  "session_modification_add_branch_msg L up_seid seq index flt e dnn =
    (case branch_create_ies L index flt e dnn of (pdr, far) \<Rightarrow>
      (bare_msg SessionModificationRequest (Some up_seid) seq)\<lparr>ie_create_pdr := [Some pdr], ie_create_far := [Some far]\<rparr>)"

definition session_modification_remove_branch_msg :: "u64 \<Rightarrow> u32 \<Rightarrow> nat \<Rightarrow> pfcp_msg" where
  "session_modification_remove_branch_msg up_seid seq index =
    (bare_msg SessionModificationRequest (Some up_seid) seq)
      \<lparr>ie_remove_pdr := [Some (ULCL_PDR_BASE + of_nat index)], ie_remove_far := [Some (ULCL_FAR_BASE + of_nat index)]\<rparr>"

definition session_deactivate_request_msg :: "u64 \<Rightarrow> u32 \<Rightarrow> u32 \<Rightarrow> pfcp_msg" where
  "session_deactivate_request_msg up_seid seq far_id =
    (bare_msg SessionModificationRequest (Some up_seid) seq)
      \<lparr>ie_update_far := [Some \<lparr>uf_far_id = far_id, uf_action = Some BUFF_NOCP, uf_params = None\<rparr>]\<rparr>"

definition session_modification_request_msg ::
  "pfcp_lib \<Rightarrow> u64 \<Rightarrow> u32 \<Rightarrow> u32 \<Rightarrow> u32 \<Rightarrow> u32 \<Rightarrow> string \<Rightarrow> bool \<Rightarrow> pfcp_msg" where
  "session_modification_request_msg L up_seid seq far_id gnb_teid gnb_ip dnn send_end_marker =
    (bare_msg SessionModificationRequest (Some up_seid) seq)
      \<lparr>ie_update_far := [Some \<lparr>uf_far_id = far_id, uf_action = Some FORW,
         uf_params = Some \<lparr>fp_destination = Access, fp_network_instance = Some dnn,
           fp_ohc = Some (lib_gtpu_ipv4 L gnb_teid gnb_ip)\<rparr>\<rparr>],
       ie_sndem := (if send_end_marker then [Some True] else [])\<rparr>"

definition session_deletion_request_msg :: "u64 \<Rightarrow> u32 \<Rightarrow> pfcp_msg" where
  "session_deletion_request_msg up_seid seq = bare_msg SessionDeletionRequest (Some up_seid) seq"

end
