(* ===== verification/Pfcp_N4.thy ===== *)
theory Pfcp_N4
  imports Pfcp_Msg
begin

section \<open>PFCP: the N4 handler of the UPF and the SMF's response parsers\<close>

text \<open>
  \<open>handle_n4_from\<close> of \<open>crates/pfcp/src/lib.rs\<close>, branch by branch, over decoded messages
  (\<open>handle_msg\<close>) and over datagrams through the external codec (\<open>handle_n4_from\<close>,
  \<open>handle_n4\<close>); the usage and data reports the UPF initiates; and the functions with which the
  SMF reads responses. The theorems: sessions answer only to the address that established
  them, the table never grows past its ceiling, what the SMF asks for is what the UPF holds,
  and a modification touches only the session it names.
\<close>

subsection \<open>Usage reports on the wire\<close>

definition usage_report_for :: "usage_volume \<Rightarrow> u32 \<Rightarrow> u8 \<Rightarrow> usage_report" where
  "usage_report_for u seqn trigger = \<lparr>ur_urr_id = urr_id u, ur_seqn = seqn, ur_trigger = trigger,
     ur_volume = Some \<lparr>vm_total = Some (total u), vm_uplink = Some (uv_uplink u), vm_downlink = Some (uv_downlink u),
       vm_total_pkts = Some (total_pkts u), vm_uplink_pkts = Some (uplink_pkts u), vm_downlink_pkts = Some (downlink_pkts u)\<rparr>\<rparr>"

definition or_zero :: "u64 option \<Rightarrow> u64" where
  "or_zero x = (case x of None \<Rightarrow> 0 | Some v \<Rightarrow> v)"

definition usage_volume_from :: "usage_report \<Rightarrow> usage_volume option" where
  "usage_volume_from r = (case ur_volume r of None \<Rightarrow> None | Some vm \<Rightarrow>
    (case vm_total vm of None \<Rightarrow> None | Some t \<Rightarrow>
      (case vm_uplink vm of None \<Rightarrow> None | Some u \<Rightarrow>
        (case vm_downlink vm of None \<Rightarrow> None | Some d \<Rightarrow>
          Some \<lparr>urr_id = ur_urr_id r, total = t, uv_uplink = u, uv_downlink = d, total_pkts = or_zero (vm_total_pkts vm),
            uplink_pkts = or_zero (vm_uplink_pkts vm), downlink_pkts = or_zero (vm_downlink_pkts vm)\<rparr>))))"

lemma usage_report_roundtrip [simp]: "usage_volume_from (usage_report_for u n t) = Some u"
  by (simp add: usage_volume_from_def usage_report_for_def or_zero_def)

subsection \<open>Reading an establishment\<close>

definition requested_ue :: "pfcp_msg \<Rightarrow> ue_addr" where
  "requested_ue msg = (case List.find (\<lambda>pdr. pdi_ue_ip (cp_pdi pdr) \<noteq> None) (decoded (ie_create_pdr msg)) of
     None \<Rightarrow> \<lparr>ua_v4 = None, ua_v6 = None\<rparr>
   | Some pdr \<Rightarrow> the (pdi_ue_ip (cp_pdi pdr)))"

definition requested_ambr :: "pfcp_msg \<Rightarrow> session_ambr option" where
  "requested_ambr msg = map_option (\<lambda>m. \<lparr>sa_uplink_bps = mbr_uplink m, sa_downlink_bps = mbr_downlink m\<rparr>)
     (Option.bind (find (\<lambda>q. cq_qer_id q = AMBR_QER_ID) (decoded (ie_create_qer msg))) cq_mbr)"

definition requested_threshold :: "pfcp_msg \<Rightarrow> u64 option" where
  "requested_threshold msg = Option.bind (Option.bind
     (find (\<lambda>u. cu_urr_id u = SESSION_URR_ID) (decoded (ie_create_urr msg))) cu_threshold) (\<lambda>t. t)"

definition requested_uplink :: "pfcp_msg \<Rightarrow> egress" where
  "requested_uplink msg = (case find (\<lambda>far. cf_far_id far = UPLINK_FAR_ID) (decoded (ie_create_far msg)) of
     None \<Rightarrow> ToN6 | Some far \<Rightarrow> far_egress far)"

definition requested_dl_ingress :: "pfcp_msg \<Rightarrow> bool" where
  "requested_dl_ingress msg = list_ex (\<lambda>pdr. cp_pdr_id pdr = DOWNLINK_PDR_ID \<and> pdi_f_teid (cp_pdi pdr) \<noteq> None)
     (decoded (ie_create_pdr msg))"

definition requested_args :: "pfcp_msg \<Rightarrow> u64 \<Rightarrow> ip_addr option \<Rightarrow> establish_args" where
  "requested_args msg cp peer = \<lparr>ea_cp_seid = cp, ea_peer = peer, ea_ue = requested_ue msg, ea_ambr = requested_ambr msg,
     ea_flows = parse_created_flows msg, ea_usage_threshold = requested_threshold msg, ea_uplink = requested_uplink msg,
     ea_branches = parse_branches msg, ea_wants_dl_ingress = requested_dl_ingress msg\<rparr>"

subsection \<open>Establishment\<close>

text \<open>A handler returns the response message, if any, and the new state; \<open>fallible\<close> is
  \<open>builder.build().ok()?\<close>.\<close>

definition fallible :: "pfcp_lib \<Rightarrow> pfcp_msg \<Rightarrow> pfcp_msg option" where
  "fallible L m = (if lib_build_ok L m then Some m else None)"

definition establishment_accepted :: "pfcp_lib \<Rightarrow> u64 \<Rightarrow> u32 \<Rightarrow> u32 \<Rightarrow> u64 \<Rightarrow> u32 \<Rightarrow> u32 option \<Rightarrow> pfcp_msg" where
  "establishment_accepted L cp seq node_ip up_seid teid dl_ingress =
    (bare_msg SessionEstablishmentResponse (Some cp) seq)
      \<lparr>ie_cause := [RequestAccepted], ie_node_id := [Some node_ip], ie_fseid := [Some (up_seid, node_ip)],
       ie_created_pdr := map Some (\<lparr>cd_pdr_id = 1, cd_f_teid = lib_fteid_ipv4 L teid node_ip\<rparr>
         # (case dl_ingress of None \<Rightarrow> []
            | Some dl \<Rightarrow> [\<lparr>cd_pdr_id = DOWNLINK_PDR_ID, cd_f_teid = lib_fteid_ipv4 L dl node_ip\<rparr>]))\<rparr>"

definition handle_establishment ::
  "pfcp_lib \<Rightarrow> pfcp_msg \<Rightarrow> u32 \<Rightarrow> upf_state \<Rightarrow> u64 \<Rightarrow> ip_addr option \<Rightarrow> pfcp_msg option \<times> upf_state" where
  "handle_establishment L msg node_ip st now peer =
    (case ie_fseid msg of
       Some (cp, _) # _ \<Rightarrow>
         (if session_count st \<ge> max_sessions st then
            (fallible L ((bare_msg SessionEstablishmentResponse (Some cp) (m_seq msg))
               \<lparr>ie_cause := [NoResourcesAvailable], ie_node_id := [Some node_ip], ie_fseid := [Some (0, node_ip)]\<rparr>), st)
          else
            (case establish st (requested_args msg cp peer) now of ((up_seid, teid, dl_ingress), st') \<Rightarrow>
               (fallible L (establishment_accepted L cp (m_seq msg) node_ip up_seid teid dl_ingress), st')))
     | _ \<Rightarrow> (None, st))"

subsection \<open>Modification\<close>

text \<open>The source-binding check of modification and deletion.\<close>

definition foreign_peer :: "ip_addr option \<Rightarrow> upf_state \<Rightarrow> u64 \<Rightarrow> bool" where
  "foreign_peer peer st up_seid = (case (peer, session_peer st up_seid) of
     (Some req, Some bound) \<Rightarrow> req \<noteq> bound | _ \<Rightarrow> False)"

definition wants_end_marker :: "pfcp_msg \<Rightarrow> bool" where
  "wants_end_marker msg = (case ie_sndem msg of Some b # _ \<Rightarrow> b | _ \<Rightarrow> False)"

definition apply_update_far :: "pfcp_msg \<Rightarrow> u64 \<Rightarrow> upf_state \<Rightarrow> upf_state" where
  "apply_update_far msg up_seid st =
    (case find (\<lambda>uf. uf_far_id uf = DOWNLINK_FAR_ID \<and> (uf_params uf \<noteq> None \<or> uf_action uf \<noteq> None))
            (decoded (ie_update_far msg)) of
       None \<Rightarrow> st
     | Some uf \<Rightarrow>
         (case Option.bind (Option.bind (uf_params uf) fp_ohc) ohc_target of
            Some (gnb_teid, gnb_ip) \<Rightarrow> snd (set_downlink st up_seid gnb_teid gnb_ip (wants_end_marker msg))
          | None \<Rightarrow> (case uf_action uf of
               Some a \<Rightarrow> if aa_buff a \<or> aa_drop a then snd (clear_downlink st up_seid) else st
             | None \<Rightarrow> st)))"

definition apply_remove_qer :: "u64 \<Rightarrow> upf_state \<Rightarrow> u32 \<Rightarrow> upf_state" where
  "apply_remove_qer up_seid st qid = (if qid \<noteq> AMBR_QER_ID then remove_flow st up_seid (qfi_of_qer qid) else st)"

definition apply_update_qer :: "u64 \<Rightarrow> u64 \<Rightarrow> upf_state \<Rightarrow> update_qer \<Rightarrow> upf_state" where
  "apply_update_qer up_seid now st uq =
    (if uq_qer_id uq = AMBR_QER_ID then
       (case uq_mbr uq of None \<Rightarrow> st
        | Some m \<Rightarrow> snd (set_ambr st up_seid \<lparr>sa_uplink_bps = mbr_uplink m, sa_downlink_bps = mbr_downlink m\<rparr> now))
     else
       (let qfi = qfi_of_qer (uq_qer_id uq);
            st1 = (case uq_mbr uq of None \<Rightarrow> st | Some m \<Rightarrow> update_flow_rate st up_seid qfi (mbr_downlink m) (mbr_uplink m) now)
        in (case uq_gate uq of None \<Rightarrow> st1 | Some gs \<Rightarrow> set_flow_gate st1 up_seid qfi (from_gate_status gs))))"

definition apply_modification :: "pfcp_msg \<Rightarrow> u64 \<Rightarrow> u64 \<Rightarrow> upf_state \<Rightarrow> upf_state" where
  "apply_modification msg up_seid now st =
    (let st1 = apply_update_far msg up_seid st;
         st2 = foldl (apply_remove_qer up_seid) st1 (decoded (ie_remove_qer msg));
         st3 = foldl (\<lambda>st f. add_flow st up_seid f now) st2 (parse_created_flows msg);
         st4 = foldl (apply_update_qer up_seid now) st3 (decoded (ie_update_qer msg));
         st5 = foldl (\<lambda>st i. remove_branch st up_seid i) st4
                 (filter (\<lambda>i. ULCL_PDR_BASE \<le> i) (decoded (ie_remove_pdr msg)));
         st6 = foldl (\<lambda>st (i, flt, e). add_branch st up_seid i flt e) st5 (parse_branches msg)
     in st6)"

definition queried_usage :: "pfcp_msg \<Rightarrow> u64 \<Rightarrow> upf_state \<Rightarrow> usage_report list" where
  "queried_usage msg up_seid st = List.map_filter (\<lambda>(i, q).
     map_option (\<lambda>u. usage_report_for u (of_nat (i + 1)) 0x40) (query_urr_usage st up_seid q))
     (enumerate 0 (decoded (ie_query_urr msg)))"

definition handle_modification ::
  "pfcp_msg \<Rightarrow> upf_state \<Rightarrow> u64 \<Rightarrow> ip_addr option \<Rightarrow> pfcp_msg option \<times> upf_state" where
  "handle_modification msg st now peer =
    (case m_seid msg of
       None \<Rightarrow> (None, st)
     | Some up_seid \<Rightarrow>
         (if foreign_peer peer st up_seid then
            (Some ((bare_msg SessionModificationResponse (Some up_seid) (m_seq msg))\<lparr>ie_cause := [RequestRejected]\<rparr>), st)
          else
            (let st' = apply_modification msg up_seid now st
             in (Some ((bare_msg SessionModificationResponse (Some up_seid) (m_seq msg))
                   \<lparr>ie_cause := [RequestAccepted], ie_usage_mod := map Some (queried_usage msg up_seid st')\<rparr>), st'))))"

subsection \<open>Deletion and dispatch\<close>

definition handle_deletion :: "pfcp_msg \<Rightarrow> upf_state \<Rightarrow> ip_addr option \<Rightarrow> pfcp_msg option \<times> upf_state" where
  "handle_deletion msg st peer =
    (case m_seid msg of
       None \<Rightarrow> (None, st)
     | Some up_seid \<Rightarrow>
         (if foreign_peer peer st up_seid then
            (Some ((bare_msg SessionDeletionResponse (Some up_seid) (m_seq msg))\<lparr>ie_cause := [RequestRejected]\<rparr>), st)
          else
            (case remove st up_seid of (usages, st') \<Rightarrow>
               (Some ((bare_msg SessionDeletionResponse (Some up_seid) (m_seq msg))
                  \<lparr>ie_cause := [if usages \<noteq> None then RequestAccepted else SessionContextNotFound],
                   ie_usage_del := (case usages of None \<Rightarrow> []
                     | Some us \<Rightarrow> map (\<lambda>(i, u). Some (usage_report_for u (of_nat (i + 1)) 0x20)) (enumerate 0 us))\<rparr>), st'))))"

definition handle_msg ::
  "pfcp_lib \<Rightarrow> pfcp_msg \<Rightarrow> u32 \<Rightarrow> upf_state \<Rightarrow> u64 \<Rightarrow> ip_addr option \<Rightarrow> pfcp_msg option \<times> upf_state" where
  "handle_msg L msg node_ip st now peer = (case m_type msg of
     AssociationSetupRequest \<Rightarrow>
       (Some ((bare_msg AssociationSetupResponse None (m_seq msg))\<lparr>ie_cause := [RequestAccepted],
          ie_node_id := [Some node_ip], ie_recovery := [Some (recovery_time st)]\<rparr>), st)
   | HeartbeatRequest \<Rightarrow>
       (Some ((bare_msg HeartbeatResponse None (m_seq msg))\<lparr>ie_recovery := [Some (recovery_time st)]\<rparr>), st)
   | SessionEstablishmentRequest \<Rightarrow> handle_establishment L msg node_ip st now peer
   | SessionModificationRequest \<Rightarrow> handle_modification msg st now peer
   | SessionDeletionRequest \<Rightarrow> handle_deletion msg st peer
   | _ \<Rightarrow> (None, st))"

definition handle_n4_from ::
  "pfcp_lib \<Rightarrow> bytes \<Rightarrow> u32 \<Rightarrow> upf_state \<Rightarrow> u64 \<Rightarrow> ip_addr option \<Rightarrow> bytes option \<times> upf_state" where
  "handle_n4_from L data node_ip st now peer = (case lib_parse L data of
     None \<Rightarrow> (None, st)
   | Some msg \<Rightarrow> (case handle_msg L msg node_ip st now peer of (resp, st') \<Rightarrow> (map_option (lib_marshal L) resp, st')))"

definition handle_n4 :: "pfcp_lib \<Rightarrow> bytes \<Rightarrow> u32 \<Rightarrow> upf_state \<Rightarrow> u64 \<Rightarrow> bytes option \<times> upf_state" where
  "handle_n4 L data node_ip st now = handle_n4_from L data node_ip st now None"

subsection \<open>Reports initiated by the UPF\<close>

definition session_report_request_dldr_msg :: "u64 \<Rightarrow> u32 \<Rightarrow> pfcp_msg" where
  "session_report_request_dldr_msg cp seq =
    (bare_msg SessionReportRequest (Some cp) seq)\<lparr>ie_report_type := [Some \<lparr>rt_dldr = True, rt_usar = False\<rparr>]\<rparr>"

definition session_report_request_msg :: "due_report \<Rightarrow> u32 \<Rightarrow> pfcp_msg" where
  "session_report_request_msg due seq =
    (bare_msg SessionReportRequest (Some (dr_cp_seid due)) seq)
      \<lparr>ie_report_type := [Some \<lparr>rt_dldr = False, rt_usar = True\<rparr>],
       ie_usage_srr := [Some (usage_report_for (dr_usage due) 1 0x02)]\<rparr>"

definition session_report_response_msg :: "u64 \<Rightarrow> u32 \<Rightarrow> pfcp_msg" where
  "session_report_response_msg up seq =
    (bare_msg SessionReportResponse (Some up) seq)\<lparr>ie_cause := [RequestAccepted]\<rparr>"

subsection \<open>What the SMF reads\<close>

definition parse_recovery_timestamp :: "pfcp_lib \<Rightarrow> bytes \<Rightarrow> nat option" where
  "parse_recovery_timestamp L data = (case lib_parse L data of
     None \<Rightarrow> None | Some m \<Rightarrow> (case ie_recovery m of [] \<Rightarrow> None | r # _ \<Rightarrow> r))"

definition parse_dl_data_report :: "pfcp_lib \<Rightarrow> bytes \<Rightarrow> (u64 \<times> u32) option" where
  "parse_dl_data_report L data = (case lib_parse L data of
     None \<Rightarrow> None
   | Some m \<Rightarrow>
       (if m_type m \<noteq> SessionReportRequest then None
        else (case ie_report_type m of
          Some rt # _ \<Rightarrow> if rt_dldr rt then map_option (\<lambda>s. (s, m_seq m)) (m_seid m) else None
        | _ \<Rightarrow> None)))"

definition parse_session_report_request :: "pfcp_lib \<Rightarrow> bytes \<Rightarrow> (u64 \<times> u32 \<times> usage_volume) option" where
  "parse_session_report_request L data = (case lib_parse L data of
     None \<Rightarrow> None
   | Some m \<Rightarrow>
       (if m_type m \<noteq> SessionReportRequest then None
        else (case m_seid m of None \<Rightarrow> None | Some cp \<Rightarrow>
          (case ie_usage_srr m of
             Some r # _ \<Rightarrow> map_option (\<lambda>u. (cp, m_seq m, u)) (usage_volume_from r)
           | _ \<Rightarrow> None))))"

definition is_session_report_ack :: "pfcp_lib \<Rightarrow> bytes \<Rightarrow> bool" where
  "is_session_report_ack L data = (case lib_parse L data of None \<Rightarrow> False | Some m \<Rightarrow> m_type m = SessionReportResponse)"

record established_session =
  es_up_seid :: u64
  es_n3_teid :: u32
  es_n3_addr :: u32
  es_dl_ingress :: "(u32 \<times> u32) option"

definition parse_session_establishment_response :: "pfcp_lib \<Rightarrow> bytes \<Rightarrow> established_session option" where
  "parse_session_establishment_response L data = (case lib_parse L data of
     None \<Rightarrow> None
   | Some m \<Rightarrow>
       (if m_type m \<noteq> SessionEstablishmentResponse then None
        else (case ie_fseid m of
          Some (up, _) # _ \<Rightarrow>
            (let created = decoded (ie_created_pdr m);
                 chosen = (case find (\<lambda>p. cd_pdr_id p = 1) created of
                    Some p \<Rightarrow> Some p | None \<Rightarrow> (case created of [] \<Rightarrow> None | p # _ \<Rightarrow> Some p));
                 dl = Option.bind (find (\<lambda>p. cd_pdr_id p = DOWNLINK_PDR_ID) created)
                        (\<lambda>p. map_option (Pair (ft_teid (cd_f_teid p))) (ft_ipv4 (cd_f_teid p)))
             in case chosen of
                  None \<Rightarrow> None
                | Some p \<Rightarrow> map_option (\<lambda>a. \<lparr>es_up_seid = up, es_n3_teid = ft_teid (cd_f_teid p), es_n3_addr = a,
                      es_dl_ingress = dl\<rparr>) (ft_ipv4 (cd_f_teid p)))
        | _ \<Rightarrow> None)))"

definition sequence_of :: "pfcp_lib \<Rightarrow> bytes \<Rightarrow> u32 option" where
  "sequence_of L data = map_option m_seq (lib_parse L data)"

definition response_accepted :: "pfcp_lib \<Rightarrow> bytes \<Rightarrow> bool" where
  "response_accepted L data = (case lib_parse L data of
     None \<Rightarrow> False | Some m \<Rightarrow> (case ie_cause m of [] \<Rightarrow> False | c # _ \<Rightarrow> c = RequestAccepted))"

text \<open>Usage reports have an element type of their own in each kind of message.\<close>

definition usages_from_deletion_response :: "pfcp_lib \<Rightarrow> bytes \<Rightarrow> usage_volume list" where
  "usages_from_deletion_response L data = (case lib_parse L data of
     None \<Rightarrow> [] | Some m \<Rightarrow> List.map_filter usage_volume_from (decoded (ie_usage_del m)))"

definition usages_from_modification_response :: "pfcp_lib \<Rightarrow> bytes \<Rightarrow> usage_volume list" where
  "usages_from_modification_response L data = (case lib_parse L data of
     None \<Rightarrow> [] | Some m \<Rightarrow> List.map_filter usage_volume_from (decoded (ie_usage_mod m)))"

definition usage_from_deletion_response :: "pfcp_lib \<Rightarrow> bytes \<Rightarrow> (u64 \<times> u64 \<times> u64) option" where
  "usage_from_deletion_response L data =
     map_option (\<lambda>u. (total u, uv_uplink u, uv_downlink u))
       (find (\<lambda>u. urr_id u = SESSION_URR_ID) (usages_from_deletion_response L data))"

subsection \<open>A modification touches one session\<close>

definition state_only :: "u64 \<Rightarrow> (upf_state \<Rightarrow> upf_state) \<Rightarrow> bool" where
  "state_only k g = (\<forall>st. (\<forall>k'. k' \<noteq> k \<longrightarrow> get_session (g st) k' = get_session st k')
     \<and> map fst (sessions (g st)) = map fst (sessions st)
     \<and> next_seid (g st) = next_seid st \<and> next_teid (g st) = next_teid st
     \<and> max_sessions (g st) = max_sessions st \<and> recovery_time (g st) = recovery_time st)"

named_theorems only_intros \<open>operations that touch one session only\<close>

lemma state_only_update [only_intros]: "state_only k (update_session k f)"
  by (auto simp: state_only_def get_session_def update_session_def tab.onlyD[OF tab.only_upd])

lemma state_only_comp: "state_only k g \<Longrightarrow> state_only k h \<Longrightarrow> state_only k (\<lambda>st. h (g st))"
  by (simp add: state_only_def)

lemma state_only_id [only_intros]: "state_only k (\<lambda>st. st)"
  by (simp add: state_only_def)

lemma state_only_foldl: "(\<And>x. state_only k (\<lambda>st. g st x)) \<Longrightarrow> state_only k (\<lambda>st. foldl g st xs)"
  by (induction xs) (simp_all add: state_only_def)

lemma state_only_cases:
  assumes "\<And>st. g st = st \<or> (\<exists>h. state_only k h \<and> g st = h st)"
  shows "state_only k g"
  unfolding state_only_def
proof
  fix st
  from assms[of st] show "(\<forall>k'. k' \<noteq> k \<longrightarrow> get_session (g st) k' = get_session st k')
     \<and> map fst (sessions (g st)) = map fst (sessions st)
     \<and> next_seid (g st) = next_seid st \<and> next_teid (g st) = next_teid st
     \<and> max_sessions (g st) = max_sessions st \<and> recovery_time (g st) = recovery_time st"
    by (auto simp: state_only_def)
qed

lemma state_only_set_downlink [only_intros]: "state_only k (\<lambda>st. snd (set_downlink st k t ip em))"
proof -
  have u: "table_get (table_update k f tbl) k' = table_get tbl k'" if "k' \<noteq> k" for f tbl k'
    using that by (rule tab.onlyD[OF tab.only_upd])
  show ?thesis
    unfolding state_only_def
    by (auto simp: set_downlink_def Let_def update_session_def get_session_def u split: option.splits)
qed

lemma state_only_ops [only_intros]:
  "state_only k (\<lambda>st. snd (clear_downlink st k))" "state_only k (\<lambda>st. snd (set_ambr st k a now))"
  by (rule state_only_cases; auto simp: clear_downlink_def set_ambr_def split: option.split intro: state_only_update)+

lemma state_only_flow_ops [only_intros]:
  "state_only k (\<lambda>st. add_flow st k f now)" "state_only k (\<lambda>st. remove_flow st k qfi)"
  "state_only k (\<lambda>st. update_flow_rate st k qfi d u now)" "state_only k (\<lambda>st. set_flow_gate st k qfi g)"
  "state_only k (\<lambda>st. add_branch st k i flt e)" "state_only k (\<lambda>st. remove_branch st k i)"
  unfolding add_flow_def remove_flow_def update_flow_rate_def set_flow_gate_def add_branch_def remove_branch_def
  by (rule state_only_update)+

lemma state_only_update_far: "state_only k (apply_update_far msg k)"
proof (cases "find (\<lambda>uf. uf_far_id uf = DOWNLINK_FAR_ID \<and> (uf_params uf \<noteq> None \<or> uf_action uf \<noteq> None))
    (decoded (ie_update_far msg))")
  case None
  then have "apply_update_far msg k = (\<lambda>st. st)" by (intro ext) (simp add: apply_update_far_def)
  then show ?thesis by (simp add: only_intros)
next
  case (Some uf)
  note uf = this
  show ?thesis
  proof (cases "Option.bind (Option.bind (uf_params uf) fp_ohc) ohc_target")
    case (Some ti)
    then have "apply_update_far msg k = (\<lambda>st. snd (set_downlink st k (fst ti) (snd ti) (wants_end_marker msg)))"
      using uf by (intro ext) (simp add: apply_update_far_def case_prod_beta)
    then show ?thesis by (simp add: only_intros)
  next
    case None
    have "apply_update_far msg k = (\<lambda>st. st) \<or> apply_update_far msg k = (\<lambda>st. snd (clear_downlink st k))"
    proof (cases "\<exists>a. uf_action uf = Some a \<and> (aa_buff a \<or> aa_drop a)")
      case True
      with None uf have "apply_update_far msg k = (\<lambda>st. snd (clear_downlink st k))"
        by (intro ext) (auto simp: apply_update_far_def)
      then show ?thesis ..
    next
      case False
      with None uf have "apply_update_far msg k = (\<lambda>st. st)"
        by (intro ext) (auto simp: apply_update_far_def split: option.split)
      then show ?thesis ..
    qed
    then show ?thesis by (auto simp: only_intros)
  qed
qed

lemma state_only_update_qer: "state_only k (\<lambda>st. apply_update_qer k now st uq)"
proof -
  have two: "state_only k (\<lambda>st. set_flow_gate (update_flow_rate st k q d u now) k q g)" for q d u g
    by (rule state_only_comp) (rule only_intros)+
  show ?thesis
    unfolding apply_update_qer_def Let_def
    by (cases "uq_mbr uq"; cases "uq_gate uq"; cases "uq_qer_id uq = AMBR_QER_ID") (simp_all add: only_intros two)
qed

lemma state_only_modification: "state_only k (apply_modification msg k now)"
proof -
  have r: "state_only k (\<lambda>st. foldl (apply_remove_qer k) st xs)" for xs
  proof (rule state_only_foldl)
    show "state_only k (\<lambda>st. apply_remove_qer k st q)" for q
      by (cases "q = AMBR_QER_ID") (simp_all add: apply_remove_qer_def only_intros)
  qed
  have f: "state_only k (\<lambda>st. foldl (\<lambda>st f. add_flow st k f now) st xs)" for xs
    by (rule state_only_foldl) (rule only_intros)
  have u: "state_only k (\<lambda>st. foldl (apply_update_qer k now) st xs)" for xs
    by (rule state_only_foldl) (rule state_only_update_qer)
  have d: "state_only k (\<lambda>st. foldl (\<lambda>st i. remove_branch st k i) st xs)" for xs
    by (rule state_only_foldl) (rule only_intros)
  have b: "state_only k (\<lambda>st. foldl (\<lambda>st (i, flt, e). add_branch st k i flt e) st xs)" for xs
  proof (rule state_only_foldl)
    show "state_only k (\<lambda>st. case x of (i, flt, e) \<Rightarrow> add_branch st k i flt e)" for x
      by (cases x) (simp add: only_intros)
  qed
  show ?thesis
    unfolding apply_modification_def [abs_def] Let_def
    using state_only_comp[OF state_only_comp[OF state_only_comp[OF state_only_comp[OF
          state_only_comp[OF state_only_update_far r] f] u] d] b] .
qed

subsection \<open>Sessions answer only to the address that established them\<close>

lemma get_session_establish:
  "get_session (snd (establish st a now)) k = (if k = next_seid st
     then Some (new_session a now (next_teid st) (if ea_wants_dl_ingress a then Some (next_teid st + 1) else None))
     else get_session st k)"
  by (auto simp: establish_def Let_def get_session_def tab.get_put)

lemma next_seid_establish [simp]: "next_seid (snd (establish st a now)) = next_seid st + 1"
  by (simp add: establish_def Let_def)

lemma get_session_remove: "get_session (snd (remove st k)) k' = (if k = k' then None else get_session st k')"
  by (simp add: remove_def get_session_def tab.get_del)

lemma session_peer_get: "get_session st' k = get_session st k \<Longrightarrow> session_peer st' k = session_peer st k"
  by (simp add: session_peer_def)

lemma handle_establishment_cases:
  "snd (handle_establishment L msg node_ip st now peer) = st
   \<or> (\<exists>a. session_count st < max_sessions st \<and> snd (handle_establishment L msg node_ip st now peer) = snd (establish st a now))"
  by (auto simp: handle_establishment_def not_le split: list.splits option.splits prod.splits if_splits) (metis snd_conv)+

lemma handle_modification_cases:
  "snd (handle_modification msg st now peer) = st
   \<or> (\<exists>k. m_seid msg = Some k \<and> \<not> foreign_peer peer st k
        \<and> snd (handle_modification msg st now peer) = apply_modification msg k now st)"
  by (auto simp: handle_modification_def Let_def split: option.splits)

lemma handle_deletion_cases:
  "snd (handle_deletion msg st peer) = st
   \<or> (\<exists>k. m_seid msg = Some k \<and> \<not> foreign_peer peer st k \<and> snd (handle_deletion msg st peer) = snd (remove st k))"
  by (auto simp: handle_deletion_def split: option.splits prod.splits)

text \<open>What one message can do to the state.\<close>

lemma handle_msg_cases:
  obtains (Same) "snd (handle_msg L msg node_ip st now peer) = st"
  | (Est) a where "session_count st < max_sessions st" "snd (handle_msg L msg node_ip st now peer) = snd (establish st a now)"
  | (Mod) k where "\<not> foreign_peer peer st k" "snd (handle_msg L msg node_ip st now peer) = apply_modification msg k now st"
  | (Del) k where "\<not> foreign_peer peer st k" "snd (handle_msg L msg node_ip st now peer) = snd (remove st k)"
  using handle_establishment_cases[of L msg node_ip st now peer] handle_modification_cases[of msg st now peer]
    handle_deletion_cases[of msg st peer]
  by (cases "m_type msg") (auto simp: handle_msg_def)

lemma n4_state: "snd (handle_n4_from L data node_ip st now peer)
    = (case lib_parse L data of None \<Rightarrow> st | Some msg \<Rightarrow> snd (handle_msg L msg node_ip st now peer))"
  by (simp add: handle_n4_from_def split: option.split prod.split)

lemma foreign_step:
  assumes "session_peer st k = Some b" "x \<noteq> b" "unat k < unat (next_seid st)"
  shows "get_session (snd (handle_msg L msg node_ip st now (Some x))) k = get_session st k
    \<and> (next_seid (snd (handle_msg L msg node_ip st now (Some x))) = next_seid st
       \<or> next_seid (snd (handle_msg L msg node_ip st now (Some x))) = next_seid st + 1)"
proof (cases rule: handle_msg_cases[of L msg node_ip st now "Some x"])
  case Same
  then show ?thesis by simp
next
  case (Est a)
  then show ?thesis using assms(3) by (auto simp: get_session_establish)
next
  case (Mod j)
  then have "j \<noteq> k" using assms(1,2) by (auto simp: foreign_peer_def)
  then show ?thesis using Mod(2) state_only_modification[of j msg now] by (auto simp: state_only_def)
next
  case (Del j)
  then have "j \<noteq> k" using assms(1,2) by (auto simp: foreign_peer_def)
  then show ?thesis using Del(2) by (simp add: get_session_remove) (simp add: remove_def)
qed

text \<open>A run of N4 datagrams, each with its receive time and source address.\<close>

fun n4_run :: "pfcp_lib \<Rightarrow> u32 \<Rightarrow> upf_state \<Rightarrow> (bytes \<times> u64 \<times> ip_addr) list \<Rightarrow> upf_state" where
  "n4_run L node_ip st [] = st"
| "n4_run L node_ip st ((data, now, src) # ds) = n4_run L node_ip (snd (handle_n4_from L data node_ip st now (Some src))) ds"

text \<open>C3: source binding. A session bound to one SMF address is left exactly as it is, tunnel, flows,
  counters and all, by any run of datagrams from other addresses, whatever they contain, and
  a modification or deletion that names it is answered with a rejection.\<close>

theorem foreign_datagrams_change_nothing:
  assumes "session_peer st k = Some b" "\<forall>(data, now, src)\<in>set ds. src \<noteq> b"
    and "unat k < unat (next_seid st)" "unat (next_seid st) + length ds < 2 ^ 64"
  shows "get_session (n4_run L node_ip st ds) k = get_session st k
    \<and> (\<forall>msg src now. src \<noteq> b \<and> m_seid msg = Some k \<and> m_type msg \<in> {SessionModificationRequest, SessionDeletionRequest}
         \<longrightarrow> map_option ie_cause (fst (handle_msg L msg node_ip st now (Some src))) = Some [RequestRejected])"
proof
  show "get_session (n4_run L node_ip st ds) k = get_session st k"
    using assms
  proof (induction L node_ip st ds rule: n4_run.induct)
    case (1 L node_ip st)
    then show ?case by simp
  next
    case (2 L node_ip st data now src ds)
    let ?st = "snd (handle_n4_from L data node_ip st now (Some src))"
    have step: "get_session ?st k = get_session st k \<and> (next_seid ?st = next_seid st \<or> next_seid ?st = next_seid st + 1)"
      using foreign_step[of st k b src L _ node_ip now] 2(2-4) by (auto simp: n4_state split: option.split)
    have seid: "unat (next_seid st) \<le> unat (next_seid ?st)" "unat (next_seid ?st) \<le> unat (next_seid st) + 1"
      using step 2(5) by (auto simp: unat_plus1)
    have "get_session (n4_run L node_ip ?st ds) k = get_session ?st k"
      using 2(2-5) step seid session_peer_get[of ?st k st] by (intro 2(1)) auto
    then show ?case using step by simp
  qed
  show "\<forall>msg src now. src \<noteq> b \<and> m_seid msg = Some k \<and> m_type msg \<in> {SessionModificationRequest, SessionDeletionRequest}
      \<longrightarrow> map_option ie_cause (fst (handle_msg L msg node_ip st now (Some src))) = Some [RequestRejected]"
    using assms(1) by (auto simp: handle_msg_def handle_modification_def handle_deletion_def foreign_peer_def)
qed

subsection \<open>The table is bounded\<close>

lemma count_modification: "session_count (apply_modification msg k now st) = session_count st
    \<and> max_sessions (apply_modification msg k now st) = max_sessions st"
  using state_only_modification[of k msg now]
  by (auto simp: state_only_def session_count_def dest!: spec[of _ st] arg_cong[of "map fst _" _ length])

lemma handle_msg_bounded:
  assumes "session_count st \<le> max_sessions st"
  shows "session_count (snd (handle_msg L msg node_ip st now peer)) \<le> max_sessions st
    \<and> max_sessions (snd (handle_msg L msg node_ip st now peer)) = max_sessions st
    \<and> recovery_time (snd (handle_msg L msg node_ip st now peer)) = recovery_time st"
proof (cases rule: handle_msg_cases[of L msg node_ip st now peer])
  case Same
  then show ?thesis using assms by simp
next
  case (Est a)
  then show ?thesis by (auto simp: establish_def Let_def session_count_def table_insert_def)
next
  case (Mod j)
  then show ?thesis using assms count_modification[of msg j now st] state_only_modification[of j msg now]
    by (simp add: state_only_def)
next
  case (Del j)
  have "length (table_remove j (sessions st)) \<le> length (sessions st)" by (simp add: table_remove_def)
  then show ?thesis using Del(2) assms by (simp add: remove_def session_count_def)
qed

lemma n4_run_bounded:
  "session_count st \<le> max_sessions st \<Longrightarrow>
    session_count (n4_run L node_ip st ds) \<le> max_sessions st \<and> max_sessions (n4_run L node_ip st ds) = max_sessions st
    \<and> recovery_time (n4_run L node_ip st ds) = recovery_time st"
proof (induction L node_ip st ds rule: n4_run.induct)
  case (1 L node_ip st)
  then show ?case by simp
next
  case (2 L node_ip st data now src ds)
  have "session_count (snd (handle_n4_from L data node_ip st now (Some src))) \<le> max_sessions st
      \<and> max_sessions (snd (handle_n4_from L data node_ip st now (Some src))) = max_sessions st
      \<and> recovery_time (snd (handle_n4_from L data node_ip st now (Some src))) = recovery_time st"
    using handle_msg_bounded[OF 2(2), of L _ node_ip now "Some src"] 2(2)
    by (auto simp: n4_state split: option.split)
  then show ?case using 2(1) by simp
qed

text \<open>The session table is bounded and the node identity is stable. No run of N4 datagrams makes
  the table exceed its ceiling (at the ceiling an establishment is answered with
  NoResourcesAvailable and changes nothing), and the recovery time stamp that association and
  heartbeat responses carry is the one the node started with.\<close>

theorem n4_table_bounded:
  assumes "session_count st \<le> max_sessions st" "st' = n4_run L node_ip st ds"
  shows "session_count st' \<le> max_sessions st
    \<and> (session_count st' = max_sessions st \<longrightarrow> m_type msg = SessionEstablishmentRequest \<longrightarrow>
        snd (handle_msg L msg node_ip st' now peer) = st'
        \<and> (\<forall>r. fst (handle_msg L msg node_ip st' now peer) = Some r \<longrightarrow> ie_cause r = [NoResourcesAvailable]))
    \<and> (m_type msg = HeartbeatRequest \<longrightarrow>
        map_option ie_recovery (fst (handle_msg L msg node_ip st' now peer)) = Some [Some (recovery_time st)])"
  using n4_run_bounded[OF assms(1), of L node_ip ds] assms(2)
  by (auto simp: handle_msg_def handle_establishment_def fallible_def split: list.splits option.splits if_splits)

subsection \<open>What the SMF asks for is what the UPF holds\<close>

lemma unat_qer_id: "unat (PER_FLOW_QER_BASE + ucast (q :: u8)) = 1000 + unat q"
  using unat_octet_le[of q] by (simp add: PER_FLOW_QER_BASE_def unat_word_ariths unsigned_ucast_eq take_bit_eq_mod)

lemma unat_flow_pdr_id: "unat (PER_FLOW_PDR_BASE + ucast (q :: u8)) = 100 + unat q"
  using unat_octet_le[of q] by (simp add: PER_FLOW_PDR_BASE_def unat_word_ariths unsigned_ucast_eq take_bit_eq_mod)

lemma qfi_of_flow_qer [simp]: "qfi_of_qer (PER_FLOW_QER_BASE + ucast q) = q"
proof (rule word_unat_eq_iff[THEN iffD2])
  have "unat (saturating_sub (PER_FLOW_QER_BASE + ucast q) PER_FLOW_QER_BASE :: u32) = unat q"
    by (simp add: unat_saturating_sub unat_qer_id) (simp add: PER_FLOW_QER_BASE_def)
  then show "unat (qfi_of_qer (PER_FLOW_QER_BASE + ucast q)) = unat q"
    using unat_octet_le[of q] by (simp add: qfi_of_qer_def unsigned_ucast_eq take_bit_eq_mod)
qed

lemma flow_qer_id_inj: "PER_FLOW_QER_BASE + ucast (q :: u8) = PER_FLOW_QER_BASE + ucast q' \<longleftrightarrow> q = q'"
  by (metis qfi_of_flow_qer)

lemma flow_qer_id_not_ambr: "PER_FLOW_QER_BASE + ucast (q :: u8) \<noteq> AMBR_QER_ID"
proof
  assume "PER_FLOW_QER_BASE + ucast q = AMBR_QER_ID"
  then have "1000 + unat q = unat AMBR_QER_ID" using unat_qer_id[of q] by simp
  then show False by (simp add: AMBR_QER_ID_def)
qed

lemma flow_pdr_id_bounds: "PER_FLOW_PDR_BASE + ucast (q :: u8) \<noteq> DOWNLINK_PDR_ID"
    "\<not> ULCL_PDR_BASE \<le> PER_FLOW_PDR_BASE + ucast (q :: u8)"
  using unat_flow_pdr_id[of q] unat_octet_le[of q]
  by (auto simp: word_unat_eq_iff word_le_nat_alt DOWNLINK_PDR_ID_def ULCL_PDR_BASE_def)

lemma collect_map_suffix:
  assumes "distinct (map fst B)" "(k, v) \<in> set B"
  shows "collect_map (A @ B) k = Some v"
proof -
  have "map_of (rev B) k = Some v" using assms by (simp add: rev_map[symmetric])
  then show ?thesis by (simp add: collect_map_def map_add_def)
qed

lemma parse_created_flows_request:
  assumes "lib_ok L" "distinct (map fq_qfi flows)"
    and q: "decoded (ie_create_qer m) = Q @ map (\<lambda>f. fst (flow_create_ies L f)) flows"
    and p: "decoded (ie_create_pdr m) = P @ map (\<lambda>f. fst (snd (flow_create_ies L f))) flows"
    and plain: "\<forall>pdr\<in>set P. pdi_sdf_filter (cp_pdi pdr) = None"
  shows "parse_created_flows m = flows"
proof -
  define entry where "entry = (\<lambda>q :: create_qer. map_option (\<lambda>mb. (cq_qer_id q, mb,
      case cq_gate q of None \<Rightarrow> OPEN | Some gs \<Rightarrow> from_gate_status gs)) (cq_mbr q))"
  define kv where "kv = (\<lambda>f :: flow_qer. (PER_FLOW_QER_BASE + ucast (fq_qfi f) :: u32,
      \<lparr>mbr_uplink = fq_mfbr_ul_bps f, mbr_downlink = fq_mfbr_dl_bps f\<rparr>, fq_gate f))"
  have e: "entry (fst (flow_create_ies L f)) = Some (kv f)" for f
  proof -
    let ?r = "lib_rate_limit L (PER_FLOW_QER_BASE + ucast (fq_qfi f)) (fq_mfbr_ul_bps f) (fq_mfbr_dl_bps f)"
    have "cq_qer_id ?r = PER_FLOW_QER_BASE + ucast (fq_qfi f)"
        "cq_mbr ?r = Some \<lparr>mbr_uplink = fq_mfbr_ul_bps f, mbr_downlink = fq_mfbr_dl_bps f\<rparr>"
        "map_option from_gate_status (cq_gate ?r) \<in> {None, Some OPEN}"
      using assms(1) unfolding lib_ok_def by blast+
    then show ?thesis
      using unrestricted_is_open[of "fq_gate f"]
      by (auto simp: entry_def kv_def flow_create_ies_def Let_def split: option.split)
  qed
  have entries: "List.map_filter entry (decoded (ie_create_qer m)) = List.map_filter entry Q @ map kv flows"
    unfolding q by (simp only: map_filter_append map_filter_map_Some[of flows entry, OF e])
  have dist: "distinct (map fst (map kv flows))"
    using assms(2) by (simp add: kv_def comp_def distinct_map inj_on_def flow_qer_id_inj[simplified])
  have look: "collect_map (List.map_filter entry (decoded (ie_create_qer m))) (PER_FLOW_QER_BASE + ucast (fq_qfi f))
      = Some (\<lparr>mbr_uplink = fq_mfbr_ul_bps f, mbr_downlink = fq_mfbr_dl_bps f\<rparr>, fq_gate f)" if "f \<in> set flows" for f
    unfolding entries using dist by (rule collect_map_suffix) (use that in \<open>force simp: kv_def\<close>)
  show ?thesis
    unfolding parse_created_flows_def Let_def entry_def[symmetric] p map_filter_append
    by (subst map_filter_none, use plain in \<open>simp split: option.split\<close>,
        subst map_filter_map_Some[where h = "\<lambda>f. f"],
        use look in \<open>simp add: flow_create_ies_def Let_def flow_description_text\<close>, simp)
qed

lemma expect_travels: "travels L m \<Longrightarrow> expect_marshal L m = Some (lib_marshal L m)"
  by (simp add: travels_def expect_marshal_def)

lemma n4_travels:
  "travels L m \<Longrightarrow> handle_msg L m node_ip st now peer = (r, st') \<Longrightarrow>
    handle_n4_from L (lib_marshal L m) node_ip st now peer = (map_option (lib_marshal L) r, st')"
  by (simp add: travels_def handle_n4_from_def)

lemma establishment_response_read:
  assumes "lib_ok L" "travels L (establishment_accepted L cp seq node_ip up teid dl)"
  defines "resp \<equiv> lib_marshal L (establishment_accepted L cp seq node_ip up teid dl)"
  shows "parse_session_establishment_response L resp = Some \<lparr>es_up_seid = up, es_n3_teid = teid, es_n3_addr = node_ip,
      es_dl_ingress = map_option (\<lambda>t. (t, node_ip)) dl\<rparr>"
    and "response_accepted L resp" and "sequence_of L resp = Some seq"
proof -
  have p: "lib_parse L resp = Some (establishment_accepted L cp seq node_ip up teid dl)"
    using assms(2) by (simp add: travels_def resp_def)
  have f: "ft_teid (lib_fteid_ipv4 L t a) = t" "ft_ipv4 (lib_fteid_ipv4 L t a) = Some a" for t a
    using assms(1) by (auto simp: lib_ok_def)
  show "parse_session_establishment_response L resp = Some \<lparr>es_up_seid = up, es_n3_teid = teid, es_n3_addr = node_ip,
      es_dl_ingress = map_option (\<lambda>t. (t, node_ip)) dl\<rparr>"
    by (cases dl) (simp_all add: parse_session_establishment_response_def p establishment_accepted_def bare_msg_def
        f DOWNLINK_PDR_ID_def)
  show "response_accepted L resp" "sequence_of L resp = Some seq"
    by (simp_all add: response_accepted_def sequence_of_def p establishment_accepted_def bare_msg_def)
qed

lemma establish_handled:
  assumes "session_count st < max_sessions st" "m_type m = SessionEstablishmentRequest" "ie_fseid m = [Some (cp, x)]"
    and "dl = (if requested_dl_ingress m then Some (next_teid st + 1) else None)"
    and "lib_build_ok L (establishment_accepted L cp (m_seq m) node_ip (next_seid st) (next_teid st) dl)"
  shows "handle_msg L m node_ip st now peer
    = (Some (establishment_accepted L cp (m_seq m) node_ip (next_seid st) (next_teid st) dl),
       snd (establish st (requested_args m cp peer) now))"
  using assms by (simp add: handle_msg_def handle_establishment_def fallible_def establish_def Let_def requested_args_def)

lemma establish_lookup:
  assumes "upf_wf st" "room_for st"
  shows "find_session (owns_teid (next_teid st)) (snd (establish st a now))
    = Some (new_session a now (next_teid st) (if ea_wants_dl_ingress a then Some (next_teid st + 1) else None))"
proof -
  let ?st = "snd (establish st a now)"
  let ?s = "new_session a now (next_teid st) (if ea_wants_dl_ingress a then Some (next_teid st + 1) else None)"
  have "get_session ?st (next_seid st) = Some ?s" by (simp add: get_session_establish)
  moreover have "owns_teid (next_teid st) ?s" by (simp add: owns_teid_def new_session_def)
  ultimately have "\<exists>k. get_session ?st k = Some ?s \<and> owns_teid (next_teid st) ?s" by blast
  moreover have "find (owns_teid (next_teid st)) (map snd (sessions ?st)) = Some ?s
      \<longleftrightarrow> (\<exists>k. get_session ?st k = Some ?s \<and> owns_teid (next_teid st) ?s)"
    by (rule find_owner[OF establish_wf[OF assms] refl, where t = "next_teid st"])
      (simp add: owns_teid_def owner_teids)
  ultimately show ?thesis by (simp only: find_session_def)
qed

text \<open>The arguments the UPF reads back from an anchor's establishment request.\<close>

lemma requested_anchor:
  assumes "lib_ok L" "distinct (map fq_qfi (ep_flows p))"
  shows "requested_args (session_establishment_request_msg L p) cp peer = \<lparr>ea_cp_seid = cp, ea_peer = peer,
      ea_ue = ep_ue p, ea_ambr = ep_ambr p, ea_flows = ep_flows p, ea_usage_threshold = ep_threshold p,
      ea_uplink = ToN6, ea_branches = [], ea_wants_dl_ingress = False\<rparr>"
proof -
  let ?m = "session_establishment_request_msg L p"
  have pdi: "pdi_f_teid (lib_downlink_core_ue L ue) = None" "pdi_ue_ip (lib_downlink_core_ue L ue) = Some ue"
      "pdi_sdf_filter (lib_downlink_core_ue L ue) = None" "pdi_ue_ip (lib_uplink_access L) = None"
      "pdi_sdf_filter (lib_uplink_access L) = None" for ue
    using assms(1) by (auto simp: lib_ok_def)
  have far: "cf_far_id (lib_forward_to_network L i f n) = i"
      "Option.bind (cf_params (lib_forward_to_network L i f n)) fp_ohc = None" for i f n
    using assms(1) by (auto simp: lib_ok_def)
  have rate: "cq_qer_id (lib_rate_limit L i u d) = i"
      "cq_mbr (lib_rate_limit L i u d) = Some \<lparr>mbr_uplink = u, mbr_downlink = d\<rparr>" for i u d
    using assms(1) by (auto simp: lib_ok_def)
  note m = session_establishment_request_msg_def Let_def bare_msg_def
  have flows: "parse_created_flows ?m = ep_flows p"
    by (rule parse_created_flows_request[OF assms])
      (auto simp: m case_prod_beta comp_def pdi)
  have ue: "requested_ue ?m = ep_ue p" by (simp add: requested_ue_def m pdi)
  have ambr: "requested_ambr ?m = ep_ambr p"
  proof (cases "ep_ambr p")
    case None
    have "find (\<lambda>q. cq_qer_id q = AMBR_QER_ID) (map (\<lambda>f. fst (flow_create_ies L f)) (ep_flows p)) = None"
      by (auto simp: find_None_iff flow_create_ies_def Let_def rate flow_qer_id_not_ambr[simplified])
    then show ?thesis using None by (simp add: requested_ambr_def m case_prod_beta comp_def)
  qed (simp add: requested_ambr_def m rate)
  have th: "requested_threshold ?m = ep_threshold p"
    by (cases "ep_threshold p") (simp_all add: requested_threshold_def m)
  have ul: "requested_uplink ?m = ToN6"
    by (simp add: requested_uplink_def m far UPLINK_FAR_ID_def far_egress_def)
  have dl: "\<not> requested_dl_ingress ?m"
    by (auto simp: requested_dl_ingress_def m list_ex_iff pdi DOWNLINK_PDR_ID_def case_prod_beta comp_def flow_create_ies_def
        flow_pdr_id_bounds(1)[unfolded DOWNLINK_PDR_ID_def, simplified])
  have br: "parse_branches ?m = []"
  proof -
    have "filter (\<lambda>pdr. ULCL_PDR_BASE \<le> cp_pdr_id pdr) (decoded (ie_create_pdr ?m)) = []"
      using flow_pdr_id_bounds(2)
      by (auto simp: m filter_empty_conv case_prod_beta comp_def flow_create_ies_def word_le_nat_alt ULCL_PDR_BASE_def)
    then show ?thesis by (simp add: parse_branches_def List.map_filter_def)
  qed
  show ?thesis by (simp add: requested_args_def flows ue ambr th ul dl br)
qed

lemma establishment_installs:
  assumes "lib_ok L" "upf_reachable st" "room_for st" "session_count st < max_sessions st"
    and "distinct (map fq_qfi (ep_flows p))"
    and "travels L (session_establishment_request_msg L p)"
    and "travels L (establishment_accepted L (ep_cp_seid p) (ep_seq p) node_ip (next_seid st) (next_teid st) None)"
  shows "\<exists>data resp st' s. session_establishment_request L p = Some data
    \<and> handle_n4_from L data node_ip st now peer = (Some resp, st')
    \<and> response_accepted L resp \<and> sequence_of L resp = Some (ep_seq p)
    \<and> parse_session_establishment_response L resp = Some \<lparr>es_up_seid = next_seid st, es_n3_teid = next_teid st,
         es_n3_addr = node_ip, es_dl_ingress = None\<rparr>
    \<and> get_session st' (next_seid st) = Some s \<and> find_session (owns_teid (next_teid st)) st' = Some s
    \<and> ue_ip s = ua_v4 (ep_ue p) \<and> ue_ipv6 s = ua_v6 (ep_ue p) \<and> ambr s = ep_ambr p
    \<and> flow_qers s = map (\<lambda>f. enforcer_of f now) (ep_flows p) \<and> usage_threshold s = ep_threshold p
    \<and> uplink s = ToN6 \<and> branches s = [] \<and> peer_ip s = peer \<and> cp_seid s = ep_cp_seid p"
proof -
  let ?m = "session_establishment_request_msg L p"
  let ?a = "requested_args ?m (ep_cp_seid p) peer"
  let ?st = "snd (establish st ?a now)"
  let ?r = "establishment_accepted L (ep_cp_seid p) (ep_seq p) node_ip (next_seid st) (next_teid st) None"
  note args = requested_anchor[OF assms(1,5)]
  have hdr: "m_type ?m = SessionEstablishmentRequest" "ie_fseid ?m = [Some (ep_cp_seid p, ep_smf_ip p)]" "m_seq ?m = ep_seq p"
    by (simp_all add: session_establishment_request_msg_def Let_def bare_msg_def)
  have dl: "\<not> requested_dl_ingress ?m"
    using args[of "ep_cp_seid p" peer] by (simp add: requested_args_def)
  have "handle_msg L ?m node_ip st now peer = (Some ?r, ?st)"
    using establish_handled[OF assms(4) hdr(1,2), of None L node_ip now peer] assms(7) dl hdr(3)
    by (simp add: travels_def)
  from n4_travels[OF assms(6) this] have h: "handle_n4_from L (lib_marshal L ?m) node_ip st now peer = (Some (lib_marshal L ?r), ?st)"
    by simp
  have s: "find_session (owns_teid (next_teid st)) ?st = Some (new_session ?a now (next_teid st) None)"
      "get_session ?st (next_seid st) = Some (new_session ?a now (next_teid st) None)"
    using establish_lookup[OF reachable_wf[OF assms(2)] assms(3), of ?a now] get_session_establish[of st ?a now "next_seid st"]
    by (simp_all add: args)
  show ?thesis
    using h s establishment_response_read[OF assms(1,7)] expect_travels[OF assms(6)]
    by (intro exI[of _ "lib_marshal L ?m"] exI[of _ "lib_marshal L ?r"] exI[of _ ?st]
        exI[of _ "new_session ?a now (next_teid st) None"])
      (simp add: session_establishment_request_def args new_session_def)
qed

text \<open>C7: establishment end to end. When the SMF's request and the UPF's answer cross the wire intact
  and the table has room, the UPF holds a session with exactly the address, rates, flows (filter,
  rates and gate of each), threshold and egress the SMF asked for, bound to the sender; the SMF
  reads back the SEID and the tunnel endpoint under which the datapath then finds that
  session.\<close>

theorem establishment_end_to_end:
  assumes "lib_ok L" "upf_reachable st" "room_for st" "session_count st < max_sessions st"
    and "distinct (map fq_qfi (ep_flows p))"
    and "travels L (session_establishment_request_msg L p)"
    and "travels L (establishment_accepted L (ep_cp_seid p) (ep_seq p) node_ip (next_seid st) (next_teid st) None)"
  shows "\<exists>data resp st' s. session_establishment_request L p = Some data
    \<and> handle_n4_from L data node_ip st now peer = (Some resp, st')
    \<and> response_accepted L resp \<and> sequence_of L resp = Some (ep_seq p)
    \<and> parse_session_establishment_response L resp = Some \<lparr>es_up_seid = next_seid st, es_n3_teid = next_teid st,
         es_n3_addr = node_ip, es_dl_ingress = None\<rparr>
    \<and> get_session st' (next_seid st) = Some s \<and> find_session (owns_teid (next_teid st)) st' = Some s
    \<and> ue_ip s = ua_v4 (ep_ue p) \<and> ue_ipv6 s = ua_v6 (ep_ue p) \<and> ambr s = ep_ambr p
    \<and> flow_qers s = map (\<lambda>f. enforcer_of f now) (ep_flows p) \<and> usage_threshold s = ep_threshold p
    \<and> uplink s = ToN6 \<and> branches s = [] \<and> peer_ip s = peer \<and> cp_seid s = ep_cp_seid p"
  by (rule establishment_installs[OF assms])

subsection \<open>A concrete codec\<close>

text \<open>A library whose constructors are the obvious ones, and one whose wire format numbers a given
  list of messages.\<close>

definition plain_pdi :: "interface \<Rightarrow> pdi" where
  "plain_pdi i = \<lparr>pdi_source = i, pdi_f_teid = None, pdi_ue_ip = None, pdi_sdf_filter = None\<rparr>"

definition plain_lib :: pfcp_lib where
  "plain_lib = \<lparr>lib_parse = (\<lambda>_. None), lib_marshal = (\<lambda>_. []), lib_build_ok = (\<lambda>_. True),
     lib_uplink_access = plain_pdi Access, lib_downlink_core = plain_pdi Core,
     lib_downlink_core_ue = (\<lambda>ue. (plain_pdi Core)\<lparr>pdi_ue_ip := Some ue\<rparr>),
     lib_choose_fteid = \<lparr>ft_teid = 0, ft_ipv4 = None, ft_choose = True\<rparr>,
     lib_fteid_ipv4 = (\<lambda>t a. \<lparr>ft_teid = t, ft_ipv4 = Some a, ft_choose = False\<rparr>),
     lib_gtpu_ipv4 = (\<lambda>t a. \<lparr>oh_teid = Some t, oh_ipv4 = Some a\<rparr>),
     lib_forward_to_network = (\<lambda>i f n. \<lparr>cf_far_id = i, cf_action = FORW,
        cf_params = Some \<lparr>fp_destination = f, fp_network_instance = Some n, fp_ohc = None\<rparr>\<rparr>),
     lib_rate_limit = (\<lambda>i u d. \<lparr>cq_qer_id = i, cq_gate = None, cq_mbr = Some \<lparr>mbr_uplink = u, mbr_downlink = d\<rparr>\<rparr>)\<rparr>"

definition numbered_lib :: "pfcp_msg list \<Rightarrow> pfcp_lib" where
  "numbered_lib ms = plain_lib
     \<lparr>lib_parse := (\<lambda>bs. case bs of [b] \<Rightarrow> if unat b < length ms then Some (ms ! unat b) else None | _ \<Rightarrow> None),
      lib_marshal := (\<lambda>m. [case position (\<lambda>x. x = m) ms of Some i \<Rightarrow> of_nat i | None \<Rightarrow> 255])\<rparr>"

lemma numbered_lib_ok: "lib_ok (numbered_lib ms)"
  by (simp add: lib_ok_def numbered_lib_def plain_lib_def plain_pdi_def)

lemma numbered_travels:
  assumes "m \<in> set ms" "length ms < 256"
  shows "travels (numbered_lib ms) m"
proof -
  have "position (\<lambda>x. x = m) ms \<noteq> None" using assms(1) by (auto simp: position_None)
  then obtain i where i: "position (\<lambda>x. x = m) ms = Some i" by blast
  then have "i < length ms" "ms ! i = m" using position_Some[OF i] by auto
  moreover have "unat (of_nat i :: u8) = i" using \<open>i < length ms\<close> assms(2) by (simp add: unat_of_nat)
  ultimately show ?thesis using i by (simp add: travels_def numbered_lib_def plain_lib_def)
qed

text \<open>The messages do not depend on the wire format.\<close>

lemma numbered_constructors [simp]:
  "lib_uplink_access (numbered_lib ms) = lib_uplink_access plain_lib"
  "lib_downlink_core (numbered_lib ms) = lib_downlink_core plain_lib"
  "lib_downlink_core_ue (numbered_lib ms) = lib_downlink_core_ue plain_lib"
  "lib_choose_fteid (numbered_lib ms) = lib_choose_fteid plain_lib"
  "lib_fteid_ipv4 (numbered_lib ms) = lib_fteid_ipv4 plain_lib"
  "lib_gtpu_ipv4 (numbered_lib ms) = lib_gtpu_ipv4 plain_lib"
  "lib_forward_to_network (numbered_lib ms) = lib_forward_to_network plain_lib"
  "lib_rate_limit (numbered_lib ms) = lib_rate_limit plain_lib"
  by (simp_all add: numbered_lib_def)

lemma numbered_messages [simp]:
  "flow_create_ies (numbered_lib ms) = flow_create_ies plain_lib"
  "session_establishment_request_msg (numbered_lib ms) p = session_establishment_request_msg plain_lib p"
  "establishment_accepted (numbered_lib ms) cp seq ip up t dl = establishment_accepted plain_lib cp seq ip up t dl"
proof -
  show f: "flow_create_ies (numbered_lib ms) = flow_create_ies plain_lib"
    by (intro ext) (simp add: flow_create_ies_def)
  show "session_establishment_request_msg (numbered_lib ms) p = session_establishment_request_msg plain_lib p"
    unfolding session_establishment_request_msg_def upf_chooses_fteid_def numbered_constructors f ..
  show "establishment_accepted (numbered_lib ms) cp seq ip up t dl = establishment_accepted plain_lib cp seq ip up t dl"
    unfolding establishment_accepted_def numbered_constructors ..
qed

definition demo_params :: est_params where
  "demo_params = \<lparr>ep_cp_seid = 7, ep_seq = 3, ep_smf_ip = 1, ep_ue = \<lparr>ua_v4 = Some 9, ua_v6 = None\<rparr>, ep_dnn = ''internet'',
     ep_ambr = Some \<lparr>sa_uplink_bps = 1000, sa_downlink_bps = 2000\<rparr>,
     ep_flows = [\<lparr>fq_qfi = 5, fq_filter = transport 17 5000 5010, fq_mfbr_dl_bps = 10, fq_mfbr_ul_bps = 20,
        fq_gate = \<lparr>gt_uplink = True, gt_downlink = False\<rparr>\<rparr>], ep_threshold = Some 100\<rparr>"

definition demo_exchange :: "pfcp_msg list" where
  "demo_exchange = [session_establishment_request_msg plain_lib demo_params,
     establishment_accepted plain_lib 7 3 42 1 1 None]"

theorem establishment_end_to_end_witness:
  "\<exists>data resp st' s. session_establishment_request (numbered_lib demo_exchange) demo_params = Some data
    \<and> handle_n4_from (numbered_lib demo_exchange) data 42 (with_recovery_time 0) 5 (Some (IpV4 1)) = (Some resp, st')
    \<and> get_session st' 1 = Some s \<and> ue_ip s = Some 9"
proof -
  let ?st = "with_recovery_time 0"
  have "room_for ?st" "session_count ?st < max_sessions ?st" "next_seid ?st = 1" "next_teid ?st = 1"
    by (simp_all add: with_recovery_time_def room_for_def session_count_def DEFAULT_MAX_SESSIONS_def)
  moreover have "distinct (map fq_qfi (ep_flows demo_params))" by (simp add: demo_params_def)
  moreover have "travels (numbered_lib demo_exchange) (session_establishment_request_msg (numbered_lib demo_exchange) demo_params)"
      "travels (numbered_lib demo_exchange) (establishment_accepted (numbered_lib demo_exchange) (ep_cp_seid demo_params)
         (ep_seq demo_params) 42 (next_seid ?st) (next_teid ?st) None)"
    by (rule numbered_travels; simp add: demo_exchange_def demo_params_def with_recovery_time_def)+
  ultimately show ?thesis
    using establishment_end_to_end[OF numbered_lib_ok upf_reachable.start, of 0 demo_params demo_exchange 42 5 "Some (IpV4 1)"]
    by (auto simp: demo_params_def)
qed

subsection \<open>Witnesses for source binding and the ceiling\<close>

definition bound_state :: upf_state where
  "bound_state = snd (establish (with_recovery_time 8)
     \<lparr>ea_cp_seid = 7, ea_peer = Some (IpV4 1), ea_ue = \<lparr>ua_v4 = Some 9, ua_v6 = None\<rparr>, ea_ambr = None, ea_flows = [],
      ea_usage_threshold = None, ea_uplink = ToN6, ea_branches = [], ea_wants_dl_ingress = False\<rparr> 0)"

lemma bound_state_facts:
  "session_peer bound_state 1 = Some (IpV4 1)" "next_seid bound_state = 2" "session_count bound_state = 1"
  "max_sessions bound_state = 100000" "recovery_time bound_state = 8"
  by (simp_all add: bound_state_def session_peer_def get_session_establish session_count_def)
    (simp_all add: with_recovery_time_def new_session_def establish_def Let_def table_insert_def DEFAULT_MAX_SESSIONS_def)

theorem foreign_datagrams_change_nothing_witness:
  "get_session (n4_run (numbered_lib [session_deletion_request_msg 1 4]) 42 bound_state [([0], 5, IpV4 2), ([0], 6, IpV4 3)]) 1
   = get_session bound_state 1"
  using foreign_datagrams_change_nothing[of bound_state 1 "IpV4 1" "[([0], 5, IpV4 2), ([0], 6, IpV4 3)]"
      "numbered_lib [session_deletion_request_msg 1 4]" 42]
  by (simp add: bound_state_facts)

theorem n4_table_bounded_witness:
  "session_count (n4_run (numbered_lib [session_deletion_request_msg 1 4]) 42 bound_state [([0], 5, IpV4 1)]) \<le> 100000"
  using n4_table_bounded[of bound_state, OF _ refl, of "numbered_lib [session_deletion_request_msg 1 4]" 42 "[([0], 5, IpV4 1)]"]
  by (simp add: bound_state_facts)

subsection \<open>Uplink classifier branches\<close>

lemma map_fst_enumerate_nth: "map fst (enumerate n xs) = [n..<n + length xs]"
  by simp

lemma unat_of_nat_small: "n < 2 ^ LENGTH('a) \<Longrightarrow> unat (of_nat n :: 'a::len word) = n"
  by (simp add: unat_of_nat)

lemma branch_pdr_id:
  assumes "i + 400 < 65536"
  shows "unat (ULCL_PDR_BASE + of_nat i) = 400 + i"
  using assms by (simp add: ULCL_PDR_BASE_def unat_word_ariths unat_of_nat_small)

lemma branch_far_id:
  assumes "i + 400 < 65536"
  shows "unat (ULCL_FAR_BASE + of_nat i) = 3 + i"
  using assms by (simp add: ULCL_FAR_BASE_def unat_word_ariths unat_of_nat_small)

lemma far_egress_branch: "lib_ok L \<Longrightarrow> far_egress (snd (branch_create_ies L i flt e dnn)) = e"
  by (cases e) (simp_all add: branch_create_ies_def Let_def far_egress_def egress_forwarding_parameters_def
      ohc_target_def lib_ok_def)

lemma far_egress_peer: "lib_ok L \<Longrightarrow> far_egress (peer_far L i d t a) = ToPeer t a"
  by (simp add: peer_far_def far_egress_def ohc_target_def lib_ok_def)

lemma branch_ies_simps:
  "cp_pdr_id (fst (branch_create_ies L i flt e dnn)) = ULCL_PDR_BASE + of_nat i"
  "cp_far_id (fst (branch_create_ies L i flt e dnn)) = Some (ULCL_FAR_BASE + of_nat i)"
  "pdi_sdf_filter (cp_pdi (fst (branch_create_ies L i flt e dnn))) = Some (to_flow_description flt)"
  "cf_far_id (snd (branch_create_ies L i flt e dnn)) = ULCL_FAR_BASE + of_nat i"
  by (simp_all add: branch_create_ies_def Let_def)

text \<open>The branches as the SMF numbers them.\<close>

definition numbered_branches :: "(flow_filter \<times> egress) list \<Rightarrow> (u16 \<times> flow_filter \<times> egress) list" where
  "numbered_branches brs = map (\<lambda>(i, b). (ULCL_PDR_BASE + of_nat i, b)) (enumerate 0 brs)"

lemma parse_branches_request:
  assumes "lib_ok L" "length brs + 400 \<le> 65536"
    and far: "decoded (ie_create_far m) = F @ map (\<lambda>(i, flt, e). snd (branch_create_ies L i flt e dnn)) (enumerate 0 brs)"
    and pdr: "decoded (ie_create_pdr m) = P @ map (\<lambda>(i, flt, e). fst (branch_create_ies L i flt e dnn)) (enumerate 0 brs)"
    and low: "\<forall>p\<in>set P. \<not> ULCL_PDR_BASE \<le> cp_pdr_id p"
  shows "parse_branches m = numbered_branches brs"
proof -
  define pd where "pd = (\<lambda>(i, flt, e). fst (branch_create_ies L i flt e dnn))"
  define kv where "kv = (\<lambda>(i, flt :: flow_filter, e :: egress). (ULCL_FAR_BASE + of_nat i :: u32, e))"
  have idx: "i + 400 < 65536" if "(i, b) \<in> set (enumerate 0 brs)" for i b
    using that assms(2) by (auto simp: enumerate_eq_zip dest: set_zip_leftD)
  have ids: "unat (cp_pdr_id (pd x)) = 400 + fst x" "unat (fst (kv x)) = 3 + fst x" if "x \<in> set (enumerate 0 brs)" for x
    using that idx[of "fst x" "snd x"] by (auto simp: pd_def kv_def case_prod_beta branch_ies_simps branch_pdr_id branch_far_id)
  have fars: "map (\<lambda>far. (cf_far_id far, far_egress far)) (decoded (ie_create_far m))
      = map (\<lambda>far. (cf_far_id far, far_egress far)) F @ map kv (enumerate 0 brs)"
    unfolding far by (simp add: kv_def case_prod_beta comp_def branch_ies_simps far_egress_branch[OF assms(1)])
  have dist: "distinct (map fst (map kv (enumerate 0 brs)))"
  proof -
    have "map (\<lambda>w. unat w - 3) (map fst (map kv (enumerate 0 brs))) = map fst (enumerate 0 brs)"
      unfolding map_map by (rule map_cong) (simp_all add: ids(2))
    moreover have "distinct (map fst (enumerate 0 brs))" by simp
    ultimately show ?thesis using distinct_map by metis
  qed
  have all: "\<forall>p\<in>set (map pd (enumerate 0 brs)). ULCL_PDR_BASE \<le> cp_pdr_id p"
    using ids(1) by (simp add: word_le_nat_alt) (simp add: ULCL_PDR_BASE_def)
  have "sorted (map (\<lambda>p. unat (cp_pdr_id p)) (map pd (enumerate 0 brs)))"
  proof -
    have "map (\<lambda>p. unat (cp_pdr_id p)) (map pd (enumerate 0 brs)) = map (\<lambda>i. 400 + i) (map fst (enumerate 0 brs))"
      unfolding map_map by (rule map_cong) (simp_all add: ids(1))
    then show ?thesis by (simp only:) (simp add: sorted_map)
  qed
  then have sorted: "sorted (map cp_pdr_id (map pd (enumerate 0 brs)))"
    by (simp add: sorted_map word_le_nat_alt)
  have pdrs: "sort_key cp_pdr_id (filter (\<lambda>pdr. ULCL_PDR_BASE \<le> cp_pdr_id pdr) (decoded (ie_create_pdr m)))
      = map pd (enumerate 0 brs)"
    unfolding pdr pd_def[symmetric] using low all sorted
    by (simp add: filter_empty_conv filter_id_conv sort_key_id_if_sorted)
  show ?thesis
    unfolding parse_branches_def Let_def fars pdrs numbered_branches_def
  proof (rule map_filter_map_Some)
    fix x assume x: "x \<in> set (enumerate 0 brs)"
    have "collect_map (map (\<lambda>far. (cf_far_id far, far_egress far)) F @ map kv (enumerate 0 brs)) (fst (kv x)) = Some (snd (kv x))"
      using dist by (rule collect_map_suffix) (use x in force)
    then show "(case Option.bind (pdi_sdf_filter (cp_pdi (pd x))) from_flow_description of None \<Rightarrow> None
        | Some flt \<Rightarrow> (case Option.bind (cp_far_id (pd x)) (collect_map (map (\<lambda>far. (cf_far_id far, far_egress far)) F @ map kv (enumerate 0 brs))) of
            None \<Rightarrow> None | Some e \<Rightarrow> Some (cp_pdr_id (pd x), flt, e)))
        = Some (case x of (i, b) \<Rightarrow> (ULCL_PDR_BASE + of_nat i, b))"
      by (simp add: pd_def kv_def case_prod_beta branch_ies_simps flow_description_text)
  qed
qed

lemma requested_chained:
  fixes cp seq smf_ip ue dnn pt pa
  assumes "lib_ok L" "length brs + 400 \<le> 65536"
  defines "m \<equiv> session_establishment_request_via_peer_msg L cp seq smf_ip ue dnn pt pa brs"
  shows "requested_uplink m = ToPeer pt pa" "parse_branches m = numbered_branches brs" "requested_ue m = ue"
    "requested_dl_ingress m" "parse_created_flows m = []" "requested_ambr m = None"
proof -
  note d = m_def session_establishment_request_via_peer_msg_def Let_def bare_msg_def
  show "requested_uplink m = ToPeer pt pa"
    using far_egress_peer[OF assms(1)] by (simp add: requested_uplink_def d) (simp add: peer_far_def)
  show "parse_branches m = numbered_branches brs"
    by (rule parse_branches_request[OF assms(1,2), where dnn = dnn and P = "take 2 (decoded (ie_create_pdr m))"
          and F = "take 2 (decoded (ie_create_far m))"])
      (auto simp: d comp_def case_prod_beta ULCL_PDR_BASE_def DOWNLINK_PDR_ID_def word_le_nat_alt)
  show "requested_ue m = ue" by (simp add: requested_ue_def d)
  show "requested_dl_ingress m" by (simp add: requested_dl_ingress_def d)
  have q: "\<forall>pdr\<in>set (decoded (ie_create_pdr m)). cp_qer_id pdr = None"
    by (auto simp: d comp_def case_prod_beta) (simp add: branch_create_ies_def Let_def)
  show "parse_created_flows m = []"
    unfolding parse_created_flows_def Let_def using q
    by (intro map_filter_none) (simp split: option.split)
  show "requested_ambr m = None" by (simp add: requested_ambr_def d)
qed

lemma find_numbered_branches:
  "find (\<lambda>(_, flt, _). filter_matches flt key) (numbered_branches brs) = None \<longleftrightarrow>
     find (\<lambda>(flt, _). filter_matches flt key) brs = None"
  "find (\<lambda>(_, flt, _). filter_matches flt key) (numbered_branches brs) = Some (i, b) \<Longrightarrow>
     find (\<lambda>(flt, _). filter_matches flt key) brs = Some b"
proof -
  have gen: "(find (\<lambda>(_, flt, _). filter_matches flt key) (map (\<lambda>(i, b). (f i, b)) (enumerate n brs)) = None \<longleftrightarrow>
      find (\<lambda>(flt, _). filter_matches flt key) brs = None) \<and>
      (find (\<lambda>(_, flt, _). filter_matches flt key) (map (\<lambda>(i, b). (f i, b)) (enumerate n brs)) = Some (i, b) \<longrightarrow>
      find (\<lambda>(flt, _). filter_matches flt key) brs = Some b)" for n i b and f :: "nat \<Rightarrow> u16"
    by (induction brs arbitrary: n) auto
  show "find (\<lambda>(_, flt, _). filter_matches flt key) (numbered_branches brs) = None \<longleftrightarrow>
     find (\<lambda>(flt, _). filter_matches flt key) brs = None"
    unfolding numbered_branches_def by (rule conjunct1[OF gen])
  show "find (\<lambda>(_, flt, _). filter_matches flt key) (numbered_branches brs) = Some (i, b) \<Longrightarrow>
     find (\<lambda>(flt, _). filter_matches flt key) brs = Some b"
    unfolding numbered_branches_def by (rule mp[OF conjunct2[OF gen]])
qed

text \<open>C37: uplink classifier. After a chained establishment reaches the UPF, an uplink packet on the
  new tunnel leaves by the egress of the first branch, in the SMF's order, whose filter it
  matches, and over N9 to the given peer when it matches none; a packet without an IP header
  takes the default.\<close>

theorem ulcl_steering:
  assumes "lib_ok L" "upf_reachable st" "room_for st" "session_count st < max_sessions st" "length brs + 400 \<le> 65536"
    and "travels L (session_establishment_request_via_peer_msg L cp seq smf_ip ue dnn pt pa brs)"
    and "travels L (establishment_accepted L cp seq node_ip (next_seid st) (next_teid st) (Some (next_teid st + 1)))"
  shows "\<exists>resp st'. handle_n4_from L (lib_marshal L (session_establishment_request_via_peer_msg L cp seq smf_ip ue dnn pt pa brs))
      node_ip st now peer = (Some resp, st')
    \<and> map_option es_dl_ingress (parse_session_establishment_response L resp) = Some (Some (next_teid st + 1, node_ip))
    \<and> uplink_egress_for st' (next_teid st) pkt = Some (case packet_key_of pkt of
         None \<Rightarrow> ToPeer pt pa
       | Some key \<Rightarrow> (case find (\<lambda>(flt, _). filter_matches flt key) brs of
           None \<Rightarrow> ToPeer pt pa | Some (_, e) \<Rightarrow> e))"
proof -
  let ?m = "session_establishment_request_via_peer_msg L cp seq smf_ip ue dnn pt pa brs"
  let ?a = "requested_args ?m cp peer"
  let ?st = "snd (establish st ?a now)"
  let ?r = "establishment_accepted L cp seq node_ip (next_seid st) (next_teid st) (Some (next_teid st + 1))"
  note req = requested_chained[OF assms(1,5), of cp seq smf_ip ue dnn pt pa]
  have hdr: "m_type ?m = SessionEstablishmentRequest" "ie_fseid ?m = [Some (cp, smf_ip)]" "m_seq ?m = seq"
    by (simp_all add: session_establishment_request_via_peer_msg_def Let_def bare_msg_def)
  have "handle_msg L ?m node_ip st now peer = (Some ?r, ?st)"
    using establish_handled[OF assms(4) hdr(1,2), of "Some (next_teid st + 1)" L node_ip now peer] assms(7) req(4) hdr(3)
    by (simp add: travels_def)
  from n4_travels[OF assms(6) this]
  have h: "handle_n4_from L (lib_marshal L ?m) node_ip st now peer = (Some (lib_marshal L ?r), ?st)" by simp
  obtain s where s: "find_session (owns_teid (next_teid st)) ?st = Some s" "uplink s = ToPeer pt pa" "branches s = numbered_branches brs"
    using establish_lookup[OF reachable_wf[OF assms(2)] assms(3), of ?a now] req(1,2)
    by (simp add: requested_args_def new_session_def)
  have "uplink_egress_for ?st (next_teid st) pkt = Some (case packet_key_of pkt of
         None \<Rightarrow> ToPeer pt pa
       | Some key \<Rightarrow> (case find (\<lambda>(flt, _). filter_matches flt key) brs of None \<Rightarrow> ToPeer pt pa | Some (_, e) \<Rightarrow> e))"
    using find_numbered_branches[of _ brs]
    by (auto simp: uplink_egress_for_def s split: option.splits prod.splits)
  then show ?thesis using h establishment_response_read(1)[OF assms(1,7)] by auto
qed

lemma numbered_via_peer [simp]:
  "session_establishment_request_via_peer_msg (numbered_lib ms) cp seq smf_ip ue dnn pt pa brs
   = session_establishment_request_via_peer_msg plain_lib cp seq smf_ip ue dnn pt pa brs"
  unfolding session_establishment_request_via_peer_msg_def upf_chooses_fteid_def peer_far_def branch_create_ies_def
    egress_forwarding_parameters_def numbered_constructors ..

definition chained_exchange :: "pfcp_msg list" where
  "chained_exchange = [session_establishment_request_via_peer_msg plain_lib 7 3 1 \<lparr>ua_v4 = Some 9, ua_v6 = None\<rparr> ''dn'' 5 6
       [(to_prefix \<lparr>px_addr = IpV4 0x0A630000, px_len = 16\<rparr>, ToN6)],
     establishment_accepted plain_lib 7 3 42 1 1 (Some 2)]"

theorem ulcl_steering_witness:
  "\<exists>resp st'. handle_n4_from (numbered_lib chained_exchange) [0] 42 (with_recovery_time 0) 5 None = (Some resp, st')
    \<and> uplink_egress_for st' 1 [] = Some (ToPeer 5 6)"
proof -
  let ?st = "with_recovery_time 0"
  let ?m = "session_establishment_request_via_peer_msg plain_lib 7 3 1 \<lparr>ua_v4 = Some 9, ua_v6 = None\<rparr> ''dn'' 5 6
       [(to_prefix \<lparr>px_addr = IpV4 0x0A630000, px_len = 16\<rparr>, ToN6)]"
  have st: "room_for ?st" "session_count ?st < max_sessions ?st" "next_seid ?st = 1" "next_teid ?st = 1"
    by (simp_all add: with_recovery_time_def room_for_def session_count_def DEFAULT_MAX_SESSIONS_def)
  have t: "travels (numbered_lib chained_exchange) ?m"
      "travels (numbered_lib chained_exchange) (establishment_accepted plain_lib 7 3 42 1 1 (Some 2))"
    by (rule numbered_travels; simp add: chained_exchange_def)+
  have "lib_marshal (numbered_lib chained_exchange) ?m = [0]"
    by (simp add: numbered_lib_def plain_lib_def chained_exchange_def)
  then show ?thesis
    using ulcl_steering[OF numbered_lib_ok upf_reachable.start st(1,2), of
        "[(to_prefix \<lparr>px_addr = IpV4 0x0A630000, px_len = 16\<rparr>, ToN6)]" chained_exchange 7 3 1
        "\<lparr>ua_v4 = Some 9, ua_v6 = None\<rparr>" "''dn''" 5 6 42 5 None "[]"] t st(3,4)
    by (auto simp: packet_key_of_def)
qed

end
