(* ===== verification/Pfcp_N4_Session.thy ===== *)
theory Pfcp_N4_Session
  imports Pfcp_N4
begin

section \<open>PFCP: modification and deletion over N4\<close>

text \<open>
  Properties of the modification and deletion branches of \<open>handle_n4_from\<close>: what a request for an
  unknown session does, that a modification touches the named session only, how a flow update,
  a usage query, a path switch and an AN release act on it, and that the usage the SMF reads
  from a deletion response is what the session measured.
\<close>

subsection \<open>Unknown sessions\<close>

lemma update_session_unknown: "get_session st k = None \<Longrightarrow> update_session k f st = st"
  by (simp add: update_session_def get_session_def table_get_def map_of_eq_None_iff table_update_none)

lemmas flow_op_defs = add_flow_def remove_flow_def update_flow_rate_def set_flow_gate_def add_branch_def remove_branch_def

lemma unknown_ops:
  assumes "get_session st k = None"
  shows "snd (set_downlink st k t ip em) = st" "snd (clear_downlink st k) = st" "snd (set_ambr st k a now) = st"
    "apply_remove_qer k st q = st" "add_flow st k f now = st" "apply_update_qer k now st uq = st"
    "remove_branch st k i = st" "add_branch st k i flt e = st"
  using assms
  by (simp_all add: set_downlink_def downlink_for_def clear_downlink_def set_ambr_def apply_remove_qer_def
      apply_update_qer_def Let_def flow_op_defs update_session_unknown split: option.split)

lemma foldl_fixed: "(\<And>x. g st x = st) \<Longrightarrow> foldl g st xs = st"
  by (induction xs) auto

lemma unknown_modification: "get_session st k = None \<Longrightarrow> apply_modification msg k now st = st"
proof -
  assume u: "get_session st k = None"
  have "apply_update_far msg k st = st"
    by (auto simp: apply_update_far_def unknown_ops[OF u] split: option.split)
  moreover have "foldl (\<lambda>st (i, flt, e). add_branch st k i flt e) st xs = st" for xs
    by (rule foldl_fixed) (auto simp: unknown_ops[OF u])
  ultimately show ?thesis
    by (simp add: apply_modification_def Let_def foldl_fixed unknown_ops[OF u])
qed

text \<open>a modification of a session the UPF does not hold changes nothing and is nevertheless
  answered with RequestAccepted (a deletion of such a session is answered with
  SessionContextNotFound).\<close>

theorem unknown_session_answers:
  assumes "get_session st k = None" "m_seid msg = Some k"
  shows "(m_type msg = SessionModificationRequest \<longrightarrow>
      snd (handle_msg L msg node_ip st now peer) = st
      \<and> map_option ie_cause (fst (handle_msg L msg node_ip st now peer)) = Some [RequestAccepted])
    \<and> (m_type msg = SessionDeletionRequest \<longrightarrow>
      map_option ie_cause (fst (handle_msg L msg node_ip st now peer)) = Some [SessionContextNotFound])"
  using assms unknown_modification[OF assms(1), of msg now]
  by (simp add: handle_msg_def handle_modification_def handle_deletion_def foreign_peer_def session_peer_def remove_def
      Let_def split: option.split)

theorem unknown_session_answers_witness:
  "map_option ie_cause (fst (handle_msg plain_lib (session_deactivate_request_msg 9 1 2) 42 (with_recovery_time 0) 5 None))
   = Some [RequestAccepted]"
proof -
  have "get_session (with_recovery_time 0) 9 = None"
    by (simp add: get_session_def table_get_def with_recovery_time_def)
  from unknown_session_answers[OF this, of "session_deactivate_request_msg 9 1 2"] show ?thesis
    by (simp add: session_deactivate_request_msg_def bare_msg_def)
qed

subsection \<open>Known sessions\<close>

lemma get_session_update: "get_session (update_session k f st) k' = (if k = k' then map_option f (get_session st k) else get_session st k')"
  by (simp add: get_session_def update_session_def tab.get_upd)

text \<open>A modification accepted for one session leaves every other session, the allocators, the
  ceiling and the recovery time as they were.\<close>

theorem modification_touches_one_session:
  assumes "m_type msg = SessionModificationRequest" "m_seid msg = Some k" "k' \<noteq> k"
    and "handle_msg L msg node_ip st now peer = (r, st')"
  shows "get_session st' k' = get_session st k' \<and> map fst (sessions st') = map fst (sessions st)
    \<and> next_seid st' = next_seid st \<and> next_teid st' = next_teid st
    \<and> max_sessions st' = max_sessions st \<and> recovery_time st' = recovery_time st"
  using assms state_only_modification[of k msg now]
  by (auto simp: handle_msg_def handle_modification_def state_only_def Let_def split: if_splits)

theorem modification_touches_one_session_witness:
  "\<exists>r st'. handle_msg plain_lib (session_deactivate_request_msg 2 1 2) 42 bound_state 5 None = (r, st')
     \<and> get_session st' 1 = get_session bound_state 1"
proof -
  obtain r st' where h: "handle_msg plain_lib (session_deactivate_request_msg 2 1 2) 42 bound_state 5 None = (r, st')"
    by fastforce
  from modification_touches_one_session[OF _ _ _ h, of 2 1] h show ?thesis
    by (auto simp: session_deactivate_request_msg_def bare_msg_def)
qed

text \<open>The modification messages of the SMF, one by one.\<close>

lemma no_created: "decoded (ie_create_pdr m) = [] \<Longrightarrow> parse_created_flows m = [] \<and> parse_branches m = []"
  by (simp add: parse_created_flows_def parse_branches_def List.map_filter_def)

lemma deactivate_effect:
  "apply_modification (session_deactivate_request_msg k seq DOWNLINK_FAR_ID) k now st = snd (clear_downlink st k)"
  using no_created[of "session_deactivate_request_msg k seq DOWNLINK_FAR_ID"]
  by (simp add: apply_modification_def apply_update_far_def session_deactivate_request_msg_def bare_msg_def BUFF_NOCP_def)

lemma activate_effect:
  "lib_ok L \<Longrightarrow> apply_modification (session_modification_request_msg L k seq DOWNLINK_FAR_ID t ip dnn em) k now st
    = snd (set_downlink st k t ip em)"
  using no_created[of "session_modification_request_msg L k seq DOWNLINK_FAR_ID t ip dnn em"]
  by (simp add: apply_modification_def apply_update_far_def session_modification_request_msg_def bare_msg_def
      lib_ok_def ohc_target_def wants_end_marker_def)

text \<open>Tunnel switching. Pointing the downlink of a session at a gNB tunnel installs that tunnel;
  when the SMF asks for an end marker and the session had a different tunnel, exactly one end
  marker, for the old tunnel, is queued, and otherwise none; releasing the access network removes
  the tunnel and starts buffering.\<close>

theorem tunnel_switching:
  assumes "lib_ok L" "get_session st k = Some s" "\<not> foreign_peer peer st k"
  shows "(\<exists>r st'. handle_msg L (session_modification_request_msg L k seq DOWNLINK_FAR_ID t ip dnn em) node_ip st now peer = (Some r, st')
      \<and> ie_cause r = [RequestAccepted] \<and> downlink_for st' k = Some (t, ip)
      \<and> pending_end_markers st' = pending_end_markers st
          @ (if em \<and> downlink s \<noteq> None \<and> downlink s \<noteq> Some (t, ip) then [the (downlink s)] else []))
    \<and> (\<exists>r st' s'. handle_msg L (session_deactivate_request_msg k seq DOWNLINK_FAR_ID) node_ip st now peer = (Some r, st')
      \<and> ie_cause r = [RequestAccepted] \<and> get_session st' k = Some s' \<and> downlink s' = None \<and> buffering s')"
proof (rule conjI)
  let ?m = "session_modification_request_msg L k seq DOWNLINK_FAR_ID t ip dnn em"
  have hdr: "m_type ?m = SessionModificationRequest" "m_seid ?m = Some k"
    by (simp_all add: session_modification_request_msg_def bare_msg_def)
  have g: "downlink_for st k = downlink s" using assms(2) by (simp add: downlink_for_def)
  have get: "get_session (st\<lparr>pending_end_markers := x\<rparr>) k = get_session st k" for x by (simp add: get_session_def)
  have "downlink_for (snd (set_downlink st k t ip em)) k = Some (t, ip)
      \<and> pending_end_markers (snd (set_downlink st k t ip em)) = pending_end_markers st
          @ (if em \<and> downlink s \<noteq> None \<and> downlink s \<noteq> Some (t, ip) then [the (downlink s)] else [])"
    using assms(2) g by (cases "downlink s"; cases "ue_ipv6 s")
      (auto simp: set_downlink_def Let_def get downlink_for_def get_session_def update_session_def tab.get_upd)
  then show "\<exists>r st'. handle_msg L ?m node_ip st now peer = (Some r, st')
      \<and> ie_cause r = [RequestAccepted] \<and> downlink_for st' k = Some (t, ip)
      \<and> pending_end_markers st' = pending_end_markers st
          @ (if em \<and> downlink s \<noteq> None \<and> downlink s \<noteq> Some (t, ip) then [the (downlink s)] else [])"
    using hdr assms(3) activate_effect[OF assms(1), of k seq t ip dnn em now st]
    by (simp add: handle_msg_def handle_modification_def Let_def)
  let ?d = "session_deactivate_request_msg k seq DOWNLINK_FAR_ID"
  have "m_type ?d = SessionModificationRequest" "m_seid ?d = Some k"
    by (simp_all add: session_deactivate_request_msg_def bare_msg_def)
  then show "\<exists>r st' s'. handle_msg L ?d node_ip st now peer = (Some r, st')
      \<and> ie_cause r = [RequestAccepted] \<and> get_session st' k = Some s' \<and> downlink s' = None \<and> buffering s'"
    using assms(2,3) deactivate_effect[of k seq now st]
    by (simp add: handle_msg_def handle_modification_def Let_def clear_downlink_def get_session_update)
qed

theorem tunnel_switching_witness:
  "\<exists>r st'. handle_msg plain_lib (session_modification_request_msg plain_lib 1 3 DOWNLINK_FAR_ID 5 6 ''dn'' True) 42 bound_state 7
       (Some (IpV4 1)) = (Some r, st') \<and> downlink_for st' 1 = Some (5, 6)"
proof -
  have "lib_ok plain_lib" by (simp add: lib_ok_def plain_lib_def plain_pdi_def)
  moreover obtain s where "get_session bound_state 1 = Some s"
    using bound_state_facts(1) by (auto simp: session_peer_def Option.bind_eq_Some_conv)
  moreover have "\<not> foreign_peer (Some (IpV4 1)) bound_state 1" by (simp add: foreign_peer_def bound_state_facts)
  ultimately show ?thesis using tunnel_switching[of plain_lib bound_state 1 s "Some (IpV4 1)" 3 5 6 "''dn''" True 42 7] by blast
qed

subsection \<open>Flow updates\<close>

lemma foldl_empty_modification:
  assumes "decoded (ie_update_far m) = []" "decoded (ie_remove_pdr m) = []" "parse_branches m = []"
  shows "apply_modification m k now st = foldl (apply_update_qer k now)
    (foldl (\<lambda>st f. add_flow st k f now) (foldl (apply_remove_qer k) st (decoded (ie_remove_qer m))) (parse_created_flows m))
    (decoded (ie_update_qer m))"
  using assms by (simp add: apply_modification_def apply_update_far_def)

text \<open>A mid-session flow update reaches the policer. Updating a flow re-rates both of its buckets
  and sets its gate to the requested one, open or closed, and leaves its filter and its
  counters, and every other flow, as they are.\<close>

theorem flow_update_applies:
  assumes "get_session st k = Some s" "\<not> foreign_peer peer st k"
  shows "\<exists>r st'. handle_msg L (session_flow_modification_request_msg L k seq [] [f] []) node_ip st now peer = (Some r, st')
    \<and> get_session st' k = Some (s\<lparr>flow_qers := map_first (\<lambda>e. fe_qfi e = fq_qfi f)
        (\<lambda>e. e\<lparr>fe_ul_bucket := set_rate (fe_ul_bucket e) (fq_mfbr_ul_bps f) now,
               fe_dl_bucket := set_rate (fe_dl_bucket e) (fq_mfbr_dl_bps f) now, fe_gate := fq_gate f\<rparr>) (flow_qers s)\<rparr>)"
proof -
  let ?m = "session_flow_modification_request_msg L k seq [] [f] []"
  note d = session_flow_modification_request_msg_def bare_msg_def Let_def
  have "parse_created_flows ?m = [] \<and> parse_branches ?m = []" by (rule no_created) (simp add: d)
  then have a: "apply_modification ?m k now st = apply_update_qer k now st \<lparr>uq_qer_id = PER_FLOW_QER_BASE + ucast (fq_qfi f),
      uq_mbr = Some \<lparr>mbr_uplink = fq_mfbr_ul_bps f, mbr_downlink = fq_mfbr_dl_bps f\<rparr>,
      uq_gate = Some (to_gate_status (fq_gate f))\<rparr>"
    by (subst foldl_empty_modification) (simp_all add: d)
  have twice: "map_first P h (map_first P g fs) = map_first P (\<lambda>e. h (g e)) fs" if "\<And>e. P (g e) = P e" for P g h and fs :: "flow_enforcer list"
    using that by (induction fs) auto
  have u: "map_first (\<lambda>e. fe_qfi e = q) (\<lambda>e. e\<lparr>fe_gate := gt\<rparr>)
      (map_first (\<lambda>e. fe_qfi e = q) (\<lambda>e. e\<lparr>fe_ul_bucket := set_rate (fe_ul_bucket e) ul now, fe_dl_bucket := set_rate (fe_dl_bucket e) dl now\<rparr>) fs)
    = map_first (\<lambda>e. fe_qfi e = q) (\<lambda>e. e\<lparr>fe_ul_bucket := set_rate (fe_ul_bucket e) ul now,
        fe_dl_bucket := set_rate (fe_dl_bucket e) dl now, fe_gate := gt\<rparr>) fs" for q gt ul dl and fs :: "flow_enforcer list"
    by (subst twice) simp_all
  have "get_session (apply_modification ?m k now st) k = Some (s\<lparr>flow_qers := map_first (\<lambda>e. fe_qfi e = fq_qfi f)
        (\<lambda>e. e\<lparr>fe_ul_bucket := set_rate (fe_ul_bucket e) (fq_mfbr_ul_bps f) now,
               fe_dl_bucket := set_rate (fe_dl_bucket e) (fq_mfbr_dl_bps f) now, fe_gate := fq_gate f\<rparr>) (flow_qers s)\<rparr>)"
    using assms(1) flow_qer_id_not_ambr[of "fq_qfi f"]
    by (simp add: a apply_update_qer_def Let_def update_flow_rate_def set_flow_gate_def get_session_update u)
  moreover have "m_type ?m = SessionModificationRequest" "m_seid ?m = Some k" by (simp_all add: d)
  ultimately show ?thesis using assms(2) by (simp add: handle_msg_def handle_modification_def Let_def)
qed

theorem flow_update_applies_witness:
  "\<exists>r st'. handle_msg plain_lib (session_flow_modification_request_msg plain_lib 1 3 []
       [\<lparr>fq_qfi = 5, fq_filter = match_all, fq_mfbr_dl_bps = 0, fq_mfbr_ul_bps = 0, fq_gate = OPEN\<rparr>] []) 42
       (with_recovery_time 0\<lparr>sessions := [(1, demo_session)]\<rparr>) 7 None = (Some r, st')
     \<and> (\<exists>s'. get_session st' 1 = Some s' \<and> map fe_gate (flow_qers s') = [OPEN])"
proof -
  have "get_session (with_recovery_time 0\<lparr>sessions := [(1, demo_session)]\<rparr>) 1 = Some demo_session"
    by (simp add: get_session_def table_get_def)
  from flow_update_applies[OF this, of None plain_lib 3
      "\<lparr>fq_qfi = 5, fq_filter = match_all, fq_mfbr_dl_bps = 0, fq_mfbr_ul_bps = 0, fq_gate = OPEN\<rparr>" 42 7]
  show ?thesis by (auto simp: foreign_peer_def demo_session_def demo_flow_def)
qed

subsection \<open>Usage over N4\<close>

lemma usages_enumerate:
  "List.map_filter usage_volume_from (decoded (map (\<lambda>(i, u). Some (usage_report_for u (g i) t)) (enumerate n us))) = us"
  by (induction us arbitrary: n) (simp_all add: List.map_filter_simps)

text \<open>Deletion. Deleting a session removes it and no other, its tunnel endpoint is no longer
  known, and the usage the SMF reads from the response is the final usage of the session: the
  session volume not yet reported and the volume of every flow.\<close>

theorem deletion_end_to_end:
  assumes "upf_reachable st" "get_session st k = Some s" "\<not> foreign_peer peer st k"
    and "handle_msg L (session_deletion_request_msg k seq) node_ip st now peer = (Some r, st')"
    and "travels L (session_deletion_request_msg k seq)" "travels L r"
  shows "handle_n4_from L (lib_marshal L (session_deletion_request_msg k seq)) node_ip st now peer = (Some (lib_marshal L r), st')
    \<and> response_accepted L (lib_marshal L r) \<and> usages_from_deletion_response L (lib_marshal L r) = final_usage s
    \<and> get_session st' k = None \<and> (\<forall>k'. k' \<noteq> k \<longrightarrow> get_session st' k' = get_session st k')
    \<and> \<not> knows_teid st' (n3_teid s)"
proof -
  note h = n4_travels[OF assms(5,4)]
  have r: "r = (bare_msg SessionDeletionResponse (Some k) seq)\<lparr>ie_cause := [RequestAccepted],
      ie_usage_del := map (\<lambda>(i, u). Some (usage_report_for u (of_nat (i + 1)) 0x20)) (enumerate 0 (final_usage s))\<rparr>"
    and st': "st' = snd (remove st k)"
    using assms(2-4) by (auto simp: handle_msg_def handle_deletion_def session_deletion_request_msg_def bare_msg_def
        remove_def)
  have p: "lib_parse L (lib_marshal L r) = Some r" using assms(6) by (simp add: travels_def)
  have "usages_from_deletion_response L (lib_marshal L r) = final_usage s"
    using usages_enumerate[of "\<lambda>i. of_nat (i + 1)" "0x20" 0 "final_usage s"]
    by (simp add: usages_from_deletion_response_def p) (simp add: r)
  moreover have "response_accepted L (lib_marshal L r)" by (simp add: response_accepted_def p) (simp add: r)
  moreover have "\<not> knows_teid st' (n3_teid s)"
  proof
    assume "knows_teid st' (n3_teid s)"
    then obtain k' s' where e: "(k', s') \<in> set (sessions st)" "k' \<noteq> k" "n3_teid s' = n3_teid s"
      by (auto simp: knows_teid_def st' remove_def table_remove_def)
    have "(k, s) \<in> set (sessions st)" using assms(2) get_session_iff[OF reachable_wf[OF assms(1)]] by simp
    from teid_owner_unique[OF reachable_wf[OF assms(1)] this e(1), of "n3_teid s"] e(2,3) show False
      by (simp add: owner_teids)
  qed
  ultimately show ?thesis using h by (simp add: st' get_session_remove)
qed

definition deletion_exchange :: "pfcp_msg list" where
  "deletion_exchange = [session_deletion_request_msg 1 4,
     (bare_msg SessionDeletionResponse (Some 1) 4)\<lparr>ie_cause := [RequestAccepted],
        ie_usage_del := [Some (usage_report_for (volume 1 0 0 0 0) 1 0x20)]\<rparr>]"

theorem deletion_end_to_end_witness:
  "usages_from_deletion_response (numbered_lib deletion_exchange) [1] = [volume 1 0 0 0 0]"
proof -
  let ?L = "numbered_lib deletion_exchange"
  have g: "get_session idle_state 1 = Some idle_session" by (simp add: get_session_def table_get_def idle_state_sessions)
  have f: "final_usage idle_session = [volume 1 0 0 0 0]"
    by (simp add: final_usage_def unreported_volume_def idle_session_def new_session_def SESSION_URR_ID_def)
  have n: "\<not> foreign_peer None idle_state 1" by (simp add: foreign_peer_def)
  have h: "handle_msg ?L (session_deletion_request_msg 1 4) 42 idle_state 5 None
      = (Some (deletion_exchange ! 1), snd (remove idle_state 1))"
    using g n f by (simp add: handle_msg_def handle_deletion_def session_deletion_request_msg_def bare_msg_def remove_def
        deletion_exchange_def)
  have t: "travels ?L (session_deletion_request_msg 1 4)" "travels ?L (deletion_exchange ! 1)"
    by (rule numbered_travels; simp add: deletion_exchange_def)+
  have m: "lib_marshal ?L (deletion_exchange ! 1) = [1]"
    by (simp add: numbered_lib_def plain_lib_def deletion_exchange_def session_deletion_request_msg_def bare_msg_def)
  show ?thesis using deletion_end_to_end[OF idle_state_reachable g n h t] unfolding m f by blast
qed

text \<open>removing a flow mid-session discards what the flow measured. The response carries no usage
  report, and no later report of the session, the final one included, mentions the removed
  flow's URR, whatever its counters were.\<close>

theorem removed_flow_usage_lost:
  assumes "get_session st k = Some s" "\<not> foreign_peer peer st k"
  shows "\<exists>r st' s'. handle_msg L (session_flow_modification_request_msg L k seq [] [] [q]) node_ip st now peer = (Some r, st')
    \<and> ie_usage_mod r = [] \<and> get_session st' k = Some s'
    \<and> (\<forall>u\<in>set (final_usage s'). urr_id u \<noteq> PER_FLOW_URR_BASE + ucast q)
    \<and> measured True s' = session_bytes True s + sum_list (map (flow_bytes True) (filter (\<lambda>e. fe_qfi e \<noteq> q) (flow_qers s)))"
proof -
  let ?m = "session_flow_modification_request_msg L k seq [] [] [q]"
  let ?s = "s\<lparr>flow_qers := filter (\<lambda>e. fe_qfi e \<noteq> q) (flow_qers s)\<rparr>"
  note d = session_flow_modification_request_msg_def bare_msg_def Let_def
  have n: "parse_created_flows ?m = [] \<and> parse_branches ?m = []" by (rule no_created) (simp add: d)
  have "filter (\<lambda>i. ULCL_PDR_BASE \<le> i) (decoded (ie_remove_pdr ?m)) = []"
    using flow_pdr_id_bounds(2)[of q] by (simp add: d)
  then have a: "apply_modification ?m k now st = remove_flow st k q"
    using n flow_qer_id_not_ambr[of q]
    by (simp add: apply_modification_def apply_update_far_def) (simp add: d apply_remove_qer_def)
  have g: "get_session (remove_flow st k q) k = Some ?s"
    using assms(1) by (simp add: remove_flow_def get_session_update)
  have inj: "PER_FLOW_URR_BASE + ucast (a :: u8) = PER_FLOW_URR_BASE + ucast b \<longleftrightarrow> a = b" for a b
    using flow_qer_id_inj[of a b] by simp
  have "PER_FLOW_URR_BASE + ucast q \<noteq> SESSION_URR_ID"
    using unat_octet_le[of q]
    by (simp add: word_unat_eq_iff PER_FLOW_URR_BASE_def SESSION_URR_ID_def unat_word_ariths unsigned_ucast_eq take_bit_eq_mod)
  then have "\<forall>u\<in>set (final_usage ?s). urr_id u \<noteq> PER_FLOW_URR_BASE + ucast q"
    by (auto simp: final_usage_def unreported_volume_def volume_def flow_volume_def inj[simplified])
  moreover have "queried_usage ?m k st'' = []" for st'' by (simp add: queried_usage_def d List.map_filter_def)
  moreover have "m_type ?m = SessionModificationRequest" "m_seid ?m = Some k" by (simp_all add: d)
  ultimately show ?thesis using assms(2) a g
    by (simp add: handle_msg_def handle_modification_def measured_def session_bytes_def bare_msg_def)
qed

theorem removed_flow_usage_lost_witness:
  "\<exists>r st' s'. handle_msg plain_lib (session_flow_modification_request_msg plain_lib 1 3 [] [] [5]) 42
       (with_recovery_time 0\<lparr>sessions := [(1, demo_session\<lparr>flow_qers := [demo_flow\<lparr>fe_ul_bytes := 700\<rparr>]\<rparr>)]\<rparr>) 7 None = (Some r, st')
     \<and> ie_usage_mod r = [] \<and> measured True s' = 0 \<and> get_session st' 1 = Some s'"
proof -
  have "get_session (with_recovery_time 0\<lparr>sessions := [(1, demo_session\<lparr>flow_qers := [demo_flow\<lparr>fe_ul_bytes := 700\<rparr>]\<rparr>)]\<rparr>) 1
      = Some (demo_session\<lparr>flow_qers := [demo_flow\<lparr>fe_ul_bytes := 700\<rparr>]\<rparr>)"
    by (simp add: get_session_def table_get_def)
  from removed_flow_usage_lost[OF this, of None plain_lib 3 5 42 7] show ?thesis
    by (auto simp: foreign_peer_def demo_session_def demo_flow_def session_bytes_def)
qed

end
