(* ===== verification/Gtpu_Frames.thy ===== *)
theory Gtpu_Frames
  imports Prelude
begin

section \<open>PSUP and NR-U: the frames inside GTP-U extension headers\<close>

text \<open>
  \<open>crates/gtpu/src/psup.rs\<close> (the PDU Session User Plane frames carrying the QFI on N3) and
  \<open>crates/gtpu/src/nru.rs\<close> (the NR-U frames carrying CU-UP to DU flow control on F1-U).
  The lemmas are the round trips of the two codecs, with the field widths they keep.
\<close>

subsection \<open>psup.rs\<close>

definition DL_PDU_SESSION_INFORMATION :: u8 where "DL_PDU_SESSION_INFORMATION = 0"
definition UL_PDU_SESSION_INFORMATION :: u8 where "UL_PDU_SESSION_INFORMATION = 1"

record PduSessionInfo =
  psi_downlink :: bool
  psi_qfi :: u8
  psi_rqi :: bool

definition ul_frame :: "u8 \<Rightarrow> bytes" where
  "ul_frame qfi = [push_bit 4 UL_PDU_SESSION_INFORMATION, qfi AND 0x3F]"

definition dl_frame :: "u8 \<Rightarrow> bool \<Rightarrow> bytes" where
  "dl_frame qfi rqi =
     [push_bit 4 DL_PDU_SESSION_INFORMATION, push_bit 6 (of_bool rqi) OR (qfi AND 0x3F)]"

definition psup_parse :: "bytes \<Rightarrow> PduSessionInfo option" where
  "psup_parse frame =
     (if length frame < 2 then None
      else let second = frame ! 1; ty = drop_bit 4 (frame ! 0) in
        if ty = DL_PDU_SESSION_INFORMATION
        then Some \<lparr>psi_downlink = True, psi_qfi = second AND 0x3F, psi_rqi = (second AND 0x40 \<noteq> 0)\<rparr>
        else if ty = UL_PDU_SESSION_INFORMATION
        then Some \<lparr>psi_downlink = False, psi_qfi = second AND 0x3F, psi_rqi = False\<rparr>
        else None)"

lemmas psup_consts = DL_PDU_SESSION_INFORMATION_def UL_PDU_SESSION_INFORMATION_def

lemma and_63_and_63 [simp]: "(q AND 0x3F) AND 0x3F = (q AND 0x3F :: u8)"
  by (simp add: and.assoc)

lemma rqi_qfi_bits:
  "(push_bit 6 (of_bool rqi) OR (q AND 0x3F)) AND 0x3F = (q AND 0x3F :: u8)"
  "((push_bit 6 (of_bool rqi) OR (q AND 0x3F)) AND 0x40 = (0 :: u8)) = (\<not> rqi)"
proof -
  show "(push_bit 6 (of_bool rqi) OR (q AND 0x3F)) AND 0x3F = (q AND 0x3F :: u8)"
    by (cases rqi) (simp_all add: bit.conj_disj_distrib2 and.assoc)
  have "(q AND 0x3F) AND 0x40 = (0 :: u8)"
    by (simp add: and.assoc)
  then show "((push_bit 6 (of_bool rqi) OR (q AND 0x3F)) AND 0x40 = (0 :: u8)) = (\<not> rqi)"
    by (cases rqi) (simp_all add: bit.conj_disj_distrib2)
qed

lemma psup_parse_ul_frame:
  "psup_parse (ul_frame qfi) = Some \<lparr>psi_downlink = False, psi_qfi = qfi AND 0x3F, psi_rqi = False\<rparr>"
  by (simp add: psup_parse_def ul_frame_def psup_consts)

lemma psup_parse_dl_frame:
  "psup_parse (dl_frame qfi rqi) = Some \<lparr>psi_downlink = True, psi_qfi = qfi AND 0x3F, psi_rqi = rqi\<rparr>"
  by (simp add: psup_parse_def dl_frame_def psup_consts rqi_qfi_bits)

lemma length_psup_frames [simp]: "length (ul_frame qfi) = 2" "length (dl_frame qfi rqi) = 2"
  by (simp_all add: ul_frame_def dl_frame_def)

text \<open>A frame never yields more than the six bits a QFI has.\<close>

lemma psup_parse_qfi_bound: "psup_parse frame = Some i \<Longrightarrow> unat (psi_qfi i) < 64"
proof -
  have "unat (x AND 0x3F) < 64" for x :: u8
  proof -
    have "x AND 0x3F \<le> 0x3F" by (rule word_and_le1)
    then show ?thesis by (simp add: word_le_nat_alt)
  qed
  then show "psup_parse frame = Some i \<Longrightarrow> unat (psi_qfi i) < 64"
    by (auto simp: psup_parse_def Let_def split: if_splits)
qed

subsection \<open>nru.rs\<close>

definition DL_USER_DATA :: u8 where "DL_USER_DATA = 0"
definition DL_DATA_DELIVERY_STATUS :: u8 where "DL_DATA_DELIVERY_STATUS = 1"

datatype NruFrame = DlUserData u32 | DlDataDeliveryStatus u32

text \<open>\<open>while !(out.len() + 2).is_multiple_of(4) { out.push(0) }\<close>\<close>

function nru_pad :: "bytes \<Rightarrow> bytes" where
  "nru_pad out = (if (length out + 2) mod 4 \<noteq> 0 then nru_pad (out @ [0]) else out)"
  by pat_completeness auto
termination
  by (relation "measure (\<lambda>out. if (length out + 2) mod 4 = 0 then 0 else 4 - (length out + 2) mod 4)")
    (auto simp: mod_Suc)

declare nru_pad.simps [simp del]

definition dl_user_data :: "u32 \<Rightarrow> bytes" where
  "dl_user_data nru_sn = nru_pad ([push_bit 4 DL_USER_DATA, 0x00] @ drop 1 (to_be 4 nru_sn))"

definition dl_data_delivery_status :: "u32 \<Rightarrow> bytes" where
  "dl_data_delivery_status dbs = nru_pad ([push_bit 4 DL_DATA_DELIVERY_STATUS, 0x00] @ to_be 4 dbs)"

definition nru_parse :: "bytes \<Rightarrow> NruFrame option" where
  "nru_parse frame =
     (if frame = [] then None
      else let ty = drop_bit 4 (frame ! 0) in
        if ty = DL_USER_DATA then
          (if length frame < 5 then None
           else Some (DlUserData (push_bit 16 (ucast (frame ! 2)) OR push_bit 8 (ucast (frame ! 3))
                                  OR ucast (frame ! 4))))
        else if ty = DL_DATA_DELIVERY_STATUS then
          (if length frame < 6 then None
           else Some (DlDataDeliveryStatus (from_be [frame ! 2, frame ! 3, frame ! 4, frame ! 5])))
        else None)"

lemmas nru_consts = DL_USER_DATA_def DL_DATA_DELIVERY_STATUS_def

lemma nru_pad_aligned: "(length (nru_pad out) + 2) mod 4 = 0"
proof (induction out rule: nru_pad.induct)
  case (1 out)
  then show ?case
    by (cases "(length out + 2) mod 4 = 0") (simp_all add: nru_pad.simps[of out])
qed

lemma dl_user_data_layout:
  "\<exists>z. dl_user_data sn = [0, 0, ucast (drop_bit 16 sn), ucast (drop_bit 8 sn), ucast sn, z]"
  by (simp add: dl_user_data_def nru_consts to_be_4 nru_pad.simps)

lemma dl_data_delivery_status_layout:
  "dl_data_delivery_status d = [0x10, 0] @ to_be 4 d"
  by (simp add: dl_data_delivery_status_def nru_consts to_be_4 nru_pad.simps)

lemma nru_parse_dl_user_data: "nru_parse (dl_user_data sn) = Some (DlUserData (take_bit 24 sn))"
proof -
  obtain z where "dl_user_data sn = [0, 0, ucast (drop_bit 16 sn), ucast (drop_bit 8 sn), ucast sn, z]"
    using dl_user_data_layout by blast
  moreover have "push_bit 16 (ucast (ucast (drop_bit 16 sn) :: u8)) OR
      push_bit 8 (ucast (ucast (drop_bit 8 sn) :: u8)) OR ucast (ucast sn :: u8) = take_bit 24 sn"
    using from_be_3_take[of sn]
    by (simp add: from_be_def push_bit_or push_bit_push_bit or.assoc)
  ultimately show ?thesis by (simp add: nru_parse_def nru_consts)
qed

lemma nru_parse_delivery_status:
  "nru_parse (dl_data_delivery_status d) = Some (DlDataDeliveryStatus d)"
  by (simp add: dl_data_delivery_status_layout nru_parse_def nru_consts to_be_4)

lemma length_nru_frames [simp]:
  "length (dl_user_data sn) = 6" "length (dl_data_delivery_status d) = 6"
  using dl_user_data_layout[of sn] by (auto simp: dl_data_delivery_status_layout)

end
