(* ===== verification/Gtpu.thy ===== *)
theory Gtpu
  imports Gtpu_Frames
begin

section \<open>GTP-U: the tunnel codec\<close>

text \<open>
  \<open>crates/gtpu/src/lib.rs\<close>: parsing of a datagram (with the walk over the extension-header
  chain), the encapsulations of N3, N9 and F1-U, Echo and End Marker. The two parsers of the
  source run the same loop over the chain with a different body, so the loop is one function
  \<open>ext_walk\<close> taking the body. Its specification is the list of extension headers
  \<open>chain_bytes\<close> lays out: the walk accepts exactly the byte strings that lay out such a list,
  and it folds the body over the headers in order.
\<close>

definition MSG_ECHO_REQUEST :: u8 where "MSG_ECHO_REQUEST = 1"
definition MSG_ECHO_RESPONSE :: u8 where "MSG_ECHO_RESPONSE = 2"
definition MSG_END_MARKER :: u8 where "MSG_END_MARKER = 254"
definition MSG_G_PDU :: u8 where "MSG_G_PDU = 0xFF"
definition EXT_PDU_SESSION_CONTAINER :: u8 where "EXT_PDU_SESSION_CONTAINER = 0x85"
definition EXT_NR_RAN_CONTAINER :: u8 where "EXT_NR_RAN_CONTAINER = 0x84"
definition VERSION_PT :: u8 where "VERSION_PT = 0x30"
definition FLAG_S :: u8 where "FLAG_S = 0x02"
definition FLAG_E :: u8 where "FLAG_E = 0x04"
definition FLAG_PN :: u8 where "FLAG_PN = 0x01"
definition RECOVERY_IE :: u8 where "RECOVERY_IE = 14"

lemmas gtpu_consts = MSG_ECHO_REQUEST_def MSG_ECHO_RESPONSE_def MSG_END_MARKER_def MSG_G_PDU_def
  EXT_PDU_SESSION_CONTAINER_def EXT_NR_RAN_CONTAINER_def VERSION_PT_def FLAG_S_def FLAG_E_def
  FLAG_PN_def RECOVERY_IE_def

datatype N3Message =
    GPdu (gpdu_teid: u32) (gpdu_qfi: "u8 option") (gpdu_payload: bytes)
  | EchoRequest u16
  | EchoResponse u16
  | EndMarker u32
  | Other u8

subsection \<open>The extension-header walk\<close>

text \<open>
  The loop \<open>while next != 0\<close> of both parsers. The state is \<open>next\<close>, \<open>offset\<close> and the value the
  body updates; \<open>None\<close> is the early return on a zero-length or truncated header. Every index is
  guarded: \<open>offset\<close> by \<open>data.get(offset)?\<close>, the header by the length check.
\<close>

function ext_walk :: "(u8 \<Rightarrow> bytes \<Rightarrow> 'a \<Rightarrow> 'a) \<Rightarrow> bytes \<Rightarrow> u8 \<Rightarrow> nat \<Rightarrow> 'a \<Rightarrow> (nat \<times> 'a) option" where
  "ext_walk body data next offset acc =
     (if next = 0 then Some (offset, acc)
      else if length data \<le> offset then None
      else let len = 4 * unat (data ! offset) in
        if len < 4 \<or> length data < offset + len then None
        else ext_walk body data (data ! (offset + len - 1)) (offset + len)
               (body next (subslice (offset + 1) (offset + len - 1) data) acc))"
  by pat_completeness auto
termination
  by (relation "measure (\<lambda>(body, data, next, offset, acc). length data - offset)") auto

declare ext_walk.simps [simp del]

subsection \<open>Parsing\<close>

definition psc_body :: "u8 \<Rightarrow> bytes \<Rightarrow> u8 option \<Rightarrow> u8 option" where
  "psc_body next content qfi =
     (if next = EXT_PDU_SESSION_CONTAINER then map_option psi_qfi (psup_parse content) else qfi)"

definition message_of :: "u8 \<Rightarrow> u32 \<Rightarrow> u16 \<Rightarrow> u8 option \<Rightarrow> bytes \<Rightarrow> N3Message" where
  "message_of msg_type teid sequence qfi payload =
     (if msg_type = MSG_G_PDU then GPdu teid qfi payload
      else if msg_type = MSG_ECHO_REQUEST then EchoRequest sequence
      else if msg_type = MSG_ECHO_RESPONSE then EchoResponse sequence
      else if msg_type = MSG_END_MARKER then EndMarker teid
      else Other msg_type)"

definition parse :: "bytes \<Rightarrow> N3Message option" where
  "parse data =
     (if length data < 8 then None
      else let flags = data ! 0 in
        if flags AND 0xE0 \<noteq> 0x20 then None
        else let
            msg_type = data ! 1;
            teid = from_be [data ! 4, data ! 5, data ! 6, data ! 7];
            has_opt = (flags AND (FLAG_S OR FLAG_E OR FLAG_PN) \<noteq> 0);
            offset = (if has_opt then 12 else 8)
          in if length data < offset then None
             else let
                 sequence = (if has_opt then from_be [data ! 8, data ! 9] else 0)
               in case (if flags AND FLAG_E \<noteq> 0
                        then ext_walk psc_body data (data ! 11) offset None
                        else Some (offset, None)) of
                    None \<Rightarrow> None
                  | Some (off, qfi) \<Rightarrow> Some (message_of msg_type teid sequence qfi (drop off data)))"

definition nrc_body :: "u8 \<Rightarrow> bytes \<Rightarrow> NruFrame option \<Rightarrow> NruFrame option" where
  "nrc_body next content frame = (if next = EXT_NR_RAN_CONTAINER then nru_parse content else frame)"

definition parse_nr_ran_container :: "bytes \<Rightarrow> (u32 \<times> NruFrame \<times> bytes) option" where
  "parse_nr_ran_container data =
     (if length data < 12 then None
      else let flags = data ! 0 in
        if flags AND 0xE0 \<noteq> 0x20 \<or> data ! 1 \<noteq> MSG_G_PDU \<or> flags AND FLAG_E = 0 then None
        else let teid = from_be [data ! 4, data ! 5, data ! 6, data ! 7] in
          case ext_walk nrc_body data (data ! 11) 12 None of
            None \<Rightarrow> None
          | Some (offset, frame) \<Rightarrow>
              (case frame of None \<Rightarrow> None | Some f \<Rightarrow> Some (teid, f, drop offset data)))"

definition decap :: "bytes \<Rightarrow> (u32 \<times> bytes) option" where
  "decap data = (case parse data of Some (GPdu teid qfi payload) \<Rightarrow> Some (teid, payload) | _ \<Rightarrow> None)"

subsection \<open>Building\<close>

definition encap :: "u32 \<Rightarrow> bytes \<Rightarrow> bytes" where
  "encap teid payload =
     [VERSION_PT, MSG_G_PDU] @ to_be 2 (of_nat (length payload) :: u16) @ to_be 4 teid @ payload"

definition encap_with_container :: "u32 \<Rightarrow> bytes \<Rightarrow> bytes \<Rightarrow> bytes" where
  "encap_with_container teid frame payload =
     [VERSION_PT OR FLAG_E, MSG_G_PDU] @ to_be 2 (of_nat (length payload + 8) :: u16) @ to_be 4 teid
     @ [0, 0, 0, EXT_PDU_SESSION_CONTAINER] @ [1] @ frame @ [0] @ payload"

definition encap_ul_qfi :: "u32 \<Rightarrow> u8 \<Rightarrow> bytes \<Rightarrow> bytes" where
  "encap_ul_qfi teid qfi payload = encap_with_container teid (ul_frame qfi) payload"

definition encap_dl_qfi :: "u32 \<Rightarrow> u8 \<Rightarrow> bool \<Rightarrow> bytes \<Rightarrow> bytes" where
  "encap_dl_qfi teid qfi rqi payload = encap_with_container teid (dl_frame qfi rqi) payload"

definition encap_nr_ran_container :: "u32 \<Rightarrow> bytes \<Rightarrow> bytes \<Rightarrow> bytes" where
  "encap_nr_ran_container teid container payload =
     (let units = (length container + 2) div 4; ext_bytes = units * 4 in
      [VERSION_PT OR FLAG_E, MSG_G_PDU]
      @ to_be 2 (of_nat (4 + ext_bytes + length payload) :: u16) @ to_be 4 teid
      @ [0, 0, 0, EXT_NR_RAN_CONTAINER] @ [of_nat units] @ container @ [0] @ payload)"

definition encap_f1u_dl_user_data :: "u32 \<Rightarrow> u32 \<Rightarrow> bytes \<Rightarrow> bytes" where
  "encap_f1u_dl_user_data teid nru_sn pdcp_pdu =
     encap_nr_ran_container teid (dl_user_data nru_sn) pdcp_pdu"

definition encap_f1u_delivery_status :: "u32 \<Rightarrow> u32 \<Rightarrow> bytes" where
  "encap_f1u_delivery_status teid dbs = encap_nr_ran_container teid (dl_data_delivery_status dbs) []"

definition end_marker :: "u32 \<Rightarrow> bytes" where
  "end_marker teid = [VERSION_PT, MSG_END_MARKER] @ to_be 2 (0 :: u16) @ to_be 4 teid"

definition echo :: "u8 \<Rightarrow> u16 \<Rightarrow> bytes \<Rightarrow> bytes" where
  "echo msg_type sequence payload =
     [VERSION_PT OR FLAG_S, msg_type] @ to_be 2 (of_nat (length payload + 4) :: u16)
     @ to_be 4 (0 :: u32) @ to_be 2 sequence @ [0] @ [0] @ payload"

definition echo_request :: "u16 \<Rightarrow> bytes" where
  "echo_request sequence = echo MSG_ECHO_REQUEST sequence []"

definition echo_response :: "u16 \<Rightarrow> bytes" where
  "echo_response sequence = echo MSG_ECHO_RESPONSE sequence [RECOVERY_IE, 0x00]"

subsection \<open>The chain specification\<close>

text \<open>An extension header as TS 29.281 lays it out: its type (held by the previous header) and
  its content, whose length with the two framing octets is a positive number of four-octet
  units that fits the length octet.\<close>

type_synonym ext_header = "u8 \<times> bytes"

definition wf_ext :: "ext_header \<Rightarrow> bool" where
  "wf_ext e \<longleftrightarrow> fst e \<noteq> 0 \<and> (\<exists>k. 1 \<le> k \<and> k < 256 \<and> length (snd e) + 2 = 4 * k)"

fun first_type :: "ext_header list \<Rightarrow> u8" where
  "first_type [] = 0"
| "first_type (e # es) = fst e"

fun chain_bytes :: "ext_header list \<Rightarrow> bytes" where
  "chain_bytes [] = []"
| "chain_bytes (e # es) =
     [of_nat ((length (snd e) + 2) div 4)] @ snd e @ [first_type es] @ chain_bytes es"

lemma wf_ext_units:
  assumes "wf_ext e"
  shows "4 * unat (of_nat ((length (snd e) + 2) div 4) :: u8) = length (snd e) + 2"
    and "4 \<le> length (snd e) + 2"
proof -
  obtain k where "1 \<le> k" "k < 256" and len: "length (snd e) + 2 = 4 * k"
    using assms by (auto simp: wf_ext_def)
  then show "4 * unat (of_nat ((length (snd e) + 2) div 4) :: u8) = length (snd e) + 2"
    by (simp add: unat_of_nat)
  from \<open>1 \<le> k\<close> len show "4 \<le> length (snd e) + 2" by simp
qed

text \<open>Completeness of the walk: a laid-out chain is walked to its end, whatever precedes and
  follows it.\<close>

lemma ext_walk_chain:
  assumes "list_all wf_ext es"
  shows "ext_walk body (pre @ chain_bytes es @ post) (first_type es) (length pre) acc
       = Some (length pre + length (chain_bytes es), fold (\<lambda>e. body (fst e) (snd e)) es acc)"
  using assms
proof (induction es arbitrary: pre acc)
  case Nil
  then show ?case by (simp add: ext_walk.simps)
next
  case (Cons e es)
  let ?u = "of_nat ((length (snd e) + 2) div 4) :: u8"
  let ?data = "pre @ chain_bytes (e # es) @ post"
  let ?pre = "pre @ [?u] @ snd e @ [first_type es]"
  have wf: "wf_ext e" "list_all wf_ext es" using Cons.prems by auto
  note u = wf_ext_units[OF wf(1)]
  have at: "?data ! length pre = ?u" by (simp add: nth_append)
  have nz: "fst e \<noteq> 0" using wf(1) by (simp add: wf_ext_def)
  have last: "?data ! (length pre + (length (snd e) + 2) - 1) = first_type es"
    by (simp add: nth_append)
  have content: "subslice (length pre + 1) (length pre + (length (snd e) + 2) - 1) ?data = snd e"
    using slice_append[of "pre @ [?u]" "length pre + 1" "snd e" "length pre + length (snd e) + 1"
        "[first_type es] @ chain_bytes es @ post"]
    by simp
  have same: "?data = ?pre @ chain_bytes es @ post" by simp
  have "ext_walk body ?data (fst e) (length pre) acc
      = ext_walk body ?data (first_type es) (length pre + (length (snd e) + 2)) (body (fst e) (snd e) acc)"
    by (subst ext_walk.simps)
      (use nz u at last content in \<open>simp add: Let_def del: chain_bytes.simps\<close>, simp)
  also have "\<dots> = ext_walk body (?pre @ chain_bytes es @ post) (first_type es) (length ?pre)
        (body (fst e) (snd e) acc)"
    by simp
  finally show ?case using Cons.IH[OF wf(2), of ?pre "body (fst e) (snd e) acc"] by simp
qed

text \<open>Soundness of the walk: what it accepts is a laid-out chain.\<close>

lemma ext_walk_sound:
  assumes "ext_walk body data next offset acc = Some (off, r)" "offset \<le> length data"
  shows "\<exists>es. list_all wf_ext es \<and> first_type es = next \<and> off = offset + length (chain_bytes es)
      \<and> off \<le> length data \<and> subslice offset off data = chain_bytes es
      \<and> r = fold (\<lambda>e. body (fst e) (snd e)) es acc"
  using assms
proof (induction body data "next" offset acc arbitrary: off r rule: ext_walk.induct)
  case (1 body data nxt offset acc)
  show ?case
  proof (cases "nxt = 0")
    case True
    with "1.prems" show ?thesis
      by (intro exI[of _ "[]"]) (auto simp: ext_walk.simps subslice_def)
  next
    case False
    let ?len = "4 * unat (data ! offset)"
    let ?c = "subslice (offset + 1) (offset + ?len - 1) data"
    have ok: "offset < length data" "4 \<le> ?len" "offset + ?len \<le> length data"
      and rec: "ext_walk body data (data ! (offset + ?len - 1)) (offset + ?len) (body nxt ?c acc)
        = Some (off, r)"
      using "1.prems"(1) False by (auto simp: ext_walk.simps[of body data nxt] Let_def split: if_splits)
    have pre: "\<not> length data \<le> offset" "\<not> (?len < 4 \<or> length data < offset + ?len)" using ok by auto
    from "1.IH"[OF False pre(1) refl pre(2) rec ok(3)]
    obtain es where es: "list_all wf_ext es" "first_type es = data ! (offset + ?len - 1)"
      "off = offset + ?len + length (chain_bytes es)" "off \<le> length data"
      "subslice (offset + ?len) off data = chain_bytes es"
      "r = fold (\<lambda>e. body (fst e) (snd e)) es (body nxt ?c acc)" by blast
    have lc: "length ?c + 2 = ?len" using ok by simp
    have wf: "wf_ext (nxt, ?c)"
      using False lc ok(2) unsigned_less[of "data ! offset", where ?'a = nat]
      by (auto simp: wf_ext_def intro!: exI[of _ "unat (data ! offset)"])
    have cb: "chain_bytes ((nxt, ?c) # es)
        = [data ! offset] @ ?c @ [data ! (offset + ?len - 1)] @ chain_bytes es"
    proof -
      have "(length ?c + 2) div 4 = unat (data ! offset)" using lc by linarith
      then have "(of_nat ((length ?c + 2) div 4) :: u8) = data ! offset" by (simp only: of_nat_unat ucast_id)
      then show ?thesis by (simp only: chain_bytes.simps fst_conv snd_conv es(2))
    qed
    have hd: "subslice offset (offset + ?len) data = [data ! offset] @ ?c @ [data ! (offset + ?len - 1)]"
      using ok by (intro slice_ends) auto
    have "subslice offset off data = subslice offset (offset + ?len) data @ subslice (offset + ?len) off data"
      using es(3) by (intro slice_add) auto
    with cb hd es(5) have sl: "subslice offset off data = chain_bytes ((nxt, ?c) # es)" by simp
    have "off = offset + length (chain_bytes ((nxt, ?c) # es))"
      using cb es(3) lc by simp
    with es wf sl show ?thesis
      by (intro exI[of _ "(nxt, ?c) # es"]) simp
  qed
qed


subsection \<open>One container: the interface between the frame codecs and the tunnel codec\<close>

text \<open>
  What the tunnel codec needs of a frame codec: the reader recovers the value written, and the
  frame fills a whole number of four-octet units together with its two framing octets. PSUP
  uplink, PSUP downlink and the two NR-U frames provide it.
\<close>

locale container_codec =
  fixes etype :: u8 and frame :: "'x \<Rightarrow> bytes" and reader :: "bytes \<Rightarrow> 'y option" and view :: "'x \<Rightarrow> 'y"
  assumes etype_nonzero: "etype \<noteq> 0"
    and read_frame: "reader (frame x) = Some (view x)"
    and frame_units: "\<exists>k. 1 \<le> k \<and> k < 256 \<and> length (frame x) + 2 = 4 * k"
begin

lemma wf: "wf_ext (etype, frame x)"
  using etype_nonzero frame_units by (simp add: wf_ext_def)

text \<open>The walk over a chain that is exactly this container ends right before the payload with
  the value read.\<close>

lemma walk:
  assumes "length hdr = 12"
  shows "ext_walk (\<lambda>t c a. if t = etype then reader c else a)
      (hdr @ [of_nat ((length (frame x) + 2) div 4)] @ frame x @ [0] @ payload) etype 12 None
    = Some (14 + length (frame x), Some (view x))"
  using ext_walk_chain[of "[(etype, frame x)]" "\<lambda>t c a. if t = etype then reader c else a" hdr payload None]
    wf assms by (simp add: read_frame)

end

interpretation psup_ul: container_codec EXT_PDU_SESSION_CONTAINER ul_frame
  "\<lambda>c. map_option psi_qfi (psup_parse c)" "\<lambda>qfi. qfi AND 0x3F"
  by unfold_locales (auto simp: gtpu_consts psup_parse_ul_frame)

interpretation psup_dl: container_codec EXT_PDU_SESSION_CONTAINER "\<lambda>(qfi, rqi). dl_frame qfi rqi"
  "\<lambda>c. map_option psi_qfi (psup_parse c)" "\<lambda>(qfi, rqi). qfi AND 0x3F"
  by unfold_locales (auto simp: gtpu_consts psup_parse_dl_frame)

interpretation nru_dud: container_codec EXT_NR_RAN_CONTAINER dl_user_data nru_parse
  "\<lambda>sn. DlUserData (take_bit 24 sn)"
  by unfold_locales (auto simp: gtpu_consts nru_parse_dl_user_data intro!: exI[of _ 2])

interpretation nru_dds: container_codec EXT_NR_RAN_CONTAINER dl_data_delivery_status nru_parse
  DlDataDeliveryStatus
  by unfold_locales (auto simp: gtpu_consts nru_parse_delivery_status intro!: exI[of _ 2])

lemma psc_body_eq:
  "psc_body = (\<lambda>t c a. if t = EXT_PDU_SESSION_CONTAINER then map_option psi_qfi (psup_parse c) else a)"
  by (simp add: psc_body_def fun_eq_iff)

lemma nrc_body_eq: "nrc_body = (\<lambda>t c a. if t = EXT_NR_RAN_CONTAINER then nru_parse c else a)"
  by (simp add: nrc_body_def fun_eq_iff)

text \<open>The twelve octets before the chain, as every builder with an extension header writes them.\<close>

definition ext_hdr :: "u32 \<Rightarrow> u16 \<Rightarrow> u8 \<Rightarrow> bytes" where
  "ext_hdr teid l t = [VERSION_PT OR FLAG_E, MSG_G_PDU] @ to_be 2 l @ to_be 4 teid @ [0, 0, 0, t]"

lemma length_ext_hdr [simp]: "length (ext_hdr teid l t) = 12"
  by (simp add: ext_hdr_def)

lemma ext_hdr_nth:
  "(ext_hdr teid l t @ rest) ! 0 = VERSION_PT OR FLAG_E" "(ext_hdr teid l t @ rest) ! 1 = MSG_G_PDU"
  "(ext_hdr teid l t @ rest) ! 11 = t"
  "from_be [(ext_hdr teid l t @ rest) ! 4, (ext_hdr teid l t @ rest) ! 5,
     (ext_hdr teid l t @ rest) ! 6, (ext_hdr teid l t @ rest) ! 7] = teid"
  by (simp_all add: ext_hdr_def to_be_2 to_be_4)

lemma encap_with_container_layout:
  "encap_with_container teid frame payload =
     ext_hdr teid (of_nat (length payload + 8)) EXT_PDU_SESSION_CONTAINER @ [1] @ frame @ [0] @ payload"
  by (simp add: encap_with_container_def ext_hdr_def)

lemma encap_nr_ran_container_layout:
  "encap_nr_ran_container teid c payload =
     ext_hdr teid (of_nat (4 + (length c + 2) div 4 * 4 + length payload)) EXT_NR_RAN_CONTAINER
     @ [of_nat ((length c + 2) div 4)] @ c @ [0] @ payload"
  by (simp add: encap_nr_ran_container_def ext_hdr_def Let_def)

lemma parse_with_extensions:
  "parse (ext_hdr teid l t @ rest) = (case ext_walk psc_body (ext_hdr teid l t @ rest) t 12 None of
        None \<Rightarrow> None | Some (off, qfi) \<Rightarrow> Some (GPdu teid qfi (drop off (ext_hdr teid l t @ rest))))"
  unfolding parse_def Let_def ext_hdr_nth
  by (simp add: gtpu_consts message_of_def split: option.splits)

lemma parse_nr_with_extensions:
  "parse_nr_ran_container (ext_hdr teid l t @ rest) =
     (case ext_walk nrc_body (ext_hdr teid l t @ rest) t 12 None of None \<Rightarrow> None
      | Some (off, f) \<Rightarrow> (case f of None \<Rightarrow> None
          | Some f \<Rightarrow> Some (teid, f, drop off (ext_hdr teid l t @ rest))))"
  unfolding parse_nr_ran_container_def Let_def ext_hdr_nth
  by (simp add: gtpu_consts split: option.splits)

lemma parse_encap_ul_qfi: "parse (encap_ul_qfi teid qfi payload) = Some (GPdu teid (Some (qfi AND 0x3F)) payload)"
  using psup_ul.walk[OF length_ext_hdr, of _ _ _ qfi payload]
  by (simp add: encap_ul_qfi_def encap_with_container_layout parse_with_extensions psc_body_eq)

lemma parse_encap_dl_qfi: "parse (encap_dl_qfi teid qfi rqi payload) = Some (GPdu teid (Some (qfi AND 0x3F)) payload)"
  using psup_dl.walk[OF length_ext_hdr, of _ _ _ "(qfi, rqi)" payload]
  by (simp add: encap_dl_qfi_def encap_with_container_layout parse_with_extensions psc_body_eq)

lemma parse_encap: "parse (encap teid payload) = Some (GPdu teid None payload)"
  by (simp add: parse_def encap_def gtpu_consts to_be_2 to_be_4 message_of_def)

lemma echo_layout:
  "echo t sq p = [VERSION_PT OR FLAG_S, t] @ to_be 2 (of_nat (length p + 4) :: u16)
     @ to_be 4 (0 :: u32) @ to_be 2 sq @ [0, 0] @ p"
  by (simp add: echo_def)

subsection \<open>Properties\<close>

text \<open>Every G-PDU encapsulation of the data path parses back to its tunnel, payload and QoS
  flow identifier: plain on N9, with the six bits of the QFI on N3 uplink and downlink
  (whatever the reflective-QoS bit).\<close>

theorem gpdu_roundtrip:
  "parse (encap teid payload) = Some (GPdu teid None payload)
   \<and> parse (encap_ul_qfi teid qfi payload) = Some (GPdu teid (Some (qfi AND 0x3F)) payload)
   \<and> parse (encap_dl_qfi teid qfi rqi payload) = Some (GPdu teid (Some (qfi AND 0x3F)) payload)
   \<and> decap (encap_dl_qfi teid qfi rqi payload) = Some (teid, payload)"
  by (simp add: parse_encap parse_encap_ul_qfi parse_encap_dl_qfi decap_def)

text \<open>The F1-U packets parse back: the NR-U sequence number keeps its low 24 bits, the
  desired buffer size all 32, and the PDCP PDU is the payload.\<close>

theorem f1u_roundtrip:
  "parse_nr_ran_container (encap_f1u_dl_user_data teid sn pdu) = Some (teid, DlUserData (take_bit 24 sn), pdu)
   \<and> parse_nr_ran_container (encap_f1u_delivery_status teid dbs) = Some (teid, DlDataDeliveryStatus dbs, [])"
  using nru_dud.walk[OF length_ext_hdr, of _ _ _ sn pdu] nru_dds.walk[OF length_ext_hdr, of _ _ _ dbs "[]"]
  by (simp add: encap_f1u_dl_user_data_def encap_f1u_delivery_status_def encap_nr_ran_container_layout
      parse_nr_with_extensions nrc_body_eq)

text \<open>The path-management messages parse back to themselves, are never taken for user data,
  and an End Marker names its tunnel.\<close>

theorem path_management_roundtrip:
  "parse (echo_request sq) = Some (EchoRequest sq) \<and> parse (echo_response sq) = Some (EchoResponse sq)
   \<and> parse (end_marker teid) = Some (EndMarker teid)
   \<and> decap (echo_request sq) = None \<and> decap (echo_response sq) = None \<and> decap (end_marker teid) = None"
  by (simp add: echo_request_def echo_response_def end_marker_def echo_layout parse_def decap_def
      gtpu_consts to_be_2 to_be_4 message_of_def ext_walk.simps)

text \<open>C36: exact acceptance of extension-header chains. A version-1 G-PDU with the E flag parses
  to \<open>GPdu teid qfi payload\<close> if and only if the octets after the fixed header are a chain of
  well-formed extension headers (any types, any order) followed by the payload; the QFI is the
  one of the last PDU Session Container of the chain. Zero-length and truncated headers are
  rejected, and the walk never reads outside the datagram.\<close>

theorem parse_extended_iff:
  assumes "12 \<le> length data" "data ! 0 AND 0xE0 = 0x20" "data ! 0 AND FLAG_E \<noteq> 0" "data ! 1 = MSG_G_PDU"
  shows "parse data = Some (GPdu teid qfi payload) \<longleftrightarrow>
    teid = from_be (subslice 4 8 data) \<and>
    (\<exists>es. list_all wf_ext es \<and> first_type es = data ! 11 \<and> drop 12 data = chain_bytes es @ payload
        \<and> qfi = fold (\<lambda>e. psc_body (fst e) (snd e)) es None)"
    (is "_ \<longleftrightarrow> ?rhs")
proof -
  have teid: "from_be [data ! 4, data ! 5, data ! 6, data ! 7] = (from_be (subslice 4 8 data) :: u32)"
  proof -
    have "subslice 4 8 data = [data ! 4, data ! 5, data ! 6, data ! 7]"
      using assms(1) by (intro nth_equalityI) (auto simp: subslice_def less_Suc_eq numeral_eq_Suc)
    then show ?thesis by simp
  qed
  have opt: "data ! 0 AND (FLAG_S OR FLAG_E OR FLAG_PN) \<noteq> 0"
  proof
    assume "data ! 0 AND (FLAG_S OR FLAG_E OR FLAG_PN) = 0"
    then have "(data ! 0 AND (FLAG_S OR FLAG_E OR FLAG_PN)) AND FLAG_E = 0" by simp
    with assms(3) show False by (simp add: and.assoc gtpu_consts)
  qed
  have walk: "parse data = (case ext_walk psc_body data (data ! 11) 12 None of None \<Rightarrow> None
      | Some (off, q) \<Rightarrow> Some (GPdu (from_be (subslice 4 8 data)) q (drop off data)))"
    using assms opt by (simp add: parse_def Let_def message_of_def teid split: option.splits)
  show ?thesis
  proof
    assume "parse data = Some (GPdu teid qfi payload)"
    then obtain off where w: "ext_walk psc_body data (data ! 11) 12 None = Some (off, qfi)"
      and t: "teid = from_be (subslice 4 8 data)" and p: "payload = drop off data"
      by (auto simp: walk split: option.splits)
    from ext_walk_sound[OF w assms(1)] obtain es where es: "list_all wf_ext es"
      "first_type es = data ! 11" "off = 12 + length (chain_bytes es)" "off \<le> length data"
      "subslice 12 off data = chain_bytes es" "qfi = fold (\<lambda>e. psc_body (fst e) (snd e)) es None" by blast
    have "drop 12 data = chain_bytes es @ payload"
      using es(3,4,5) p by (simp add: subslice_def) (metis append_take_drop_id drop_drop add.commute)
    with es t show ?rhs by blast
  next
    assume ?rhs
    then obtain es where t: "teid = from_be (subslice 4 8 data)" and es: "list_all wf_ext es"
      "first_type es = data ! 11" "drop 12 data = chain_bytes es @ payload"
      "qfi = fold (\<lambda>e. psc_body (fst e) (snd e)) es None" by blast
    have split: "take 12 data @ chain_bytes es @ payload = data"
      using es(3) by (metis append_take_drop_id)
    have "ext_walk psc_body data (data ! 11) 12 None = Some (12 + length (chain_bytes es), qfi)"
      using ext_walk_chain[OF es(1), of psc_body "take 12 data" payload None] assms(1) split es
      by (simp add: min_absorb2)
    moreover have "drop (12 + length (chain_bytes es)) data = payload"
      using es(3) by (metis add.commute append_eq_conv_conj drop_drop)
    ultimately show "parse data = Some (GPdu teid qfi payload)" by (simp add: walk t)
  qed
qed

theorem parse_extended_iff_witness:
  "parse (encap_ul_qfi 7 9 [1, 2]) = Some (GPdu 7 (Some 9) [1, 2]) \<longleftrightarrow>
    (7 :: u32) = from_be (subslice 4 8 (encap_ul_qfi 7 9 [1, 2])) \<and>
    (\<exists>es. list_all wf_ext es \<and> first_type es = encap_ul_qfi 7 9 [1, 2] ! 11
        \<and> drop 12 (encap_ul_qfi 7 9 [1, 2]) = chain_bytes es @ [1, 2]
        \<and> Some 9 = fold (\<lambda>e. psc_body (fst e) (snd e)) es None)"
  by (rule parse_extended_iff)
    (simp_all add: encap_ul_qfi_def encap_with_container_def ul_frame_def gtpu_consts to_be_2 to_be_4)

text \<open>The length field of every message built counts the octets after the first eight, modulo
  \<open>2 ^ 16\<close>: exact up to 65535 and truncated beyond, since the source casts a \<open>usize\<close> to \<open>u16\<close>.\<close>

theorem gtpu_length_field:
  "from_be (subslice 2 4 (encap teid payload)) = (of_nat (length (encap teid payload) - 8) :: u16)
   \<and> from_be (subslice 2 4 (encap_ul_qfi teid qfi payload)) = (of_nat (length (encap_ul_qfi teid qfi payload) - 8) :: u16)
   \<and> from_be (subslice 2 4 (encap_dl_qfi teid qfi rqi payload)) = (of_nat (length (encap_dl_qfi teid qfi rqi payload) - 8) :: u16)
   \<and> from_be (subslice 2 4 (encap_f1u_dl_user_data teid sn pdu)) = (of_nat (length (encap_f1u_dl_user_data teid sn pdu) - 8) :: u16)
   \<and> from_be (subslice 2 4 (end_marker teid)) = (of_nat (length (end_marker teid) - 8) :: u16)
   \<and> from_be (subslice 2 4 (echo_response sq)) = (of_nat (length (echo_response sq) - 8) :: u16)"
proof -
  have field: "from_be (subslice 2 4 ([a, b] @ to_be 2 l @ rest)) = (l :: u16)" for a b l rest
    by (simp add: subslice_def to_be_2)
  show ?thesis
    by (intro conjI; simp only: encap_def encap_ul_qfi_def encap_dl_qfi_def encap_with_container_def
        encap_f1u_dl_user_data_def encap_nr_ran_container_def Let_def end_marker_def echo_response_def
        echo_layout field append_Nil2)
      (simp_all add: add.commute)
qed

end
