(* ===== verification/N6.thy ===== *)
theory N6
  imports Pfcp_State Gtpu
begin

unbundle bit_operations_syntax

section \<open>N6: the forwarding decisions and router advertisements\<close>

text \<open>
  \<open>crates/n6/src/lib.rs\<close>: the address parsers, the fate of an uplink packet (\<open>uplink\<close>) and of a
  downlink packet (\<open>downlink\<close>) as state transformers over the UPF session table, the internet
  checksum, and the Router Advertisement the UPF sends an IPv6 UE together with the parser of
  its prefix option. The two operations are named \<open>n6_uplink\<close> and \<open>n6_downlink\<close>.
\<close>

subsection \<open>Addresses\<close>

definition ipv4_addrs :: "bytes \<Rightarrow> (u32 \<times> u32) option" where
  "ipv4_addrs pkt = (if length pkt < 20 \<or> drop_bit 4 (pkt ! 0) \<noteq> 4 then None
     else Some (from_be [pkt ! 12, pkt ! 13, pkt ! 14, pkt ! 15], from_be [pkt ! 16, pkt ! 17, pkt ! 18, pkt ! 19]))"

definition ipv6_addrs :: "bytes \<Rightarrow> (128 word \<times> 128 word) option" where
  "ipv6_addrs pkt = (if length pkt < 40 \<or> drop_bit 4 (pkt ! 0) \<noteq> 6 then None
     else Some (from_be (subslice 8 24 pkt), from_be (subslice 24 40 pkt)))"

definition in_prefix64 :: "128 word \<Rightarrow> 128 word \<Rightarrow> bool" where
  "in_prefix64 addr pre = (take 8 (to_be 16 addr) = take 8 (to_be 16 pre))"

subsection \<open>Router advertisements\<close>

definition is_router_solicitation :: "bytes \<Rightarrow> bool" where
  "is_router_solicitation pkt = (length pkt \<ge> 41 \<and> drop_bit 4 (pkt ! 0) = 6 \<and> pkt ! 6 = 58 \<and> pkt ! 40 = 133)"

definition ROUTER_LINK_LOCAL :: "128 word" where
  "ROUTER_LINK_LOCAL = 0xfe800000000000000000000000000001"

definition ALL_NODES :: "128 word" where
  "ALL_NODES = 0xff020000000000000000000000000001"

text \<open>The sum of the 16-bit words, an odd last octet as the high octet of a word.\<close>

fun word_sum :: "bytes \<Rightarrow> u32 \<Rightarrow> u32" where
  "word_sum (a # b # bs) acc = word_sum bs (acc + ucast (from_be [a, b] :: u16))"
| "word_sum [a] acc = acc + push_bit 8 (ucast a)"
| "word_sum [] acc = acc"

lemma fold_step_less:
  assumes "drop_bit 16 (s :: u32) \<noteq> 0"
  shows "unat ((s AND 0xffff) + drop_bit 16 s) < unat s"
    and "unat ((s AND 0xffff) + drop_bit 16 s) = unat s mod 65536 + unat s div 65536"
proof -
  have "s AND 0xffff = take_bit 16 s" by (simp add: take_bit_eq_mask mask_eq_exp_minus_1)
  then have m: "unat (s AND 0xffff) = unat s mod 65536" by (simp only: unsigned_take_bit_eq) (simp add: take_bit_eq_mod)
  have d: "unat (drop_bit 16 s) = unat s div 65536" by (simp only: unat_drop_bit_eq) (simp add: drop_bit_eq_div)
  have "unat s div 65536 \<noteq> 0" using assms d by (metis unat_eq_zero)
  have lt: "unat s < 4294967296" using unsigned_less[of s, where ?'a = nat] by simp
  then have "unat s mod 65536 + unat s div 65536 < 4294967296" by linarith
  then show eq: "unat ((s AND 0xffff) + drop_bit 16 s) = unat s mod 65536 + unat s div 65536"
    by (simp add: unat_word_ariths m d)
  have "unat s = 65536 * (unat s div 65536) + unat s mod 65536" by simp
  with \<open>unat s div 65536 \<noteq> 0\<close> show "unat ((s AND 0xffff) + drop_bit 16 s) < unat s"
    unfolding eq by linarith
qed

function fold_carries :: "u32 \<Rightarrow> u32" where
  "fold_carries acc = (if drop_bit 16 acc \<noteq> 0 then fold_carries ((acc AND 0xffff) + drop_bit 16 acc) else acc)"
  by pat_completeness auto
termination by (relation "measure unat") (auto simp only: in_measure wf_measure fold_step_less(1) intro: fold_step_less(1))

declare fold_carries.simps [simp del]

definition checksum :: "bytes \<Rightarrow> u16" where
  "checksum data = NOT (ucast (fold_carries (word_sum data 0)))"

definition icmpv6_checksum :: "128 word \<Rightarrow> 128 word \<Rightarrow> bytes \<Rightarrow> u16" where
  "icmpv6_checksum src dst icmp =
     checksum (to_be 16 src @ to_be 16 dst @ to_be 4 (of_nat (length icmp) :: u32) @ [0, 0, 0, 58] @ icmp)"

definition ipv6_icmp_packet :: "128 word \<Rightarrow> 128 word \<Rightarrow> u8 \<Rightarrow> bytes \<Rightarrow> bytes" where
  "ipv6_icmp_packet src dst hop_limit icmp =
     [0x60, 0, 0, 0] @ to_be 2 (of_nat (length icmp) :: u16) @ [58, hop_limit] @ to_be 16 src @ to_be 16 dst @ icmp"

text \<open>The ICMPv6 message of a Router Advertisement, with the given checksum octets.\<close>

definition ra_icmp :: "128 word \<Rightarrow> u8 \<Rightarrow> bytes \<Rightarrow> bytes" where
  "ra_icmp pre prefix_len ck = [134, 0] @ ck @ [64, 0] @ to_be 2 (1800 :: u16) @ to_be 4 (0 :: u32) @ to_be 4 (0 :: u32)
     @ [3, 4, prefix_len, 0xC0] @ to_be 4 (86400 :: u32) @ to_be 4 (14400 :: u32) @ to_be 4 (0 :: u32) @ to_be 16 pre"

definition router_advertisement :: "128 word \<Rightarrow> u8 \<Rightarrow> 128 word \<Rightarrow> bytes" where
  "router_advertisement pre prefix_len dst =
    (let c = icmpv6_checksum ROUTER_LINK_LOCAL dst (ra_icmp pre prefix_len [0, 0])
     in ipv6_icmp_packet ROUTER_LINK_LOCAL dst 255 (ra_icmp pre prefix_len (to_be 2 c)))"

text \<open>The option walk of \<open>ra_prefix\<close>.\<close>

function ra_options :: "bytes \<Rightarrow> nat \<Rightarrow> (128 word \<times> u8) option" where
  "ra_options pkt i =
    (if i + 8 \<le> length pkt then
       let opt_len = unat (pkt ! (i + 1)) * 8 in
       if opt_len = 0 then None
       else if pkt ! i = 3 \<and> i + 32 \<le> length pkt then Some (from_be (subslice (i + 16) (i + 32) pkt), pkt ! (i + 2))
       else ra_options pkt (i + opt_len)
     else None)"
  by pat_completeness auto
termination by (relation "measure (\<lambda>(pkt, i). length pkt - i)") auto

declare ra_options.simps [simp del]

definition ra_prefix :: "bytes \<Rightarrow> (128 word \<times> u8) option" where
  "ra_prefix pkt = (if length pkt < 41 \<or> drop_bit 4 (pkt ! 0) \<noteq> 6 \<or> pkt ! 6 \<noteq> 58 \<or> pkt ! 40 \<noteq> 134 then None
     else ra_options pkt (40 + 16))"

subsection \<open>Uplink\<close>

datatype Uplink =
    UlToN6 bytes
  | Forward u32 u32 bytes
  | UnknownTeid
  | Spoofed ip_addr ip_addr
  | UnassignedFamily "ip_addr option"
  | UlRateLimited
  | RouterSolicitation

text \<open>The anti-spoofing check: \<open>None\<close> lets the packet pass.\<close>

definition source_check :: "u32 option \<Rightarrow> 128 word option \<Rightarrow> bytes \<Rightarrow> Uplink option" where
  "source_check assigned_v4 assigned_v6 inner =
    (if assigned_v4 = None \<and> assigned_v6 = None then None
     else (case ipv4_addrs inner of
       Some (src, _) \<Rightarrow> (case assigned_v4 of
           Some ip \<Rightarrow> if src = ip then None else Some (Spoofed (IpV4 src) (IpV4 ip))
         | None \<Rightarrow> Some (UnassignedFamily (Some (IpV4 src))))
     | None \<Rightarrow> (case ipv6_addrs inner of
         Some (src, _) \<Rightarrow> (case assigned_v6 of
             Some p \<Rightarrow> if in_prefix64 src p then None else Some (Spoofed (IpV6 src) (IpV6 p))
           | None \<Rightarrow> Some (UnassignedFamily (Some (IpV6 src))))
       | None \<Rightarrow> Some (UnassignedFamily None))))"

definition n6_uplink :: "upf_state \<Rightarrow> u32 \<Rightarrow> bytes \<Rightarrow> u64 \<Rightarrow> Uplink \<times> upf_state" where
  "n6_uplink st teid inner now =
    (case downlink_via_n9_ingress st teid of
       Some (gnb_teid, gnb_ip) \<Rightarrow> (Forward gnb_teid gnb_ip inner, st)
     | None \<Rightarrow>
         if \<not> knows_teid st teid then (UnknownTeid, st)
         else if ue_ipv6_for_teid st teid \<noteq> None \<and> is_router_solicitation inner then (RouterSolicitation, st)
         else (case source_check (ue_ip_for_teid st teid) (ue_ipv6_for_teid st teid) inner of
           Some refusal \<Rightarrow> (refusal, st)
         | None \<Rightarrow>
             (case admit_uplink st teid now inner of (ok, st') \<Rightarrow>
               if \<not> ok then (UlRateLimited, st')
               else (case uplink_egress_for st' teid inner of
                   Some (ToPeer t a) \<Rightarrow> (Forward t a inner, st')
                 | _ \<Rightarrow> (UlToN6 inner, st')))))"

subsection \<open>Downlink\<close>

datatype Downlink =
    ToN3 u32 bytes
  | Buffered
  | NoRoute
  | Unsupported
  | DlRateLimited

definition n6_downlink :: "upf_state \<Rightarrow> bytes \<Rightarrow> u64 \<Rightarrow> Downlink \<times> upf_state" where
  "n6_downlink st pkt now =
    (case ipv4_addrs pkt of
       Some (_, dst) \<Rightarrow>
         (case route_downlink_marked st dst pkt of
            None \<Rightarrow> (case buffer_downlink st dst pkt of (buffered, st') \<Rightarrow> (if buffered then Buffered else NoRoute, st'))
          | Some (gnb_teid, gnb_ip, qfi) \<Rightarrow>
              (case admit_downlink st dst now pkt of (ok, st') \<Rightarrow>
                 if \<not> ok then (DlRateLimited, st') else (ToN3 gnb_ip (encap_dl_qfi gnb_teid qfi False pkt), st')))
     | None \<Rightarrow>
         (case ipv6_addrs pkt of
            Some (_, dst) \<Rightarrow>
              (case route_downlink_marked_v6 st dst pkt of
                 None \<Rightarrow> (NoRoute, st)
               | Some (gnb_teid, gnb_ip, qfi) \<Rightarrow>
                   (case admit_downlink_v6 st dst now pkt of (ok, st') \<Rightarrow>
                      if \<not> ok then (DlRateLimited, st') else (ToN3 gnb_ip (encap_dl_qfi gnb_teid qfi False pkt), st')))
          | None \<Rightarrow> (Unsupported, st)))"

subsection \<open>The checksum\<close>

lemma fold_carries_value:
  "unat (fold_carries s) < 65536 \<and> unat (fold_carries s) mod 65535 = unat s mod 65535
    \<and> (unat (fold_carries s) = 0 \<longleftrightarrow> unat s = 0)"
proof (induction s rule: fold_carries.induct)
  case (1 s)
  show ?case
  proof (cases "drop_bit 16 s = 0")
    case True
    then have "unat (drop_bit 16 s) = 0" by simp
    then have "drop_bit 16 (unat s) = 0" by (simp only: unat_drop_bit_eq)
    then have "unat s < 65536" by (simp add: drop_bit_eq_div div_eq_0_iff)
    with True show ?thesis by (subst (1 2 3) fold_carries.simps) simp
  next
    case False
    let ?t = "(s AND 0xffff) + drop_bit 16 s"
    have t: "unat ?t = unat s mod 65536 + unat s div 65536" using False by (rule fold_step_less(2))
    have "unat s = 65535 * (unat s div 65536) + unat ?t" unfolding t by simp
    then have "unat s mod 65535 = unat ?t mod 65535" by (metis mod_mult_self4)
    moreover have "unat ?t = 0 \<longleftrightarrow> unat s = 0" unfolding t by (auto simp: div_eq_0_iff)
    ultimately show ?thesis using 1[OF False] False by (subst (1 2 3) fold_carries.simps) simp
  qed
qed

fun nat_sum :: "bytes \<Rightarrow> nat" where
  "nat_sum (a # b # bs) = 256 * unat a + unat b + nat_sum bs"
| "nat_sum [a] = 256 * unat a"
| "nat_sum [] = 0"

lemma unat_be2: "unat (from_be [a, b] :: u16) = 256 * unat a + unat b"
proof -
  have "(from_be [a, b] :: u16) = push_bit 8 (ucast a) OR ucast b" by (simp add: from_be_def)
  also have "\<dots> = push_bit 8 (ucast a) + ucast b"
    by (rule disjunctive_add_eq_or[symmetric]) (rule bit_word_eqI, auto simp: bit_simps dest: bit_imp_le_length)
  finally show ?thesis
    using unsigned_less[of a, where ?'a = nat] unsigned_less[of b, where ?'a = nat]
    by (simp add: unat_word_ariths push_bit_eq_mult unsigned_ucast_eq take_bit_eq_mod)
qed

lemma nat_sum_append: "even (length xs) \<Longrightarrow> nat_sum (xs @ ys) = nat_sum xs + nat_sum ys"
  by (induction xs rule: nat_sum.induct) auto

lemma nat_sum_bound: "nat_sum bs \<le> 65535 * ((length bs + 1) div 2)"
proof (induction bs rule: nat_sum.induct)
  case (1 a b bs)
  then show ?case using unat_octet_le[of a] unat_octet_le[of b] by simp
next
  case (2 a)
  then show ?case using unat_octet_le[of a] by simp
qed simp

lemma unat_word_sum:
  "unat acc + nat_sum bs < 2 ^ 32 \<Longrightarrow> unat (word_sum bs acc) = unat acc + nat_sum bs"
proof (induction bs acc rule: word_sum.induct)
  case (1 a b bs acc)
  have u: "unat (ucast (from_be [a, b] :: u16) :: u32) = 256 * unat a + unat b"
    using unat_be2[of a b] unsigned_less[of "from_be [a, b] :: u16", where ?'a = nat]
    by (simp add: unsigned_ucast_eq take_bit_eq_mod)
  have "unat (acc + ucast (from_be [a, b] :: u16)) = unat acc + (256 * unat a + unat b)"
    using 1(2) by (simp add: unat_word_ariths u)
  then show ?case using 1 by simp
next
  case (2 a acc)
  have "unat (push_bit 8 (ucast a) :: u32) = 256 * unat a"
    using unat_octet_le[of a] by (simp add: push_bit_eq_mult unat_word_ariths unsigned_ucast_eq take_bit_eq_mod)
  then show ?case using 2 by (simp add: unat_word_ariths)
qed simp

text \<open>The checksum is the 16-bit complement of a residue of the sum modulo 65535, so inserting it
  makes the sum a multiple of 65535.\<close>

lemma checksum_value:
  assumes "nat_sum data < 2 ^ 32"
  shows "\<exists>r. unat (checksum data) = 65535 - r \<and> r < 65536 \<and> r mod 65535 = nat_sum data mod 65535 \<and> (r = 0 \<longleftrightarrow> nat_sum data = 0)"
proof -
  let ?f = "fold_carries (word_sum data 0)"
  have s: "unat (word_sum data 0) = nat_sum data" using unat_word_sum[of 0 data] assms by simp
  have r: "unat ?f < 65536" "unat ?f mod 65535 = nat_sum data mod 65535" "unat ?f = 0 \<longleftrightarrow> nat_sum data = 0"
    using fold_carries_value[of "word_sum data 0"] s by auto
  have "unat (ucast ?f :: u16) = unat ?f" using r(1) by (simp add: unsigned_ucast_eq take_bit_eq_mod)
  moreover have "unat (NOT w :: u16) = 65535 - unat w" for w
  proof -
    have "NOT w = - 1 - w" by (simp add: not_eq_complement)
    moreover have "unat (- 1 - w) = unat (- 1 :: u16) - unat w"
      by (rule unat_sub) (simp add: word_le_nat_alt unat_minus_one_word_eq unat_group_le)
    ultimately show ?thesis by (simp add: unat_minus_one_word_eq)
  qed
  ultimately have "unat (checksum data) = 65535 - unat ?f" by (simp add: checksum_def)
  then show ?thesis using r by (intro exI[of _ "unat ?f"] conjI)
qed

lemma checksum_verifies:
  assumes "even (length pre)" "nat_sum (pre @ [0, 0] @ post) + 65535 < 2 ^ 32" "0 < nat_sum (pre @ [0, 0] @ post)"
  shows "checksum (pre @ to_be 2 (checksum (pre @ [0, 0] @ post)) @ post) = 0"
proof -
  let ?z = "nat_sum (pre @ [0, 0] @ post)" and ?c = "checksum (pre @ [0, 0] @ post)"
  let ?d = "pre @ to_be 2 ?c @ post"
  obtain r where r: "unat ?c = 65535 - r" "r < 65536" "r mod 65535 = ?z mod 65535" "r = 0 \<longleftrightarrow> ?z = 0"
    using checksum_value[of "pre @ [0, 0] @ post"] assms(2) by auto
  have c2: "256 * unat (ucast (drop_bit 8 ?c) :: u8) + unat (ucast ?c :: u8) = unat ?c"
    using unat_be2[of "ucast (drop_bit 8 ?c)" "ucast ?c"] by simp
  have d: "nat_sum ?d = ?z + unat ?c"
    using assms(1) c2 by (simp add: nat_sum_append to_be_2)
  then have "nat_sum ?d = ?z + (65535 - r)" using r(1) by simp
  moreover have "(?z + (65535 - r)) mod 65535 = 0"
  proof -
    have "(?z + (65535 - r)) mod 65535 = (r + (65535 - r)) mod 65535" using r(3) by (metis mod_add_left_eq)
    also have "\<dots> = 0" using r(2) by simp
    finally show ?thesis .
  qed
  ultimately have dz: "nat_sum ?d mod 65535 = 0" "0 < nat_sum ?d" using assms(3) by auto
  have "nat_sum ?d < 2 ^ 32" using d assms(2) unat_group_le[of ?c] by simp
  from checksum_value[OF this] obtain q where q: "unat (checksum ?d) = 65535 - q" "q < 65536" "q mod 65535 = 0" "q \<noteq> 0"
    using dz by auto
  then have "q = 65535" by (auto simp: mod_eq_0_iff_dvd dvd_def)
  then have "unat (checksum ?d) = 0" using q(1) by simp
  then show ?thesis by (simp only: unat_eq_zero)
qed

subsection \<open>Properties\<close>

lemma length_ra_icmp: "length (ra_icmp p l ck) = 46 + length ck"
  by (simp add: ra_icmp_def)

lemma ra_layout:
  "\<exists>c. router_advertisement p l dst = [0x60, 0, 0, 0] @ to_be 2 (48 :: u16) @ [58, 255] @ to_be 16 ROUTER_LINK_LOCAL
      @ to_be 16 dst @ [134, 0] @ to_be 2 c @ [64, 0] @ to_be 2 (1800 :: u16) @ to_be 4 (0 :: u32) @ to_be 4 (0 :: u32)
      @ [3, 4, l, 0xC0] @ to_be 4 (86400 :: u32) @ to_be 4 (14400 :: u32) @ to_be 4 (0 :: u32) @ to_be 16 p
    \<and> c = icmpv6_checksum ROUTER_LINK_LOCAL dst (ra_icmp p l [0, 0])"
  by (simp add: router_advertisement_def Let_def ipv6_icmp_packet_def length_ra_icmp) (simp add: ra_icmp_def)

text \<open>router advertisements. The UE reads from the advertisement the prefix and prefix length the
  UPF put there, the ICMPv6 checksum of the packet verifies (recomputing it over the message as
  sent gives zero), and an advertisement is never mistaken for a solicitation.\<close>

theorem router_advertisement_correct:
  "ra_prefix (router_advertisement p l dst) = Some (p, l)
   \<and> icmpv6_checksum ROUTER_LINK_LOCAL dst (drop 40 (router_advertisement p l dst)) = 0
   \<and> \<not> is_router_solicitation (router_advertisement p l dst)"
proof -
  obtain c where ra: "router_advertisement p l dst = [0x60, 0, 0, 0] @ to_be 2 (48 :: u16) @ [58, 255]
      @ to_be 16 ROUTER_LINK_LOCAL @ to_be 16 dst @ [134, 0] @ to_be 2 c @ [64, 0] @ to_be 2 (1800 :: u16)
      @ to_be 4 (0 :: u32) @ to_be 4 (0 :: u32) @ [3, 4, l, 0xC0] @ to_be 4 (86400 :: u32) @ to_be 4 (14400 :: u32)
      @ to_be 4 (0 :: u32) @ to_be 16 p" and c: "c = icmpv6_checksum ROUTER_LINK_LOCAL dst (ra_icmp p l [0, 0])"
    using ra_layout by metis
  have len: "length (router_advertisement p l dst) = 88" by (simp add: ra)
  have idx: "router_advertisement p l dst ! 0 = 0x60" "router_advertisement p l dst ! 6 = 58"
      "router_advertisement p l dst ! 40 = 134" "router_advertisement p l dst ! 56 = 3"
      "router_advertisement p l dst ! 57 = 4" "router_advertisement p l dst ! 58 = l"
    by (simp_all add: ra nth_append nth_Cons')
  have "subslice 72 88 (router_advertisement p l dst) = to_be 16 p" by (simp add: ra subslice_def)
  then have "ra_options (router_advertisement p l dst) 56 = Some (p, l)"
    using len idx by (subst ra_options.simps) (simp add: from_be_to_be)
  then have 1: "ra_prefix (router_advertisement p l dst) = Some (p, l)"
    using len idx by (simp add: ra_prefix_def)
  let ?hdr = "to_be 16 ROUTER_LINK_LOCAL @ to_be 16 dst @ to_be 4 (48 :: u32) @ [0, 0, 0, 58] @ [134, 0]"
  let ?post = "drop 44 (router_advertisement p l dst)"
  have d: "drop 40 (router_advertisement p l dst) = [134, 0] @ to_be 2 c @ ?post" by (simp add: ra)
  have z: "ra_icmp p l [0, 0] = [134, 0] @ [0, 0] @ ?post" by (simp add: ra ra_icmp_def)
  have cz: "c = checksum (?hdr @ [0, 0] @ ?post)"
    by (simp add: c icmpv6_checksum_def length_ra_icmp) (simp add: z)
  have "checksum (?hdr @ to_be 2 (checksum (?hdr @ [0, 0] @ ?post)) @ ?post) = 0"
  proof (rule checksum_verifies)
    show "even (length ?hdr)" by simp
    show "nat_sum (?hdr @ [0, 0] @ ?post) + 65535 < 2 ^ 32"
      using nat_sum_bound[of "?hdr @ [0, 0] @ ?post"] len by simp
    show "0 < nat_sum (?hdr @ [0, 0] @ ?post)" by (simp add: nat_sum_append)
  qed
  then have "checksum (?hdr @ to_be 2 c @ ?post) = 0" by (simp only: cz[symmetric])
  then have 2: "icmpv6_checksum ROUTER_LINK_LOCAL dst (drop 40 (router_advertisement p l dst)) = 0"
    using len by (simp add: icmpv6_checksum_def d)
  have 3: "\<not> is_router_solicitation (router_advertisement p l dst)" using idx by (simp add: is_router_solicitation_def)
  from 1 2 3 show ?thesis by simp
qed

subsection \<open>What leaves the UPF\<close>

text \<open>A packet that the session may source: its source is the UE's IPv4 address or lies in the UE's
  /64, or the session has no address at all (a forwarding tunnel).\<close>

definition may_source :: "session \<Rightarrow> bytes \<Rightarrow> bool" where
  "may_source s pkt =
    ((ue_ip s = None \<and> ue_ipv6 s = None)
     \<or> (\<exists>ip dst. ue_ip s = Some ip \<and> ipv4_addrs pkt = Some (ip, dst))
     \<or> (\<exists>p src dst. ue_ipv6 s = Some p \<and> ipv6_addrs pkt = Some (src, dst) \<and> take 8 (to_be 16 src) = take 8 (to_be 16 p)))"

lemma source_check_passes: "source_check (ue_ip s) (ue_ipv6 s) pkt = None \<Longrightarrow> may_source s pkt"
  by (auto simp: source_check_def may_source_def in_prefix64_def split: option.splits if_splits)

lemma source_check_refuses:
  "source_check a b pkt = Some r \<Longrightarrow> (\<exists>x y. r = Spoofed x y) \<or> (\<exists>x. r = UnassignedFamily x)"
  by (auto simp: source_check_def split: option.splits if_splits)

lemma knows_teid_find: "knows_teid st teid \<longleftrightarrow> (\<exists>s. find_session (owns_teid teid) st = Some s)"
proof -
  have "find_session (owns_teid teid) st = None \<longleftrightarrow> \<not> knows_teid st teid"
    by (simp only: find_session_def find_None_all knows_teid_def owns_teid_def) blast
  then show ?thesis by (metis not_Some_eq)
qed

lemma n6_uplink_cases:
  assumes "n6_uplink st teid inner now = (u, st')"
  obtains (Chained) t a where "downlink_via_n9_ingress st teid = Some (t, a)" "u = Forward t a inner" "st' = st"
  | (Dropped) "st' = st" "u = UnknownTeid \<or> u = RouterSolicitation \<or> (\<exists>x y. u = Spoofed x y) \<or> (\<exists>x. u = UnassignedFamily x)"
  | (Policed) ok s where "find_session (owns_teid teid) st = Some s" "may_source s inner"
      "admit_uplink st teid now inner = (ok, st')" "\<not> ok \<longrightarrow> u = UlRateLimited"
      "ok \<longrightarrow> u = UlToN6 inner \<or> (\<exists>t a. u = Forward t a inner \<and> uplink_egress_for st' teid inner = Some (ToPeer t a))"
proof (cases "downlink_via_n9_ingress st teid")
  case (Some d)
  obtain t a where d: "d = (t, a)" by fastforce
  show ?thesis using assms Some d by (intro Chained[of t a]) (simp_all add: n6_uplink_def)
next
  case None
  note noingress = None
  show ?thesis
  proof (cases "find_session (owns_teid teid) st")
    case None
    then have "\<not> knows_teid st teid" by (simp add: knows_teid_find)
    then show ?thesis using assms noingress Dropped by (simp add: n6_uplink_def)
  next
    case (Some s)
    then have k: "knows_teid st teid" "ue_ip_for_teid st teid = ue_ip s" "ue_ipv6_for_teid st teid = ue_ipv6 s"
      by (auto simp: knows_teid_find ue_ip_for_teid_def ue_ipv6_for_teid_def)
    obtain ok st1 where a: "admit_uplink st teid now inner = (ok, st1)" by fastforce
    show ?thesis
    proof (cases "ue_ipv6 s \<noteq> None \<and> is_router_solicitation inner")
      case True
      then show ?thesis using assms noingress k Dropped by (simp add: n6_uplink_def)
    next
      case False
      note nors = this
      show ?thesis
      proof (cases "source_check (ue_ip s) (ue_ipv6 s) inner")
        case None
        then show ?thesis
          using assms noingress k nors a Some source_check_passes[OF None] Policed[of s ok]
          by (auto simp: n6_uplink_def split: if_splits option.splits egress.splits)
      next
        case (Some r)
        then show ?thesis using assms noingress k nors source_check_refuses[OF Some] Dropped by (auto simp: n6_uplink_def)
      qed
    qed
  qed
qed

text \<open>C4: anti-spoofing. A packet is sent out to the data network only on behalf of a session that owns
  the tunnel it came in on and that may source it; a packet is re-encapsulated only under the
  same condition or when it came back over N9 on the downlink ingress of a session, toward that
  session's gNB; and whenever it is refused the session table is left as it was.\<close>

theorem uplink_antispoofing:
  assumes "upf_reachable st" "n6_uplink st teid inner now = (u, st')"
  shows "(u = UlToN6 pkt \<longrightarrow> pkt = inner \<and> (\<exists>k s. get_session st k = Some s \<and> n3_teid s = teid \<and> may_source s inner))
    \<and> (u = Forward t a pkt \<longrightarrow> pkt = inner \<and>
        ((\<exists>k s. get_session st k = Some s \<and> n3_teid s = teid \<and> may_source s inner)
         \<or> (\<exists>k s. get_session st k = Some s \<and> dl_ingress_teid s = Some teid \<and> downlink s = Some (t, a))))
    \<and> (u \<in> {UnknownTeid, RouterSolicitation} \<or> (\<exists>x y. u = Spoofed x y) \<or> (\<exists>x. u = UnassignedFamily x) \<longrightarrow> st' = st)"
  using assms(2)
proof (cases rule: n6_uplink_cases)
  case (Chained t' a')
  then have "\<exists>k s. get_session st k = Some s \<and> dl_ingress_teid s = Some teid \<and> downlink s = Some (t', a')"
    using get_session_iff[OF reachable_wf[OF assms(1)]]
    by (auto simp: downlink_via_n9_ingress_def find_session_def Option.bind_eq_Some_conv dest!: find_Some_in) blast
  with Chained show ?thesis by auto
next
  case Dropped
  then show ?thesis by auto
next
  case (Policed ok s)
  have "s \<in> snd ` set (sessions st)" "n3_teid s = teid"
    using Policed(1) find_Some_in[of "owns_teid teid" "map snd (sessions st)" s] by (auto simp: find_session_def owns_teid_def)
  then obtain k where "get_session st k = Some s" "n3_teid s = teid"
    using get_session_iff[OF reachable_wf[OF assms(1)]] by auto
  with Policed show ?thesis by (cases ok) auto
qed

text \<open>C35: downlink delivery. What is sent toward a gNB for a packet from the data network is a G-PDU that
  parses back to the tunnel of the session owning the destination, the QFI of the packet's flow
  and the packet itself; a packet for which no session has a tunnel is sent nowhere.\<close>

theorem downlink_delivery:
  assumes "n6_downlink st pkt now = (ToN3 gnb_ip gpdu, st')"
  shows "\<exists>s\<in>snd ` set (sessions st). \<exists>teid. downlink s = Some (teid, gnb_ip)
      \<and> ((\<exists>src dst. ipv4_addrs pkt = Some (src, dst) \<and> ue_ip s = Some dst)
         \<or> (\<exists>src dst p. ipv6_addrs pkt = Some (src, dst) \<and> ue_ipv6 s = Some p \<and> ipv6_in_prefix64 dst p))
      \<and> parse gpdu = Some (GPdu teid (Some (downlink_qfi s pkt AND 0x3F)) pkt)"
proof -
  have mark: "\<exists>s\<in>snd ` set (sessions st). P s \<and> downlink s = Some (t, ip) \<and> q = downlink_qfi s pkt"
    if "Option.bind (find_session P st) (mark_qfi pkt) = Some (t, ip, q)" for P t ip q
    using that by (auto simp: find_session_def mark_qfi_def Option.bind_eq_Some_conv dest!: find_Some_in)
  show ?thesis
  proof (cases "ipv4_addrs pkt")
    case (Some sd)
    obtain src dst where sd: "sd = (src, dst)" by fastforce
    with Some assms obtain t q where r: "route_downlink_marked st dst pkt = Some (t, gnb_ip, q)"
        and g: "gpdu = encap_dl_qfi t q False pkt"
      by (auto simp: n6_downlink_def split: option.splits prod.splits if_splits)
    from mark[OF r[unfolded route_downlink_marked_def]] show ?thesis
      using Some sd g by (auto simp: owns_ip_def parse_encap_dl_qfi)
  next
    case None
    with assms obtain src dst t q where r: "ipv6_addrs pkt = Some (src, dst)"
        "route_downlink_marked_v6 st dst pkt = Some (t, gnb_ip, q)" and g: "gpdu = encap_dl_qfi t q False pkt"
      by (auto simp: n6_downlink_def split: option.splits prod.splits if_splits)
    from mark[OF r(2)[unfolded route_downlink_marked_v6_def]] show ?thesis
      using r(1) g by (auto simp: owns_ipv6_def parse_encap_dl_qfi split: option.splits)
  qed
qed

text \<open>An IPv4 header from 0.0.0.9 to 8.8.8.8 without payload.\<close>

definition demo_ip4 :: bytes where
  "demo_ip4 = [0x45, 0, 0, 20, 0, 0, 0, 0, 64, 59, 0, 0, 0, 0, 0, 9, 8, 8, 8, 8]"

lemma idle_session_simps: "n3_teid idle_session = 1" "ue_ip idle_session = Some 9" "ue_ipv6 idle_session = None"
    "dl_ingress_teid idle_session = None" "uplink idle_session = ToN6" "branches idle_session = []"
    "flow_qers idle_session = []" "ul_bucket idle_session = None" "usage_threshold idle_session = None"
  by (simp_all add: idle_session_def new_session_def)

theorem uplink_antispoofing_witness:
  "fst (n6_uplink idle_state 1 demo_ip4 5) = UlToN6 demo_ip4
   \<and> (\<exists>k s. get_session idle_state k = Some s \<and> n3_teid s = 1 \<and> may_source s demo_ip4)"
proof -
  have f: "find_session (owns_teid 1) idle_state = Some idle_session"
    by (simp add: find_session_def idle_state_sessions owns_teid_def idle_session_simps)
  have a: "ipv4_addrs demo_ip4 = Some (9, 0x08080808)" by (simp add: ipv4_addrs_def demo_ip4_def from_be_def)
  let ?s = "snd (admit idle_session True 5 demo_ip4)"
  have "classify [] demo_ip4 = None" by (simp add: classify_def split: option.split)
  then have s: "fst (admit idle_session True 5 demo_ip4)" "n3_teid ?s = 1" "uplink ?s = ToN6" "branches ?s = []"
    by (simp_all add: admit_def idle_session_simps poll_session_def poll_option_def count_session_def)
  obtain ok st' where ad: "admit_uplink idle_state 1 5 demo_ip4 = (ok, st')" by fastforce
  have st': "ok" "sessions st' = [(1, ?s)]"
    using ad f s(1) by (auto simp: admit_uplink_def admit_found_def update_found_def idle_state_sessions owns_teid_def
        idle_session_simps)
  have s': "uplink_egress_for st' 1 demo_ip4 = Some ToN6"
    using s by (simp add: uplink_egress_for_def find_session_def st' owns_teid_def split: option.split)
  have "knows_teid idle_state 1" using f by (auto simp: knows_teid_find)
  moreover have "downlink_via_n9_ingress idle_state 1 = None"
    by (simp add: downlink_via_n9_ingress_def find_session_def idle_state_sessions idle_session_simps)
  ultimately have u: "n6_uplink idle_state 1 demo_ip4 5 = (UlToN6 demo_ip4, st')"
    using f a ad st'(1) s' by (simp add: n6_uplink_def ue_ip_for_teid_def ue_ipv6_for_teid_def source_check_def idle_session_simps)
  show ?thesis using uplink_antispoofing[OF idle_state_reachable u, of demo_ip4] u by simp
qed

theorem downlink_delivery_witness:
  "\<exists>gpdu teid q. fst (n6_downlink (with_recovery_time 0\<lparr>sessions := [(1, demo_session\<lparr>downlink := Some (5, 6)\<rparr>)]\<rparr>) demo_udp 7)
       = ToN3 6 gpdu \<and> parse gpdu = Some (GPdu teid (Some q) demo_udp)"
proof -
  let ?s = "demo_session\<lparr>downlink := Some (5, 6)\<rparr>"
  let ?st = "with_recovery_time 0\<lparr>sessions := [(1, ?s)]\<rparr>"
  have a: "ipv4_addrs demo_udp = Some (0x08080808, 0x0A2D0002)" by (simp add: ipv4_addrs_def demo_udp_def from_be_def)
  have f: "find_session (owns_ip 0x0A2D0002) ?st = Some ?s" by (simp add: find_session_def owns_ip_def demo_session_def)
  have "flow_qers ?s = flow_qers demo_session" by simp
  then have "fst (admit ?s False 7 demo_udp)"
    using demo_udp_classified
    by (simp add: admit_def) (simp add: demo_session_def demo_flow_def gate_open_def poll_flow_def bucket_new_def Let_def split: prod.split)
  then have "fst (admit_downlink ?st 0x0A2D0002 7 demo_udp)" using f by (simp add: admit_downlink_def admit_found_def)
  then obtain st' where ad: "admit_downlink ?st 0x0A2D0002 7 demo_udp = (True, st')" by (metis prod.collapse)
  then have d: "n6_downlink ?st demo_udp 7 = (ToN3 6 (encap_dl_qfi 5 (downlink_qfi ?s demo_udp) False demo_udp), st')"
    using a f by (simp add: n6_downlink_def route_downlink_marked_def mark_qfi_def)
  from downlink_delivery[OF d] d show ?thesis by auto
qed

subsection \<open>Resumption bypasses admission\<close>

text \<open>C38: a packet that the flow's closed gate would drop is delivered when it arrives while the UE is
  idle: it is buffered without admission, queued to the new tunnel on resumption, and never
  counted.\<close>

theorem idle_flush_bypasses_gate:
  assumes "upf_reachable st" "idle_owner st k s dst" "downlink s = None" "dl_buffer s = []"
    and "ipv4_addrs pkt = Some (src, dst)" "classify (flow_qers s) pkt = Some i" "\<not> gt_downlink (fe_gate (flow_qers s ! i))"
  shows "\<not> fst (admit s False now pkt)
    \<and> fst (n6_downlink st pkt now) = Buffered
    \<and> (t, ip, downlink_qfi s pkt, pkt) \<in> set (pending_flush (snd (set_downlink (snd (n6_downlink st pkt now)) k t ip em)))
    \<and> (\<forall>s' up. get_session (snd (set_downlink (snd (n6_downlink st pkt now)) k t ip em)) k = Some s' \<longrightarrow> measured up s' = measured up s)"
proof -
  have mem: "(k, s) \<in> set (sessions st)" "owns_ip dst s" using assms(2) by (auto simp: idle_owner_def owns_ip_def)
  have "find (owns_ip dst) (map snd (sessions st)) = Some s"
  proof (rule find_unique)
    show "s \<in> set (map snd (sessions st))" using mem(1) by force
    fix y assume "y \<in> set (map snd (sessions st))" "owns_ip dst y"
    then obtain k' where "(k', y) \<in> set (sessions st)" "k' = k" using assms(2) by (force simp: idle_owner_def owns_ip_def)
    then show "y = s" using mem(1) assms(2) by (auto simp: idle_owner_def dest: eq_key_imp_eq_value)
  qed (fact mem(2))
  then have r: "route_downlink_marked st dst pkt = None"
    using assms(3) by (simp add: route_downlink_marked_def find_session_def mark_qfi_def)
  let ?st1 = "update_session k (push_buffer pkt) st"
  note b = buffer_idle_owner[OF assms(2), of pkt]
  have "find_session (\<lambda>s. owns_ip dst s \<and> buffering s) st \<noteq> None"
    using mem assms(2) by (auto simp: find_session_def find_None_all idle_owner_def simp del: not_None_eq) force
  then have "fst (buffer_downlink st dst pkt)" by (auto simp: buffer_downlink_def)
  then have d: "n6_downlink st pkt now = (Buffered, ?st1)"
    using b r assms(5) by (cases "buffer_downlink st dst pkt") (auto simp: n6_downlink_def)
  have "get_session st k = Some s" using get_session_iff[OF reachable_wf[OF assms(1)]] mem(1) by simp
  then have g1: "get_session ?st1 k = Some (push_buffer pkt s)"
    by (simp add: get_session_def update_session_def table_get_update)
  have pb: "push_buffer pkt s = s\<lparr>dl_data_report_due := True, dl_buffer := [pkt]\<rparr>"
    using assms(4) by (simp add: push_buffer_def DL_BUFFER_CAP_def)
  have "downlink_qfi (push_buffer pkt s) = downlink_qfi s"
    by (rule downlink_qfi_cong) (simp add: pb)
  then have g: "dl_buffer (push_buffer pkt s) = [pkt]" "measured up (push_buffer pkt s) = measured up s"
      "downlink_qfi (push_buffer pkt s) = downlink_qfi s" "ue_ipv6 (push_buffer pkt s) = ue_ipv6 s" for up
    by (simp_all add: pb measured_def session_bytes_def)
  have pend: "get_session (x\<lparr>pending_end_markers := y\<rparr>) k = get_session x k" for x y by (simp add: get_session_def)
  have meas: "measured up (s1\<lparr>downlink := a, buffering := b', dl_data_report_due := c, dl_buffer := e\<rparr>) = measured up s1" for up s1 a b' c e
    by (simp add: measured_def session_bytes_def)
  show ?thesis
    unfolding d fst_conv snd_conv
    using assms(6,7) g g1
    by (auto simp: admit_def gate_open_def set_downlink_def Let_def pend get_session_def update_session_def table_get_update meas
        split: option.splits)
qed

definition gated_args :: establish_args where
  "gated_args = \<lparr>ea_cp_seid = 7, ea_peer = None, ea_ue = \<lparr>ua_v4 = Some 0x0A2D0002, ua_v6 = None\<rparr>, ea_ambr = None,
     ea_flows = [\<lparr>fq_qfi = 5, fq_filter = transport 17 5000 5010, fq_mfbr_dl_bps = 0, fq_mfbr_ul_bps = 0,
        fq_gate = \<lparr>gt_uplink = True, gt_downlink = False\<rparr>\<rparr>],
     ea_usage_threshold = None, ea_uplink = ToN6, ea_branches = [], ea_wants_dl_ingress = False\<rparr>"

definition gated_state :: upf_state where
  "gated_state = apply_op (ClearDownlink 1) (apply_op (Establish gated_args 0) (with_recovery_time 0))"

definition gated_session :: session where
  "gated_session = (new_session gated_args 0 1 None)\<lparr>downlink := None, buffering := True\<rparr>"

lemma gated_state_reachable: "upf_reachable gated_state"
proof -
  have "room_for (with_recovery_time 0)" by (simp add: room_for_def with_recovery_time_def)
  then have "upf_reachable (apply_op (Establish gated_args 0) (with_recovery_time 0))"
    by (intro upf_reachable.step upf_reachable.start) simp
  then show ?thesis unfolding gated_state_def by (rule upf_reachable.step) simp
qed

lemma gated_state_sessions: "sessions gated_state = [(1, gated_session)]"
  by (simp add: gated_state_def gated_session_def gated_args_def clear_downlink_def establish_def with_recovery_time_def
      get_session_def table_get_def table_insert_def update_session_def table_update_def)

theorem idle_flush_bypasses_gate_witness:
  "fst (n6_downlink gated_state demo_udp 3) = Buffered
   \<and> (5, 6, downlink_qfi gated_session demo_udp, demo_udp)
       \<in> set (pending_flush (snd (set_downlink (snd (n6_downlink gated_state demo_udp 3)) 1 5 6 False)))"
proof -
  have "idle_owner gated_state 1 gated_session 0x0A2D0002"
    by (simp add: idle_owner_def gated_state_sessions) (simp add: gated_session_def new_session_def gated_args_def)
  moreover have "downlink gated_session = None" "dl_buffer gated_session = []"
      "\<not> gt_downlink (fe_gate (flow_qers gated_session ! 0))" "classify (flow_qers gated_session) demo_udp = Some 0"
    by (simp_all add: gated_session_def new_session_def gated_args_def enforcer_of_def classify_def packet_key_of_def
        demo_udp_def l4_ports_def transport_def filter_matches_def is_none_or_def from_be_def)
  moreover have "ipv4_addrs demo_udp = Some (0x08080808, 0x0A2D0002)"
    by (simp add: ipv4_addrs_def demo_udp_def from_be_def)
  ultimately show ?thesis
    using idle_flush_bypasses_gate[OF gated_state_reachable, where k = 1 and s = gated_session
        and dst = "0x0A2D0002" and pkt = demo_udp and src = "0x08080808" and i = 0 and now = 3 and t = 5 and ip = 6 and em = False]
    by blast
qed

end
