(* ===== verification/Upf_Node.thy ===== *)
theory Upf_Node
  imports Pfcp_N4_Session N6
begin

section \<open>The UPF node\<close>

text \<open>
  The four tasks of \<open>nf/nf-upf/src/main.rs\<close> around the shared session table: \<open>serve_n4\<close>,
  \<open>report_usage\<close>, \<open>serve_n3\<close> and \<open>serve_n6_downlink\<close>. One turn of a task's loop is one step; the
  mutex around the table makes each of them atomic on it, so an execution of the node is an
  interleaving of such steps (\<open>node_reachable\<close>). Sockets are the list of datagrams a step sends;
  a failed send is only logged in the sources and has no effect on the state.
\<close>

type_synonym sock_addr = "ip_addr \<times> u16"

datatype sent =
    SentN4 sock_addr bytes
  | SentN3 sock_addr bytes
  | SentTun bytes

record upf_node =
  nd_upf :: upf_state
  nd_smf_addr :: "sock_addr option"
  nd_seq :: u32

definition GTPU_PORT :: u16 where
  "GTPU_PORT = 2152"

definition n3_addr :: "u32 \<Rightarrow> sock_addr" where
  "n3_addr ip = (IpV4 ip, GTPU_PORT)"

subsection \<open>N4\<close>

definition ra_gpdu :: "u32 \<Rightarrow> 128 word \<Rightarrow> bytes" where
  "ra_gpdu teid p = encap_dl_qfi teid DEFAULT_QFI False (router_advertisement p 64 ALL_NODES)"

definition serve_n4 :: "pfcp_lib \<Rightarrow> u32 \<Rightarrow> upf_node \<Rightarrow> bytes \<Rightarrow> u64 \<Rightarrow> sock_addr \<Rightarrow> sent list \<times> upf_node" where
  "serve_n4 L node_ip n data now peer =
    (let n1 = n\<lparr>nd_smf_addr := Some peer\<rparr>
     in case handle_n4_from L data node_ip (nd_upf n1) now (Some (fst peer)) of (resp, st1) \<Rightarrow>
       (case take_flush st1 of (flush, st2) \<Rightarrow>
        (case take_end_markers st2 of (ems, st3) \<Rightarrow>
         (case take_pending_ra st3 of (ras, st4) \<Rightarrow>
           (map (\<lambda>(teid, ip, qfi, pkt). SentN3 (n3_addr ip) (encap_dl_qfi teid qfi False pkt)) flush
            @ map (\<lambda>(teid, ip). SentN3 (n3_addr ip) (end_marker teid)) ems
            @ map (\<lambda>(teid, ip, p). SentN3 (n3_addr ip) (ra_gpdu teid p)) ras
            @ (case resp of None \<Rightarrow> [] | Some r \<Rightarrow> [SentN4 peer r]),
            n1\<lparr>nd_upf := st4\<rparr>)))))"

subsection \<open>Reports\<close>

definition due_count :: "upf_state \<Rightarrow> nat" where
  "due_count st = length (filter (\<lambda>e. report_due (snd e)) (sessions st))"

definition dldr_count :: "upf_state \<Rightarrow> nat" where
  "dldr_count st = length (filter (\<lambda>e. dl_data_report_due (snd e)) (sessions st))"

lemma length_filter_map_first:
  "find (\<lambda>x. P (g x)) xs \<noteq> None \<Longrightarrow> (\<And>x. \<not> P (g (f x))) \<Longrightarrow>
    Suc (length (filter (\<lambda>x. P (g x)) (map_first (\<lambda>x. P (g x)) f xs))) = length (filter (\<lambda>x. P (g x)) xs)"
  by (induction xs) auto

lemma find_map_snd: "find P (map snd xs) = map_option snd (find (\<lambda>e. P (snd e)) xs)"
  by (induction xs) auto

lemma due_count_take: "take_due_report st = (Some due, st') \<Longrightarrow> Suc (due_count st') = due_count st"
  unfolding take_due_report_def due_count_def
  using length_filter_map_first[of report_due snd "sessions st" "\<lambda>e. (fst e, mark_reported (snd e))"]
  by (auto simp: find_session_def find_map_snd update_found_def mark_reported_def split: option.splits)

lemma dldr_count_take: "take_dl_data_report st = (Some cp, st') \<Longrightarrow> Suc (dldr_count st') = dldr_count st"
  unfolding take_dl_data_report_def dldr_count_def
  using length_filter_map_first[of dl_data_report_due snd "sessions st" "\<lambda>e. (fst e, (snd e)\<lparr>dl_data_report_due := False\<rparr>)"]
  by (auto simp: find_session_def find_map_snd update_found_def split: option.splits)

text \<open>One turn of each inner loop of a tick (\<open>None\<close> ends the loop: nothing is due, or no SMF address is
  known, in which case the report has been taken already), and the loops.\<close>

definition usage_turn :: "pfcp_lib \<Rightarrow> upf_node \<Rightarrow> sent option \<times> upf_node" where
  "usage_turn L n = (case take_due_report (nd_upf n) of
     (None, st) \<Rightarrow> (None, n\<lparr>nd_upf := st\<rparr>)
   | (Some due, st) \<Rightarrow> (case nd_smf_addr n of
       None \<Rightarrow> (None, n\<lparr>nd_upf := st\<rparr>)
     | Some smf \<Rightarrow> (Some (SentN4 smf (lib_marshal L (session_report_request_msg due (nd_seq n + 1)))),
                   n\<lparr>nd_upf := st, nd_seq := nd_seq n + 1\<rparr>)))"

definition dldr_turn :: "pfcp_lib \<Rightarrow> upf_node \<Rightarrow> sent option \<times> upf_node" where
  "dldr_turn L n = (case take_dl_data_report (nd_upf n) of
     (None, st) \<Rightarrow> (None, n\<lparr>nd_upf := st\<rparr>)
   | (Some cp, st) \<Rightarrow> (case nd_smf_addr n of
       None \<Rightarrow> (None, n\<lparr>nd_upf := st\<rparr>)
     | Some smf \<Rightarrow> (Some (SentN4 smf (lib_marshal L (session_report_request_dldr_msg cp (nd_seq n + 1)))),
                   n\<lparr>nd_upf := st, nd_seq := nd_seq n + 1\<rparr>)))"

lemma usage_turn_measure: "usage_turn L n = (Some out, n') \<Longrightarrow> Suc (due_count (nd_upf n')) = due_count (nd_upf n)"
  by (auto simp: usage_turn_def due_count_take split: prod.splits option.splits)

lemma dldr_turn_measure: "dldr_turn L n = (Some out, n') \<Longrightarrow> Suc (dldr_count (nd_upf n')) = dldr_count (nd_upf n)"
  by (auto simp: dldr_turn_def dldr_count_take split: prod.splits option.splits)

function usage_loop :: "pfcp_lib \<Rightarrow> upf_node \<Rightarrow> sent list \<times> upf_node" where
  "usage_loop L n = (case usage_turn L n of
     (None, n') \<Rightarrow> ([], n')
   | (Some out, n') \<Rightarrow> (case usage_loop L n' of (outs, n'') \<Rightarrow> (out # outs, n'')))"
  by pat_completeness auto
termination by (relation "measure (\<lambda>(L, n). due_count (nd_upf n))") (auto dest!: usage_turn_measure[OF sym])

function dldr_loop :: "pfcp_lib \<Rightarrow> upf_node \<Rightarrow> sent list \<times> upf_node" where
  "dldr_loop L n = (case dldr_turn L n of
     (None, n') \<Rightarrow> ([], n')
   | (Some out, n') \<Rightarrow> (case dldr_loop L n' of (outs, n'') \<Rightarrow> (out # outs, n'')))"
  by pat_completeness auto
termination by (relation "measure (\<lambda>(L, n). dldr_count (nd_upf n))") (auto dest!: dldr_turn_measure[OF sym])

declare usage_loop.simps [simp del] dldr_loop.simps [simp del]

definition report_usage :: "pfcp_lib \<Rightarrow> upf_node \<Rightarrow> sent list \<times> upf_node" where
  "report_usage L n = (case usage_loop L n of (out1, n1) \<Rightarrow> (case dldr_loop L n1 of (out2, n2) \<Rightarrow> (out1 @ out2, n2)))"

subsection \<open>N3 and N6\<close>

definition serve_n3 :: "upf_node \<Rightarrow> bytes \<Rightarrow> u64 \<Rightarrow> sock_addr \<Rightarrow> bool \<Rightarrow> sent list \<times> upf_node" where
  "serve_n3 n data now peer has_tun = (case parse data of
     Some (EchoRequest sq) \<Rightarrow> ([SentN3 peer (echo_response sq)], n)
   | Some (GPdu teid qfi payload) \<Rightarrow>
       (case n6_uplink (nd_upf n) teid payload now of (action, st) \<Rightarrow>
         (case action of
            UlToN6 inner \<Rightarrow> (if has_tun then [SentTun inner] else [])
          | Forward peer_teid hop pkt \<Rightarrow> [SentN3 (n3_addr hop) (encap peer_teid pkt)]
          | RouterSolicitation \<Rightarrow> (case ra_target_for_teid st teid of
               Some (p, gnb_teid, gnb_ip) \<Rightarrow> [SentN3 (n3_addr gnb_ip) (ra_gpdu gnb_teid p)]
             | None \<Rightarrow> [])
          | _ \<Rightarrow> [],
          n\<lparr>nd_upf := st\<rparr>))
   | _ \<Rightarrow> ([], n))"

definition serve_n6_downlink :: "upf_node \<Rightarrow> bytes \<Rightarrow> u64 \<Rightarrow> sent list \<times> upf_node" where
  "serve_n6_downlink n pkt now = (case n6_downlink (nd_upf n) pkt now of (action, st) \<Rightarrow>
     (case action of ToN3 gnb_ip gpdu \<Rightarrow> [SentN3 (n3_addr gnb_ip) gpdu] | _ \<Rightarrow> [], n\<lparr>nd_upf := st\<rparr>))"

subsection \<open>Executions\<close>

datatype node_event =
    RecvN4 bytes u64 sock_addr
  | RecvN3 bytes u64 sock_addr bool
  | RecvN6 bytes u64
  | UsageTurn
  | DldrTurn

fun node_step :: "pfcp_lib \<Rightarrow> u32 \<Rightarrow> node_event \<Rightarrow> upf_node \<Rightarrow> sent list \<times> upf_node" where
  "node_step L ip (RecvN4 data now peer) n = serve_n4 L ip n data now peer"
| "node_step L ip (RecvN3 data now peer has_tun) n = serve_n3 n data now peer has_tun"
| "node_step L ip (RecvN6 pkt now) n = serve_n6_downlink n pkt now"
| "node_step L ip UsageTurn n = (case usage_turn L n of (out, n') \<Rightarrow> (case out of None \<Rightarrow> [] | Some x \<Rightarrow> [x], n'))"
| "node_step L ip DldrTurn n = (case dldr_turn L n of (out, n') \<Rightarrow> (case out of None \<Rightarrow> [] | Some x \<Rightarrow> [x], n'))"

inductive node_reachable :: "pfcp_lib \<Rightarrow> u32 \<Rightarrow> nat \<Rightarrow> upf_node \<Rightarrow> bool" for L ip ceiling where
  boot: "node_reachable L ip ceiling
     \<lparr>nd_upf = set_max_sessions (with_recovery_time t) ceiling, nd_smf_addr = None, nd_seq = 1\<rparr>"
| turn: "node_reachable L ip ceiling n \<Longrightarrow> room_for (nd_upf n) \<Longrightarrow> node_reachable L ip ceiling (snd (node_step L ip ev n))"

inductive_cases node_reachableE: "node_reachable L ip ceiling n"

text \<open>Every handler is a sequence of table operations.\<close>

lemma reach_op: "upf_reachable st \<Longrightarrow> (\<And>a now. p \<noteq> Establish a now) \<Longrightarrow> upf_reachable (apply_op p st)"
  by (rule upf_reachable.step) auto

lemma reach_foldl: "upf_reachable st \<Longrightarrow> (\<And>st x. upf_reachable st \<Longrightarrow> upf_reachable (g st x)) \<Longrightarrow> upf_reachable (foldl g st xs)"
  by (induction xs arbitrary: st) auto

lemma reach_simple:
  assumes "upf_reachable st"
  shows "upf_reachable (snd (set_downlink st k t i em))" "upf_reachable (snd (clear_downlink st k))"
    "upf_reachable (snd (set_ambr st k a now))" "upf_reachable (add_flow st k f now)"
    "upf_reachable (update_flow_rate st k q d u now)" "upf_reachable (set_flow_gate st k q g)"
    "upf_reachable (remove_flow st k q)" "upf_reachable (add_branch st k j flt e)" "upf_reachable (remove_branch st k j)"
    "upf_reachable (snd (remove st k))" "upf_reachable (snd (buffer_downlink st dst pkt))"
    "upf_reachable (snd (admit_uplink st t now pkt))" "upf_reachable (snd (admit_downlink st dst now pkt))"
    "upf_reachable (snd (admit_downlink_v6 st dst6 now pkt))"
    "upf_reachable (snd (take_due_report st))" "upf_reachable (snd (take_dl_data_report st))"
    "upf_reachable (snd (take_flush st))" "upf_reachable (snd (take_end_markers st))" "upf_reachable (snd (take_pending_ra st))"
  using assms reach_op[of st "SetDownlink k t i em"] reach_op[of st "ClearDownlink k"] reach_op[of st "SetAmbr k a now"]
    reach_op[of st "AddFlow k f now"] reach_op[of st "UpdateFlowRate k q d u now"] reach_op[of st "SetFlowGate k q g"]
    reach_op[of st "RemoveFlow k q"] reach_op[of st "AddBranch k j flt e"] reach_op[of st "RemoveBranch k j"]
    reach_op[of st "Remove k"] reach_op[of st "BufferDownlink dst pkt"] reach_op[of st "AdmitUplink t now pkt"]
    reach_op[of st "AdmitDownlink dst now pkt"] reach_op[of st "AdmitDownlinkV6 dst6 now pkt"]
    reach_op[of st TakeDueReport] reach_op[of st TakeDlDataReport] reach_op[of st TakeFlush] reach_op[of st TakeEndMarkers]
    reach_op[of st TakePendingRa]
  by simp_all

lemma reach_modification: "upf_reachable st \<Longrightarrow> upf_reachable (apply_modification msg k now st)"
  unfolding apply_modification_def Let_def
  by (intro reach_foldl)
    (auto simp: apply_update_far_def apply_remove_qer_def apply_update_qer_def Let_def reach_simple split: option.split)

lemma reach_handle:
  assumes "upf_reachable st" "room_for st"
  shows "upf_reachable (snd (handle_n4_from L data ip st now peer))"
proof (cases "lib_parse L data")
  case None
  then show ?thesis using assms by (simp add: handle_n4_from_def)
next
  case (Some msg)
  have "upf_reachable (snd (handle_msg L msg ip st now peer))"
  proof (cases rule: handle_msg_cases[of L msg ip st now peer])
    case (Est a)
    then show ?thesis using upf_reachable.step[OF assms(1), of "Establish a now"] assms(2) by simp
  qed (use assms in \<open>simp_all add: reach_modification reach_simple\<close>)
  then show ?thesis by (simp add: n4_state Some)
qed

text \<open>The datapath and the reporter keep the set of sessions, the ceiling and the queues.\<close>

definition same_frame :: "upf_state \<Rightarrow> upf_state \<Rightarrow> bool" where
  "same_frame st st' = (map fst (sessions st') = map fst (sessions st) \<and> max_sessions st' = max_sessions st
     \<and> pending_flush st' = pending_flush st \<and> pending_end_markers st' = pending_end_markers st
     \<and> pending_ra st' = pending_ra st \<and> next_seid st' = next_seid st)"

lemma same_frame_refl [simp]: "same_frame st st"
  by (simp add: same_frame_def)

lemma same_frame_found [simp]: "same_frame st (update_found P f st)"
  by (simp add: same_frame_def update_found_def map_map_first)

lemma same_frame_ops [simp]:
  "same_frame st (snd (admit_found P up st now pkt))" "same_frame st (snd (buffer_downlink st dst pkt))"
  "same_frame st (snd (take_due_report st))" "same_frame st (snd (take_dl_data_report st))"
  by (simp_all add: admit_found_def buffer_downlink_def take_due_report_def take_dl_data_report_def split: option.split)

lemma n6_uplink_frame:
  assumes "n6_uplink st teid inner now = (u, st')"
  shows "same_frame st st' \<and> (upf_reachable st \<longrightarrow> upf_reachable st')"
  using assms
proof (cases rule: n6_uplink_cases)
  case (Policed ok s)
  then have "st' = snd (admit_uplink st teid now inner)" by simp
  then show ?thesis using reach_simple(12)[of st teid now inner] by (simp add: admit_uplink_def)
qed simp_all

lemma n6_downlink_frame:
  assumes "n6_downlink st pkt now = (d, st')"
  shows "same_frame st st' \<and> (upf_reachable st \<longrightarrow> upf_reachable st')"
proof -
  have "st' = st \<or> (\<exists>dst. st' = snd (buffer_downlink st dst pkt)) \<or> (\<exists>dst. st' = snd (admit_downlink st dst now pkt))
      \<or> (\<exists>dst. st' = snd (admit_downlink_v6 st dst now pkt))"
    using assms by (auto simp: n6_downlink_def split: option.splits prod.splits if_splits) (metis snd_conv)+
  then show ?thesis using reach_simple[of st] by (auto simp: admit_downlink_def admit_downlink_v6_def)
qed

lemma turn_frame:
  "usage_turn L n = (out, n') \<Longrightarrow> same_frame (nd_upf n) (nd_upf n') \<and> (upf_reachable (nd_upf n) \<longrightarrow> upf_reachable (nd_upf n'))
     \<and> nd_smf_addr n' = nd_smf_addr n"
  "dldr_turn L n = (out, n') \<Longrightarrow> same_frame (nd_upf n) (nd_upf n') \<and> (upf_reachable (nd_upf n) \<longrightarrow> upf_reachable (nd_upf n'))
     \<and> nd_smf_addr n' = nd_smf_addr n"
  using same_frame_ops(3,4)[of "nd_upf n"] reach_simple(15,16)[of "nd_upf n"]
  by (auto simp: usage_turn_def dldr_turn_def simp del: same_frame_ops split: prod.splits option.splits)

definition node_inv :: "nat \<Rightarrow> upf_node \<Rightarrow> bool" where
  "node_inv ceiling n = (upf_reachable (nd_upf n) \<and> max_sessions (nd_upf n) = ceiling
     \<and> session_count (nd_upf n) \<le> ceiling
     \<and> pending_flush (nd_upf n) = [] \<and> pending_end_markers (nd_upf n) = [] \<and> pending_ra (nd_upf n) = []
     \<and> (sessions (nd_upf n) \<noteq> [] \<longrightarrow> nd_smf_addr n \<noteq> None))"

lemma node_inv_frame:
  assumes "node_inv c n" "same_frame (nd_upf n) st'" "upf_reachable (nd_upf n) \<longrightarrow> upf_reachable st'"
  shows "node_inv c (n\<lparr>nd_upf := st'\<rparr>)"
proof -
  have k: "map fst (sessions st') = map fst (sessions (nd_upf n))" using assms(2) by (simp add: same_frame_def)
  have "length (sessions st') = length (sessions (nd_upf n))" using arg_cong[OF k, of length] by simp
  moreover have "sessions st' = [] \<longleftrightarrow> sessions (nd_upf n) = []" using k by (metis map_is_Nil_conv)
  ultimately show ?thesis using assms by (simp add: node_inv_def same_frame_def session_count_def)
qed

lemma node_inv_step:
  assumes "node_inv c n" "room_for (nd_upf n)"
  shows "node_inv c (snd (node_step L ip ev n))"
proof (cases ev)
  case (RecvN4 data now peer)
  let ?st = "snd (handle_n4_from L data ip (nd_upf n) now (Some (fst peer)))"
  have r: "upf_reachable ?st" using assms by (intro reach_handle) (simp_all add: node_inv_def)
  have b: "session_count ?st \<le> c \<and> max_sessions ?st = c"
    using assms(1) handle_msg_bounded[of "nd_upf n" L _ ip now "Some (fst peer)"]
    by (auto simp: n4_state node_inv_def split: option.split)
  have "snd (node_step L ip ev n) = n\<lparr>nd_smf_addr := Some peer,
      nd_upf := snd (take_pending_ra (snd (take_end_markers (snd (take_flush ?st)))))\<rparr>"
    unfolding RecvN4 by (simp add: serve_n4_def Let_def take_flush_def take_end_markers_def take_pending_ra_def case_prod_beta)
  moreover have "upf_reachable (snd (take_pending_ra (snd (take_end_markers (snd (take_flush ?st))))))"
    by (intro reach_simple r)
  ultimately show ?thesis
    using b by (simp add: node_inv_def) (simp add: take_flush_def take_end_markers_def take_pending_ra_def session_count_def)
next
  case (RecvN3 data now peer tun)
  have "snd (serve_n3 n data now peer tun) = n \<or>
      (\<exists>teid payload u st'. n6_uplink (nd_upf n) teid payload now = (u, st') \<and> snd (serve_n3 n data now peer tun) = n\<lparr>nd_upf := st'\<rparr>)"
    by (auto simp: serve_n3_def split: option.splits N3Message.splits prod.splits) 
  then show ?thesis unfolding RecvN3 using assms(1) n6_uplink_frame node_inv_frame by auto
next
  case (RecvN6 pkt now)
  obtain d st' where d: "n6_downlink (nd_upf n) pkt now = (d, st')" by fastforce
  then show ?thesis unfolding RecvN6 using assms(1) n6_downlink_frame[OF d] node_inv_frame[of c n st']
    by (simp add: serve_n6_downlink_def)
next
  case UsageTurn
  obtain out n' where u: "usage_turn L n = (out, n')" by fastforce
  then have "n' = n\<lparr>nd_upf := nd_upf n', nd_seq := nd_seq n'\<rparr>" by (auto simp: usage_turn_def split: prod.splits option.splits)
  then show ?thesis unfolding UsageTurn using node_inv_frame[OF assms(1), of "nd_upf n'"] turn_frame(1)[OF u] u
    by (simp add: node_inv_def)
next
  case DldrTurn
  obtain out n' where u: "dldr_turn L n = (out, n')" by fastforce
  then show ?thesis unfolding DldrTurn using node_inv_frame[OF assms(1), of "nd_upf n'"] turn_frame(2)[OF u] u
    by (simp add: node_inv_def)
qed

lemma node_reachable_inv: "node_reachable L ip ceiling n \<Longrightarrow> node_inv ceiling n"
proof (induction rule: node_reachable.induct)
  case (boot t)
  have "upf_reachable (apply_op (SetMaxSessions ceiling) (with_recovery_time t))"
    by (rule upf_reachable.step[OF upf_reachable.start]) simp
  then show ?case by (simp add: node_inv_def set_max_sessions_def with_recovery_time_def session_count_def)
next
  case (turn n ev)
  then show ?case by (simp add: node_inv_step)
qed

subsection \<open>Properties\<close>



lemma usage_loop_drains:
  assumes "nd_smf_addr n = Some smf"
  shows "length (fst (usage_loop L n)) = due_count (nd_upf n) \<and> due_count (nd_upf (snd (usage_loop L n))) = 0
    \<and> (\<forall>x\<in>set (fst (usage_loop L n)). \<exists>m. x = SentN4 smf m) \<and> nd_smf_addr (snd (usage_loop L n)) = Some smf"
  using assms
proof (induction L n rule: usage_loop.induct)
  case (1 L n)
  obtain out n' where u: "usage_turn L n = (out, n')" by fastforce
  show ?case
  proof (cases out)
    case None
    have "take_due_report (nd_upf n) = (None, nd_upf n')" "n' = n\<lparr>nd_upf := nd_upf n'\<rparr>"
      using u 1(2) None by (auto simp: usage_turn_def split: prod.splits option.splits)
    then have "due_count (nd_upf n) = 0" "nd_upf n' = nd_upf n"
      by (auto simp: take_due_report_def due_count_def find_session_def find_None_all filter_empty_conv split: option.splits)
    then show ?thesis using u None turn_frame(1)[OF u] 1(2) by (subst (1 2 3 4) usage_loop.simps) simp
  next
    case (Some x)
    obtain m where x: "x = SentN4 smf m" using u Some 1(2) by (auto simp: usage_turn_def split: prod.splits option.splits)
    have smf: "nd_smf_addr n' = Some smf" using turn_frame(1)[OF u] 1(2) by simp
    have "length (fst (usage_loop L n')) = due_count (nd_upf n') \<and> due_count (nd_upf (snd (usage_loop L n'))) = 0
        \<and> (\<forall>x\<in>set (fst (usage_loop L n')). \<exists>m. x = SentN4 smf m) \<and> nd_smf_addr (snd (usage_loop L n')) = Some smf"
      by (rule 1(1)[OF u[symmetric] Some smf])
    then show ?thesis using u Some x usage_turn_measure[of L n x n']
      by (subst (1 2 3 4) usage_loop.simps) (auto split: prod.split)
  qed
qed

text \<open>threshold reports. In every reachable node with a session, one pass of the usage loop sends
  exactly one report per session that crossed its threshold, all to the known SMF address, and
  leaves none due.\<close>

theorem usage_reports_sent:
  assumes "node_reachable L ip ceiling n" "sessions (nd_upf n) \<noteq> []"
  shows "\<exists>smf. nd_smf_addr n = Some smf
    \<and> length (fst (usage_loop L n)) = due_count (nd_upf n) \<and> due_count (nd_upf (snd (usage_loop L n))) = 0
    \<and> (\<forall>x\<in>set (fst (usage_loop L n)). \<exists>m. x = SentN4 smf m)"
  using node_reachable_inv[OF assms(1)] assms(2) usage_loop_drains[of n _ L] by (auto simp: node_inv_def)

lemma dldr_loop_dest:
  assumes "nd_smf_addr n = Some smf" "x \<in> set (fst (dldr_loop L n))"
  shows "\<exists>m. x = SentN4 smf m"
  using assms
proof (induction L n rule: dldr_loop.induct)
  case (1 L n)
  obtain out n' where u: "dldr_turn L n = (out, n')" by fastforce
  show ?case
  proof (cases out)
    case None
    then show ?thesis using 1(3) u by (simp add: dldr_loop.simps[of L n])
  next
    case (Some o1)
    have "\<exists>m. o1 = SentN4 smf m" "nd_smf_addr n' = Some smf"
      using u Some 1(2) by (auto simp: dldr_turn_def split: prod.splits option.splits)
    then show ?thesis using 1 u Some by (auto simp: dldr_loop.simps[of L n] split: prod.splits)
  qed
qed

lemma report_usage_dest:
  assumes "nd_smf_addr n = Some smf" "x \<in> set (fst (report_usage L n))"
  shows "\<exists>m. x = SentN4 smf m"
  using assms usage_loop_drains[OF assms(1), of L] dldr_loop_dest[of "snd (usage_loop L n)" smf x L]
  by (auto simp: report_usage_def split: prod.splits)

text \<open>C39: reports follow the last datagram. Any datagram on the N4 socket, from any source and with any
  content, makes its source the destination of every usage report and downlink data report of the
  next tick, one for each session over its threshold, although a session answers only to the address
  that established it. A datagram that does not even parse leaves the sessions as they were and has
  the same effect.\<close>

theorem reports_follow_last_datagram:
  assumes "snd (serve_n4 L ip n data now peer) = n'"
  shows "nd_smf_addr n' = Some peer
   \<and> due_count (nd_upf n') \<le> length (fst (report_usage L n'))
   \<and> (\<forall>x\<in>set (fst (report_usage L n')). \<exists>m. x = SentN4 peer m)
   \<and> (lib_parse L data = None \<longrightarrow> sessions (nd_upf n') = sessions (nd_upf n))"
proof -
  have a: "nd_smf_addr n' = Some peer"
    using assms by (auto simp: serve_n4_def Let_def split: prod.splits)
  moreover have "sessions (nd_upf n') = sessions (nd_upf n)" if "lib_parse L data = None"
    using that assms by (auto simp: serve_n4_def Let_def handle_n4_from_def take_flush_def take_end_markers_def take_pending_ra_def)
  moreover have "due_count (nd_upf n') \<le> length (fst (report_usage L n'))"
    using usage_loop_drains[OF a, of L] by (auto simp: report_usage_def split: prod.split)
  ultimately show ?thesis using report_usage_dest[OF a] by blast
qed

theorem reports_follow_last_datagram_witness:
  "sessions (nd_upf (snd (serve_n4 plain_lib 42
      \<lparr>nd_upf = with_recovery_time 0\<lparr>sessions := [(1, demo_session\<lparr>report_due := True\<rparr>)]\<rparr>, nd_smf_addr = Some (IpV4 1, 8805), nd_seq = 1\<rparr>
      [0] 5 (IpV4 66, 4444)))) = [(1, demo_session\<lparr>report_due := True\<rparr>)]
   \<and> nd_smf_addr (snd (serve_n4 plain_lib 42
      \<lparr>nd_upf = with_recovery_time 0\<lparr>sessions := [(1, demo_session\<lparr>report_due := True\<rparr>)]\<rparr>, nd_smf_addr = Some (IpV4 1, 8805), nd_seq = 1\<rparr>
      [0] 5 (IpV4 66, 4444))) = Some (IpV4 66, 4444)"
  using reports_follow_last_datagram[OF refl, of plain_lib 42
      "\<lparr>nd_upf = with_recovery_time 0\<lparr>sessions := [(1, demo_session\<lparr>report_due := True\<rparr>)]\<rparr>, nd_smf_addr = Some (IpV4 1, 8805), nd_seq = 1\<rparr>"
      "[0]" 5 "(IpV4 66, 4444)"] by (simp add: plain_lib_def)

definition demo_node :: upf_node where
  "demo_node = snd (node_step (numbered_lib demo_exchange) 42 (RecvN4 [0] 5 (IpV4 1, 8805))
     \<lparr>nd_upf = set_max_sessions (with_recovery_time 0) 3, nd_smf_addr = None, nd_seq = 1\<rparr>)"

lemma demo_node_reachable: "node_reachable (numbered_lib demo_exchange) 42 3 demo_node"
proof -
  let ?n = "\<lparr>nd_upf = set_max_sessions (with_recovery_time 0) 3, nd_smf_addr = None, nd_seq = 1\<rparr>"
  have "room_for (nd_upf ?n)" by (simp add: room_for_def set_max_sessions_def with_recovery_time_def)
  then show ?thesis unfolding demo_node_def by (intro node_reachable.turn node_reachable.boot)
qed

lemma demo_node_session: "sessions (nd_upf demo_node) \<noteq> []"
proof -
  let ?L = "numbered_lib demo_exchange" and ?st = "set_max_sessions (with_recovery_time 0) 3"
  let ?m = "session_establishment_request_msg plain_lib demo_params"
  have p: "lib_parse ?L [0] = Some ?m" by (simp add: numbered_lib_def demo_exchange_def)
  have m: "m_type ?m = SessionEstablishmentRequest" "ie_fseid ?m = [Some (7, 1)]"
    by (simp_all add: session_establishment_request_msg_def Let_def bare_msg_def demo_params_def)
  have "snd (handle_msg ?L ?m 42 ?st 5 (Some (IpV4 1))) = snd (establish ?st (requested_args ?m 7 (Some (IpV4 1))) 5)"
    by (simp add: handle_msg_def handle_establishment_def m session_count_def set_max_sessions_def with_recovery_time_def split: prod.split)
  then have "sessions (snd (handle_n4_from ?L [0] 42 ?st 5 (Some (IpV4 1)))) \<noteq> []"
    by (simp add: n4_state p establish_def Let_def table_insert_def set_max_sessions_def with_recovery_time_def)
  then show ?thesis
    by (simp add: demo_node_def serve_n4_def Let_def take_flush_def take_end_markers_def take_pending_ra_def split: prod.split)
      auto
qed

theorem usage_reports_sent_witness:
  "due_count (nd_upf (snd (usage_loop (numbered_lib demo_exchange) demo_node))) = 0"
  using usage_reports_sent[OF demo_node_reachable demo_node_session] by blast

end
