(* ===== verification/Sdap.thy ===== *)
theory Sdap
  imports Prelude
begin

section \<open>SDAP: the one-octet data header\<close>

text \<open>\<open>crates/sdap/src/lib.rs\<close>: uplink and downlink encapsulation of a user packet with its QFI
  and the reflective-QoS bits, and the two readers.\<close>

definition QFI_MASK :: u8 where "QFI_MASK = 0x3F"
definition DC_DATA :: u8 where "DC_DATA = 0x80"
definition RDI :: u8 where "RDI = 0x80"
definition RQI :: u8 where "RQI = 0x40"

lemmas sdap_consts = QFI_MASK_def DC_DATA_def RDI_def RQI_def

record DlHeader =
  dlh_qfi :: u8
  dlh_rqi :: bool
  dlh_rdi :: bool

definition sdap_encap_ul :: "u8 \<Rightarrow> bytes \<Rightarrow> bytes" where
  "sdap_encap_ul qfi packet = [DC_DATA OR (qfi AND QFI_MASK)] @ packet"

definition sdap_encap_dl :: "u8 \<Rightarrow> bool \<Rightarrow> bool \<Rightarrow> bytes \<Rightarrow> bytes" where
  "sdap_encap_dl qfi rqi rdi packet =
     [((if rdi then RDI else 0) OR (if rqi then RQI else 0)) OR (qfi AND QFI_MASK)] @ packet"

definition sdap_decap :: "bytes \<Rightarrow> (u8 \<times> bytes) option" where
  "sdap_decap pdu = (case pdu of [] \<Rightarrow> None | first # rest \<Rightarrow> Some (first AND QFI_MASK, rest))"

definition sdap_decap_dl :: "bytes \<Rightarrow> (DlHeader \<times> bytes) option" where
  "sdap_decap_dl pdu = (case pdu of [] \<Rightarrow> None
     | first # rest \<Rightarrow> Some (\<lparr>dlh_qfi = first AND QFI_MASK, dlh_rqi = (first AND RQI \<noteq> 0),
                              dlh_rdi = (first AND RDI \<noteq> 0)\<rparr>, rest))"

lemma sdap_nonzero: "RQI \<noteq> 0" "RDI \<noteq> 0"
  by (simp_all add: sdap_consts)

lemma sdap_bits:
  "(DC_DATA OR (q AND QFI_MASK)) AND QFI_MASK = q AND QFI_MASK"
  "(((if rdi then RDI else 0) OR (if rqi then RQI else 0)) OR (q AND QFI_MASK)) AND QFI_MASK = q AND QFI_MASK"
  "(((if rdi then RDI else 0) OR (if rqi then RQI else 0)) OR (q AND QFI_MASK)) AND RQI = (if rqi then RQI else 0)"
  "(((if rdi then RDI else 0) OR (if rqi then RQI else 0)) OR (q AND QFI_MASK)) AND RDI = (if rdi then RDI else 0)"
  by (simp_all add: sdap_consts bit.conj_disj_distrib2 and.assoc)

text \<open>SDAP round trip. Whatever its direction, a header yields the six bits of the QFI and the
  packet; the downlink reader also recovers both reflective-QoS bits; only the empty PDU is
  refused.\<close>

theorem sdap_roundtrip:
  "sdap_decap (sdap_encap_ul qfi packet) = Some (qfi AND 0x3F, packet)
   \<and> sdap_decap (sdap_encap_dl qfi rqi rdi packet) = Some (qfi AND 0x3F, packet)
   \<and> sdap_decap_dl (sdap_encap_dl qfi rqi rdi packet)
       = Some (\<lparr>dlh_qfi = qfi AND 0x3F, dlh_rqi = rqi, dlh_rdi = rdi\<rparr>, packet)
   \<and> (sdap_decap pdu = None \<longleftrightarrow> pdu = []) \<and> (sdap_decap_dl pdu = None \<longleftrightarrow> pdu = [])"
  unfolding QFI_MASK_def [symmetric]
  by (auto simp: sdap_decap_def sdap_encap_ul_def sdap_encap_dl_def sdap_decap_dl_def sdap_bits
      sdap_nonzero split: list.splits)

end
