(* ===== verification/Pdcp.thy ===== *)
theory Pdcp
  imports Prelude
begin

section \<open>PDCP: sequence numbers, COUNT reconstruction and protection of bearers\<close>

text \<open>
  \<open>crates/pdcp/src/lib.rs\<close>: the shared \<open>Bearer\<close> (per-direction COUNTs, integrity, ciphering) and
  the two entities over it, \<open>PdcpSrb\<close> (12-bit sequence numbers) and \<open>PdcpDrb\<close> (18-bit). The
  NEA/NIA algorithms of \<open>oxirush_security\<close> are not part of the repository: \<open>nas_mac\<close> and
  \<open>nas_cipher\<close> are arguments of the operations that call them, in the record \<open>crypto\<close>.
\<close>

subsection \<open>Types\<close>

definition DIRECTION_UPLINK :: u8 where "DIRECTION_UPLINK = 0"
definition DIRECTION_DOWNLINK :: u8 where "DIRECTION_DOWNLINK = 1"
definition MAC_LEN :: nat where "MAC_LEN = 4"
definition SN12_MASK :: u32 where "SN12_MASK = 0x00000FFF"
definition SN18_MASK :: u32 where "SN18_MASK = 0x0003FFFF"

datatype Role = Gnb | Ue

fun role_tx_direction :: "Role \<Rightarrow> u8" where
  "role_tx_direction Gnb = DIRECTION_DOWNLINK"
| "role_tx_direction Ue = DIRECTION_UPLINK"

fun role_rx_direction :: "Role \<Rightarrow> u8" where
  "role_rx_direction Gnb = DIRECTION_UPLINK"
| "role_rx_direction Ue = DIRECTION_DOWNLINK"

record Algo =
  algo_key :: bytes
  algo_id :: u8

datatype PdcpError = TooShort | IntegrityFailure

text \<open>The functions of the security library: \<open>nas_mac key count bearer direction data id\<close> and
  \<open>nas_cipher key count bearer direction data id\<close>, the latter returning what it leaves in the
  buffer it ciphers in place.\<close>

record crypto =
  nas_mac :: "bytes \<Rightarrow> u32 \<Rightarrow> u8 \<Rightarrow> u8 \<Rightarrow> bytes \<Rightarrow> u8 \<Rightarrow> u32"
  nas_cipher :: "bytes \<Rightarrow> u32 \<Rightarrow> u8 \<Rightarrow> u8 \<Rightarrow> bytes \<Rightarrow> u8 \<Rightarrow> bytes"

record Bearer =
  tx_direction :: u8
  rx_direction :: u8
  bearer :: u8
  sn_mask :: u32
  tx_count :: u32
  rx_count :: u32
  integrity :: "Algo option"
  ciphering :: "Algo option"

definition bearer_new :: "Role \<Rightarrow> u8 \<Rightarrow> u32 \<Rightarrow> Bearer" where
  "bearer_new role b msk =
     \<lparr>tx_direction = role_tx_direction role, rx_direction = role_rx_direction role, bearer = b,
      sn_mask = msk, tx_count = 0, rx_count = 0, integrity = None, ciphering = None\<rparr>"

subsection \<open>Bearer operations\<close>

text \<open>\<open>sn_mask.count_ones()\<close>\<close>

definition sn_bits :: "Bearer \<Rightarrow> nat" where
  "sn_bits b = length (filter (bit (sn_mask b)) [0..<32])"

definition next_tx_sn :: "Bearer \<Rightarrow> u32" where
  "next_tx_sn b = tx_count b AND sn_mask b"

definition tx_seal :: "crypto \<Rightarrow> Bearer \<Rightarrow> bytes \<Rightarrow> bytes \<Rightarrow> bytes \<times> Bearer" where
  "tx_seal C b header sdu =
     (let count = tx_count b;
          plain = header @ sdu;
          sealed = (case integrity b of
             Some a \<Rightarrow> plain @ to_be 4 (nas_mac C (algo_key a) count (bearer b) (tx_direction b) plain (algo_id a))
           | None \<Rightarrow> plain);
          pdu = (case ciphering b of
             Some a \<Rightarrow> take (length header) sealed
               @ nas_cipher C (algo_key a) count (bearer b) (tx_direction b) (drop (length header) sealed) (algo_id a)
           | None \<Rightarrow> sealed)
      in (pdu, b\<lparr>tx_count := count + 1\<rparr>))"

definition rx_count_for :: "Bearer \<Rightarrow> u32 \<Rightarrow> u32" where
  "rx_count_for b sn0 =
     (let bits = sn_bits b;
          window = push_bit (bits - 1) 1;
          sn = sn0 AND sn_mask b;
          ref_hfn = drop_bit bits (rx_count b);
          ref_sn = rx_count b AND sn_mask b;
          hfn = (if sn < ref_sn \<and> ref_sn - sn > window then ref_hfn + 1
                 else if sn > ref_sn \<and> sn - ref_sn > window then ref_hfn - 1
                 else ref_hfn)
      in push_bit bits hfn OR sn)"

definition rx_open :: "crypto \<Rightarrow> Bearer \<Rightarrow> bytes \<Rightarrow> nat \<Rightarrow> u32 \<Rightarrow> (PdcpError + bytes) \<times> Bearer" where
  "rx_open C b pdu hdr_len sn =
     (let count = rx_count_for b sn;
          body0 = drop hdr_len pdu;
          body = (case ciphering b of
             Some a \<Rightarrow> nas_cipher C (algo_key a) count (bearer b) (rx_direction b) body0 (algo_id a)
           | None \<Rightarrow> body0)
      in case integrity b of
           Some a \<Rightarrow>
             (if length body < MAC_LEN then (Inl TooShort, b)
              else let split = length body - MAC_LEN;
                       received = from_be (drop split body);
                       mac_input = take hdr_len pdu @ take split body;
                       expected = nas_mac C (algo_key a) count (bearer b) (rx_direction b) mac_input (algo_id a)
                   in if expected \<noteq> received then (Inl IntegrityFailure, b)
                      else (Inr (take split body), b\<lparr>rx_count := count + 1\<rparr>))
         | None \<Rightarrow> (Inr body, b\<lparr>rx_count := count + 1\<rparr>))"

subsection \<open>The signalling and data entities\<close>

definition saturating_dec :: "u8 \<Rightarrow> u8" where
  "saturating_dec n = saturating_sub n 1"

definition srb_new :: "Role \<Rightarrow> u8 \<Rightarrow> Bearer" where
  "srb_new role srb_id = bearer_new role (saturating_dec srb_id) SN12_MASK"

definition drb_new :: "Role \<Rightarrow> u8 \<Rightarrow> Bearer" where
  "drb_new role drb_id = bearer_new role (saturating_dec drb_id) SN18_MASK"

definition activate_integrity :: "Bearer \<Rightarrow> bytes \<Rightarrow> u8 \<Rightarrow> Bearer" where
  "activate_integrity b k nia = b\<lparr>integrity := Some \<lparr>algo_key = k, algo_id = nia\<rparr>\<rparr>"

definition activate_ciphering :: "Bearer \<Rightarrow> bytes \<Rightarrow> u8 \<Rightarrow> Bearer" where
  "activate_ciphering b k nea = b\<lparr>ciphering := Some \<lparr>algo_key = k, algo_id = nea\<rparr>\<rparr>"

definition integrity_active :: "Bearer \<Rightarrow> bool" where
  "integrity_active b = (integrity b \<noteq> None)"

definition srb_header :: "u32 \<Rightarrow> bytes" where
  "srb_header sn = [ucast (drop_bit 8 sn AND 0x0F), ucast (sn AND 0xFF)]"

definition srb_sn :: "bytes \<Rightarrow> u32" where
  "srb_sn pdu = push_bit 8 (ucast (pdu ! 0 AND 0x0F)) OR ucast (pdu ! 1)"

definition srb_protect :: "crypto \<Rightarrow> Bearer \<Rightarrow> bytes \<Rightarrow> bytes \<times> Bearer" where
  "srb_protect C b sdu = tx_seal C b (srb_header (next_tx_sn b)) sdu"

definition srb_unprotect :: "crypto \<Rightarrow> Bearer \<Rightarrow> bytes \<Rightarrow> (PdcpError + bytes) \<times> Bearer" where
  "srb_unprotect C b pdu =
     (if length pdu < 2 then (Inl TooShort, b) else rx_open C b pdu 2 (srb_sn pdu))"

definition drb_header :: "u32 \<Rightarrow> bytes" where
  "drb_header sn = [0x80 OR ucast (drop_bit 16 sn AND 0x03), ucast (drop_bit 8 sn AND 0xFF), ucast (sn AND 0xFF)]"

definition drb_sn :: "bytes \<Rightarrow> u32" where
  "drb_sn pdu = push_bit 16 (ucast (pdu ! 0 AND 0x03)) OR push_bit 8 (ucast (pdu ! 1)) OR ucast (pdu ! 2)"

definition drb_protect :: "crypto \<Rightarrow> Bearer \<Rightarrow> bytes \<Rightarrow> bytes \<times> Bearer" where
  "drb_protect C b sdu = tx_seal C b (drb_header (next_tx_sn b)) sdu"

definition drb_unprotect :: "crypto \<Rightarrow> Bearer \<Rightarrow> bytes \<Rightarrow> (PdcpError + bytes) \<times> Bearer" where
  "drb_unprotect C b pdu =
     (if length pdu < 3 then (Inl TooShort, b) else rx_open C b pdu 3 (drb_sn pdu))"


subsection \<open>COUNT reconstruction\<close>

lemma count_ones_mask: "length (filter (bit (mask n :: u32)) [0..<32]) = min n 32"
proof -
  have "filter (bit (mask n :: u32)) [0..<32] = filter (\<lambda>i. i < n) [0..<32]"
    by (rule filter_cong) (auto simp: bit_simps)
  then have "length (filter (bit (mask n :: u32)) [0..<32]) = card {i. i < 32 \<and> i < n}"
    by (simp add: length_filter_conv_card cong: conj_cong)
  also have "{i. i < 32 \<and> i < n} = {..<min n 32}" by auto
  finally show ?thesis by simp
qed


text \<open>The reconstruction is exact for every COUNT strictly within half the sequence-number space
  of the receiver's, ahead or behind, and also where the 32-bit COUNT itself wraps.\<close>

lemma push_or_low: "push_bit n x OR take_bit n y = push_bit n x + take_bit n (y :: u32)"
  by (rule disjunctive_add_eq_or[symmetric]) (rule bit_word_eqI, auto simp: bit_simps)

lemma hfn_split: "(w :: u32) = drop_bit n w * 2 ^ n + take_bit n w"
proof -
  have "push_bit n (drop_bit n w) + take_bit n w = w" by (rule bits_ident)
  then show ?thesis by (simp add: push_bit_eq_mult)
qed

lemma uint_take_bit_add:
  assumes "n \<le> 32"
  shows "uint (take_bit n ((w :: u32) + of_int d)) = (uint (take_bit n w) + d) mod 2 ^ n"
proof -
  have low: "uint (take_bit n x) = uint x mod 2 ^ n" for x :: u32
    by (metis unsigned_take_bit_eq take_bit_eq_mod)
  have "uint (w + of_int d) = (uint w + d) mod 2 ^ 32"
    by (simp add: uint_word_ariths uint_word_of_int take_bit_eq_mod mod_simps)
  moreover have "(2 :: int) ^ n dvd 2 ^ 32" using assms by (rule le_imp_power_dvd)
  ultimately have "uint (take_bit n (w + of_int d)) = (uint w + d) mod 2 ^ n"
    by (simp only: low mod_mod_cancel)
  also have "\<dots> = (uint (take_bit n w) + d) mod 2 ^ n"
    by (simp only: low mod_simps)
  finally show ?thesis .
qed

lemma of_int_uint_eq: "uint (x :: u32) = i \<Longrightarrow> x = of_int i"
  by auto

lemma rx_count_for_exact:
  assumes m: "sn_mask b = mask n" "0 < n" "n < 32"
    and d: "\<bar>d\<bar> < 2 ^ (n - 1)" and c: "c = rx_count b + of_int d"
  shows "rx_count_for b (take_bit n c) = c"
proof -
  define r where "r = take_bit n (rx_count b)"
  define sn where "sn = take_bit n c"
  define h where "h = drop_bit n (rx_count b)"
  have bits: "sn_bits b = n" using m by (simp add: sn_bits_def count_ones_mask)
  have and_mask: "x AND mask n = take_bit n x" for x :: u32 by (simp add: take_bit_eq_mask)
  have rx: "rx_count b = h * 2 ^ n + r" unfolding h_def r_def by (rule hfn_split)
  have N: "(2 :: int) ^ n = 2 * 2 ^ (n - 1)" using m(2) by (cases n) auto
  have pos: "(0 :: int) < 2 ^ (n - 1)" by simp
  have ur: "0 \<le> uint r" "uint r < 2 ^ n"
    unfolding r_def by (simp_all only: unsigned_take_bit_eq take_bit_nonnegative take_bit_int_less_exp)
  have us: "uint sn = (uint r + d) mod 2 ^ n"
    using uint_take_bit_add[of n "rx_count b" d] m(3) by (simp add: sn_def r_def c)
  have w: "uint (push_bit (n - 1) 1 :: u32) = 2 ^ (n - 1)"
    using m by (simp add: push_bit_eq_mult uint_2p word_gt_0)
  define hfn where "hfn = (if sn < r \<and> push_bit (n - 1) 1 < r - sn then h + 1
      else if r < sn \<and> push_bit (n - 1) 1 < sn - r then h - 1 else h)"
  have res: "rx_count_for b (take_bit n c) = hfn * 2 ^ n + sn"
  proof -
    have "rx_count_for b (take_bit n c) = push_bit n hfn OR take_bit n c"
      unfolding rx_count_for_def Let_def bits m(1) and_mask hfn_def sn_def r_def h_def by simp
    also have "\<dots> = push_bit n hfn + take_bit n c" by (rule push_or_low)
    finally show ?thesis by (simp add: sn_def push_bit_eq_mult)
  qed
  have sub: "uint (x - y) = uint x - uint y" if "y \<le> x" for x y :: u32
    using that by (simp add: uint_sub_lem[symmetric] word_le_def)
  consider "0 \<le> uint r + d" "uint r + d < 2 ^ n" | "2 ^ n \<le> uint r + d" | "uint r + d < 0" by linarith
  then show ?thesis
  proof cases
    case 1
    then have s: "uint sn = uint r + d" using us by simp
    have "hfn = h"
      using s d w sub[of sn r] sub[of r sn] by (auto simp: hfn_def word_less_def word_le_def)
    moreover have "sn = r + of_int d"
      using of_int_uint_eq[OF s] by simp
    ultimately show ?thesis using res rx c by (simp add: algebra_simps)
  next
    case 2
    then have s: "uint sn = uint r + d - 2 ^ n"
    proof -
      have "(uint r + d - 2 ^ n) mod 2 ^ n = uint r + d - 2 ^ n"
        using 2 ur d N by (intro mod_pos_pos_trivial; linarith)
      then show ?thesis by (simp add: us)
    qed
    have lt: "uint sn < uint r" "2 ^ (n - 1) < uint r - uint sn" using s d N pos by linarith+
    then have "hfn = h + 1"
      using w sub[of sn r] by (simp add: hfn_def word_less_def word_le_def)
    moreover have "sn = r + of_int d - 2 ^ n"
      using of_int_uint_eq[OF s] by simp
    ultimately show ?thesis using res rx c by (simp add: algebra_simps)
  next
    case 3
    then have s: "uint sn = uint r + d + 2 ^ n"
    proof -
      have "(uint r + d + 2 ^ n) mod 2 ^ n = uint r + d + 2 ^ n"
        using 3 ur d N by (intro mod_pos_pos_trivial; linarith)
      then show ?thesis by (simp add: us)
    qed
    have lt: "uint r < uint sn" "2 ^ (n - 1) < uint sn - uint r" using s d N pos by linarith+
    then have "hfn = h - 1"
      using w sub[of r sn] by (simp add: hfn_def word_less_def word_le_def)
    moreover have "sn = r + of_int d + 2 ^ n"
      using of_int_uint_eq[OF s] by simp
    ultimately have "rx_count_for b (take_bit n c) = (h - 1) * 2 ^ n + (r + of_int d + 2 ^ n)"
      using res by simp
    also have "\<dots> = c" using rx c by (simp add: left_diff_distrib)
    finally show ?thesis .
  qed
qed


subsection \<open>One protection, any header format\<close>

text \<open>
  The interface between the bearer and its two entities: a sequence-number format of \<open>bits\<close> bits
  whose header is read back, and the two entity operations built over it. What is proved here
  holds for signalling and data bearers alike.
\<close>

definition linked :: "nat \<Rightarrow> Bearer \<Rightarrow> Bearer \<Rightarrow> bool" where
  "linked n s r \<longleftrightarrow> sn_mask s = mask n \<and> sn_mask r = mask n \<and> bearer s = bearer r
     \<and> tx_direction s = rx_direction r \<and> integrity s = integrity r \<and> ciphering s = ciphering r"

definition stream_cipher :: "crypto \<Rightarrow> bool" where
  "stream_cipher C \<longleftrightarrow> (\<forall>k c b d xs i. nas_cipher C k c b d (nas_cipher C k c b d xs i) i = xs)"

text \<open>A transmission over a link that loses PDUs: for each SDU, whether its PDU arrives. The
  receiver's answers are listed in order.\<close>

fun run_link :: "(Bearer \<Rightarrow> bytes \<Rightarrow> bytes \<times> Bearer) \<Rightarrow> (Bearer \<Rightarrow> bytes \<Rightarrow> (PdcpError + bytes) \<times> Bearer)
    \<Rightarrow> Bearer \<Rightarrow> Bearer \<Rightarrow> (bytes \<times> bool) list \<Rightarrow> (PdcpError + bytes) list" where
  "run_link prot unprot s r [] = []"
| "run_link prot unprot s r ((sdu, arrives) # rest) =
     (let (pdu, s') = prot s sdu in
      if arrives then let (x, r') = unprot r pdu in x # run_link prot unprot s' r' rest
      else run_link prot unprot s' r rest)"

text \<open>Every run of consecutive losses is shorter than \<open>w\<close>, given that \<open>k\<close> were lost just before.\<close>

fun losses_below :: "int \<Rightarrow> int \<Rightarrow> (bytes \<times> bool) list \<Rightarrow> bool" where
  "losses_below w k [] = True"
| "losses_below w k ((sdu, arrives) # rest) =
     (if arrives then k < w \<and> losses_below w 0 rest else losses_below w (k + 1) rest)"

locale sn_format =
  fixes bits :: nat and hlen :: nat and header :: "u32 \<Rightarrow> bytes" and sn_of :: "bytes \<Rightarrow> u32"
    and protect :: "crypto \<Rightarrow> Bearer \<Rightarrow> bytes \<Rightarrow> bytes \<times> Bearer"
    and unprotect :: "crypto \<Rightarrow> Bearer \<Rightarrow> bytes \<Rightarrow> (PdcpError + bytes) \<times> Bearer"
  assumes bits_pos: "0 < bits" and bits_less: "bits < 32"
    and header_length: "length (header sn) = hlen"
    and sn_of_header: "sn_of (header sn @ rest) = take_bit bits sn"
    and protect_eq: "protect C b sdu = tx_seal C b (header (next_tx_sn b)) sdu"
    and unprotect_eq: "unprotect C b pdu =
      (if length pdu < hlen then (Inl TooShort, b) else rx_open C b pdu hlen (sn_of pdu))"
begin

text \<open>What is protected at a COUNT strictly within half the window of the receiver's is
  recovered, and the receiver's COUNT moves right behind it.\<close>

lemma recover:
  assumes "linked bits s r" "stream_cipher C"
    and "\<bar>d\<bar> < 2 ^ (bits - 1)" "tx_count s = rx_count r + of_int d"
  shows "unprotect C r (fst (protect C s sdu)) = (Inr sdu, r\<lparr>rx_count := tx_count s + 1\<rparr>)"
proof -
  let ?h = "header (next_tx_sn s)"
  let ?c = "tx_count s"
  define m where "m = (case integrity s of Some a \<Rightarrow>
      to_be 4 (nas_mac C (algo_key a) ?c (bearer s) (tx_direction s) (?h @ sdu) (algo_id a)) | None \<Rightarrow> [])"
  define body where "body = (case ciphering s of
      Some a \<Rightarrow> nas_cipher C (algo_key a) ?c (bearer s) (tx_direction s) (sdu @ m) (algo_id a)
    | None \<Rightarrow> sdu @ m)"
  have pdu: "fst (protect C s sdu) = ?h @ body"
    by (simp add: protect_eq tx_seal_def Let_def body_def m_def split: option.splits)
  have sn: "next_tx_sn s = take_bit bits ?c"
    using assms(1) by (simp add: next_tx_sn_def linked_def take_bit_eq_mask)
  have "rx_count_for r (take_bit bits ?c) = ?c"
    using assms bits_pos bits_less by (intro rx_count_for_exact) (auto simp: linked_def)
  then have count: "rx_count_for r (sn_of (?h @ body)) = ?c" by (simp add: sn_of_header sn)
  have clear: "(case ciphering r of
      Some a \<Rightarrow> nas_cipher C (algo_key a) ?c (bearer r) (rx_direction r) body (algo_id a)
    | None \<Rightarrow> body) = sdu @ m"
    using assms(1,2) by (auto simp: body_def linked_def stream_cipher_def split: option.splits)
  have open_eq: "unprotect C r (fst (protect C s sdu)) = rx_open C r (?h @ body) hlen (sn_of (?h @ body))"
    by (simp add: pdu unprotect_eq header_length)
  have parts: "drop hlen (?h @ body) = body" "take hlen (?h @ body) = ?h"
    by (simp_all add: header_length)
  show ?thesis
  proof (cases "integrity s")
    case None
    with assms(1) have "integrity r = None" by (simp add: linked_def)
    with None show ?thesis
      unfolding open_eq rx_open_def Let_def count parts clear by (simp add: m_def)
  next
    case (Some a)
    with assms(1) have "integrity r = Some a" "bearer r = bearer s" "rx_direction r = tx_direction s"
      by (auto simp: linked_def)
    with Some show ?thesis
      unfolding open_eq rx_open_def Let_def count parts clear
      by (simp add: m_def MAC_LEN_def from_be_to_be)
  qed
qed

lemma protect_state: "snd (protect C s sdu) = s\<lparr>tx_count := tx_count s + 1\<rparr>"
  by (simp add: protect_eq tx_seal_def Let_def)

lemma lossy_stream:
  assumes "linked bits s r" "stream_cipher C" "losses_below (2 ^ (bits - 1)) k xs" "0 \<le> k"
    and "tx_count s = rx_count r + of_int k"
  shows "run_link (protect C) (unprotect C) s r xs = map (\<lambda>x. Inr (fst x)) (filter snd xs)"
  using assms
proof (induction xs arbitrary: s r k)
  case Nil
  then show ?case by simp
next
  case (Cons x xs)
  obtain sdu arrives where x: "x = (sdu, arrives)" by (cases x)
  let ?s = "s\<lparr>tx_count := tx_count s + 1\<rparr>"
  let ?r = "r\<lparr>rx_count := tx_count s + 1\<rparr>"
  obtain p where pdu: "protect C s sdu = (p, ?s)"
    using protect_state[of C s sdu] by (cases "protect C s sdu") simp
  have l: "linked bits ?s r" "linked bits ?s ?r" using Cons.prems(1) by (auto simp: linked_def)
  show ?case
  proof (cases arrives)
    case True
    with Cons.prems x have "\<bar>k\<bar> < 2 ^ (bits - 1)" "losses_below (2 ^ (bits - 1)) 0 xs" by auto
    with Cons.prems Cons.IH[of ?s ?r 0] l recover[of s r C k sdu] pdu show ?thesis
      by (simp add: x True)
  next
    case False
    with Cons.prems x have "losses_below (2 ^ (bits - 1)) (k + 1) xs" by auto
    with Cons.prems Cons.IH[of ?s r "k + 1"] l pdu False show ?thesis
      by (simp add: x algebra_simps)
  qed
qed

text \<open>Refusal changes nothing, and with integrity active acceptance means that the MAC-I
  verified over the header and the very SDU returned.\<close>

lemma refused: "unprotect C b pdu = (Inl e, b') \<Longrightarrow> b' = b"
  by (auto simp: unprotect_eq rx_open_def Let_def split: if_splits option.splits)

lemma accepted:
  assumes "unprotect C b pdu = (Inr sdu, b')" "integrity b = Some a"
  shows "\<exists>count mac. b' = b\<lparr>rx_count := count + 1\<rparr> \<and> count = rx_count_for b (sn_of pdu)
     \<and> mac = nas_mac C (algo_key a) count (bearer b) (rx_direction b) (take hlen pdu @ sdu) (algo_id a)
     \<and> sdu @ to_be 4 mac = (case ciphering b of
           Some c \<Rightarrow> nas_cipher C (algo_key c) count (bearer b) (rx_direction b) (drop hlen pdu) (algo_id c)
         | None \<Rightarrow> drop hlen pdu)"
proof -
  let ?count = "rx_count_for b (sn_of pdu)"
  define body where "body = (case ciphering b of
           Some c \<Rightarrow> nas_cipher C (algo_key c) ?count (bearer b) (rx_direction b) (drop hlen pdu) (algo_id c)
         | None \<Rightarrow> drop hlen pdu)"
  let ?mac = "nas_mac C (algo_key a) ?count (bearer b) (rx_direction b) (take hlen pdu @ sdu) (algo_id a)"
  have len: "4 \<le> length body" and sdu: "sdu = take (length body - 4) body"
    and mac: "?mac = from_be (drop (length body - 4) body)" and b': "b' = b\<lparr>rx_count := ?count + 1\<rparr>"
    using assms by (auto simp: unprotect_eq rx_open_def Let_def MAC_LEN_def body_def split: if_splits)
  have "to_be 4 ?mac = drop (length body - 4) body"
    using to_be_from_be[of "drop (length body - 4) body", where ?'a = 32] len mac by simp
  then have "sdu @ to_be 4 ?mac = body" using sdu by simp
  with b' show ?thesis by (auto simp: body_def)
qed

end


lemma and_masks:
  "(x :: u32) AND 0xFF = take_bit 8 x" "(x :: u32) AND 0x0F = take_bit 4 x" "(x :: u32) AND 0x03 = take_bit 2 x"
  "(y :: u8) AND 0x0F = take_bit 4 y" "(y :: u8) AND 0x03 = take_bit 2 y"
  by (simp_all add: take_bit_eq_mask mask_eq_exp_minus_1)

lemma srb_sn_header: "srb_sn (srb_header sn @ rest) = take_bit 12 sn"
proof -
  have "push_bit 8 (ucast (take_bit 4 (ucast (take_bit 4 (drop_bit 8 sn)) :: u8)))
      OR ucast (ucast (take_bit 8 sn) :: u8) = take_bit 12 sn"
  proof (rule bit_word_eqI)
    fix n assume "n < LENGTH(32)"
    then show "bit (push_bit 8 (ucast (take_bit 4 (ucast (take_bit 4 (drop_bit 8 sn)) :: u8)))
      OR ucast (ucast (take_bit 8 sn) :: u8) :: u32) n = bit (take_bit 12 sn) n"
      by (cases "n < 8") (auto simp: bit_simps not_less le_imp_diff_is_add add.commute)
  qed
  then show ?thesis by (simp add: srb_sn_def srb_header_def and_masks)
qed

lemma drb_sn_header: "drb_sn (drb_header sn @ rest) = take_bit 18 sn"
proof -
  have top: "take_bit 2 (ucast (take_bit 2 x) :: u8) = ucast (take_bit 2 (x :: u32))" for x
    by (rule bit_word_eqI) (auto simp: bit_simps)
  have "push_bit 16 (ucast (ucast (take_bit 2 (drop_bit 16 sn)) :: u8))
      OR push_bit 8 (ucast (ucast (take_bit 8 (drop_bit 8 sn)) :: u8))
      OR ucast (ucast (take_bit 8 sn) :: u8) = take_bit 18 sn"
  proof (rule bit_word_eqI)
    fix n assume "n < LENGTH(32)"
    then show "bit (push_bit 16 (ucast (ucast (take_bit 2 (drop_bit 16 sn)) :: u8))
      OR push_bit 8 (ucast (ucast (take_bit 8 (drop_bit 8 sn)) :: u8))
      OR ucast (ucast (take_bit 8 sn) :: u8) :: u32) n = bit (take_bit 18 sn) n"
      by (cases "n < 8"; cases "n < 16") (auto simp: bit_simps not_less le_imp_diff_is_add add.commute)
  qed
  then show ?thesis by (simp add: drb_sn_def drb_header_def and_masks top)
qed

interpretation srb: sn_format 12 2 srb_header srb_sn srb_protect srb_unprotect
  by unfold_locales (simp_all add: srb_sn_header srb_protect_def srb_unprotect_def, simp add: srb_header_def)

interpretation drb: sn_format 18 3 drb_header drb_sn drb_protect drb_unprotect
  by unfold_locales (simp_all add: drb_sn_header drb_protect_def drb_unprotect_def, simp add: drb_header_def)


subsection \<open>Properties\<close>

text \<open>The roles match: what one end transmits the other receives under the same DIRECTION.\<close>

lemma linked_new:
  "linked 12 (srb_new Gnb i) (srb_new Ue i)" "linked 12 (srb_new Ue i) (srb_new Gnb i)"
  "linked 18 (drb_new Gnb i) (drb_new Ue i)" "linked 18 (drb_new Ue i) (drb_new Gnb i)"
  by (simp_all add: linked_def srb_new_def drb_new_def bearer_new_def SN12_MASK_def SN18_MASK_def
      mask_eq_exp_minus_1)

lemma linked_activate:
  "linked n s r \<Longrightarrow> linked n (activate_integrity s k i) (activate_integrity r k i)"
  "linked n s r \<Longrightarrow> linked n (activate_ciphering s k i) (activate_ciphering r k i)"
  by (simp_all add: linked_def activate_integrity_def activate_ciphering_def)

text \<open>Exact COUNT reconstruction. For both sequence-number lengths the receiver rebuilds the
  sender's full 32-bit COUNT from the truncated sequence number whenever it is strictly less
  than half the sequence-number space ahead of or behind its own, also across a wrap of the
  sequence number, of the hyper-frame number and of COUNT itself.\<close>

theorem rx_count_reconstruction:
  assumes "sn_mask b = SN12_MASK \<and> w = 2 ^ 11 \<or> sn_mask b = SN18_MASK \<and> w = 2 ^ 17"
    and "\<bar>d\<bar> < (w :: int)"
  shows "rx_count_for b ((rx_count b + of_int d) AND sn_mask b) = rx_count b + of_int d"
proof -
  from assms(1) obtain n where n: "sn_mask b = mask n" "0 < n" "n < 32" "w = 2 ^ (n - 1)"
  proof
    assume "sn_mask b = SN12_MASK \<and> w = 2 ^ 11"
    then show thesis by (intro that[of 12]) (auto simp: SN12_MASK_def mask_eq_exp_minus_1)
  next
    assume "sn_mask b = SN18_MASK \<and> w = 2 ^ 17"
    then show thesis by (intro that[of 18]) (auto simp: SN18_MASK_def mask_eq_exp_minus_1)
  qed
  with assms(2) rx_count_for_exact[of b n d] show ?thesis by (simp add: take_bit_eq_mask)
qed

theorem rx_count_reconstruction_witness:
  "rx_count_for ((srb_new Gnb 1)\<lparr>rx_count := 0xFFFFFFFE\<rparr>) (0x003 AND SN12_MASK) = 3"
  using rx_count_reconstruction[of "(srb_new Gnb 1)\<lparr>rx_count := 0xFFFFFFFE\<rparr>" "2 ^ 11" 5]
  by (simp add: srb_new_def bearer_new_def SN12_MASK_def)

text \<open>C23: lossy in-order delivery on a signalling bearer. A sender and a receiver that share
  bearer, keys and algorithms and whose COUNTs agree deliver, over a link that loses any PDUs
  but never 2048 in a row, exactly the SDUs whose PDUs arrived, in order and unaltered, with
  integrity and ciphering on or off. The cipher is only assumed to be its own inverse.\<close>

theorem srb_lossy_delivery:
  assumes "linked 12 s r" "stream_cipher C" "tx_count s = rx_count r" "losses_below 2048 0 xs"
  shows "run_link (srb_protect C) (srb_unprotect C) s r xs = map (\<lambda>x. Inr (fst x)) (filter snd xs)"
  using srb.lossy_stream[of s r C 0 xs] assms by simp

definition demo_crypto :: crypto where
  "demo_crypto = \<lparr>nas_mac = (\<lambda>k c b d xs i. c + of_nat (length xs)),
     nas_cipher = (\<lambda>k c b d xs i. map (\<lambda>x. x XOR ucast c) xs)\<rparr>"

lemma demo_crypto_stream: "stream_cipher demo_crypto"
  by (simp add: stream_cipher_def demo_crypto_def comp_def xor.assoc)

theorem srb_lossy_delivery_witness:
  "run_link (srb_protect demo_crypto) (srb_unprotect demo_crypto)
     (activate_ciphering (srb_new Gnb 1) [1] 2) (activate_ciphering (srb_new Ue 1) [1] 2)
     [([1], True), ([2], False), ([3], True)] = [Inr [1], Inr [3]]"
  using srb_lossy_delivery[OF linked_activate(2)[OF linked_new(1)] demo_crypto_stream,
      of 1 "[1]" 2 "[([1], True), ([2], False), ([3], True)]"]
  by (simp add: srb_new_def bearer_new_def activate_ciphering_def)

text \<open>The same for data bearers, whose 18-bit sequence numbers tolerate up to 131071
  consecutive losses.\<close>

theorem drb_lossy_delivery:
  assumes "linked 18 s r" "stream_cipher C" "tx_count s = rx_count r" "losses_below 131072 0 xs"
  shows "run_link (drb_protect C) (drb_unprotect C) s r xs = map (\<lambda>x. Inr (fst x)) (filter snd xs)"
  using drb.lossy_stream[of s r C 0 xs] assms by simp

theorem drb_lossy_delivery_witness:
  "run_link (drb_protect demo_crypto) (drb_unprotect demo_crypto)
     (activate_integrity (drb_new Ue 3) [7] 2) (activate_integrity (drb_new Gnb 3) [7] 2)
     [([1], False), ([2, 5], True)] = [Inr [2, 5]]"
  using drb_lossy_delivery[OF linked_activate(1)[OF linked_new(4)] demo_crypto_stream,
      of 3 "[7]" 2 "[([1], False), ([2, 5], True)]"]
  by (simp add: drb_new_def bearer_new_def activate_integrity_def)

text \<open>What a verified reception is: refused without any effect, or accepted with the MAC-I of
  the deciphered body computed over the clear header and exactly the SDU handed up.\<close>

definition verified_reception ::
    "crypto \<Rightarrow> Bearer \<Rightarrow> Algo \<Rightarrow> nat \<Rightarrow> u32 \<Rightarrow> bytes \<Rightarrow> (PdcpError + bytes) \<times> Bearer \<Rightarrow> bool" where
  "verified_reception C b a hlen sn pdu out =
     (case out of
        (Inl e, b') \<Rightarrow> b' = b
      | (Inr sdu, b') \<Rightarrow>
          (let count = rx_count_for b sn;
               mac = nas_mac C (algo_key a) count (bearer b) (rx_direction b) (take hlen pdu @ sdu) (algo_id a);
               clear = (case ciphering b of
                  Some c \<Rightarrow> nas_cipher C (algo_key c) count (bearer b) (rx_direction b) (drop hlen pdu) (algo_id c)
                | None \<Rightarrow> drop hlen pdu)
           in b' = b\<lparr>rx_count := count + 1\<rparr> \<and> clear = sdu @ to_be 4 mac))"

text \<open>C24: integrity. With integrity active, each entity accepts a PDU only if the MAC-I carried by
  the deciphered PDU is the one computed over the clear header and exactly the SDU that is
  handed up, at the reconstructed COUNT, for this bearer and direction; a refused PDU, for
  whatever reason, leaves the entity unchanged.\<close>

theorem pdcp_integrity:
  assumes "integrity b = Some a"
  shows "verified_reception C b a 2 (srb_sn pdu) pdu (srb_unprotect C b pdu)
       \<and> verified_reception C b a 3 (drb_sn pdu) pdu (drb_unprotect C b pdu)"
proof -
  have "verified_reception C b a 2 (srb_sn pdu) pdu (res, b')"
    if "srb_unprotect C b pdu = (res, b')" for res b'
    using that assms srb.refused[of C b pdu] srb.accepted[of C b pdu _ _ a]
    by (cases res) (force simp: verified_reception_def Let_def)+
  moreover have "verified_reception C b a 3 (drb_sn pdu) pdu (res, b')"
    if "drb_unprotect C b pdu = (res, b')" for res b'
    using that assms drb.refused[of C b pdu] drb.accepted[of C b pdu _ _ a]
    by (cases res) (force simp: verified_reception_def Let_def)+
  ultimately show ?thesis by (metis surj_pair)
qed

theorem pdcp_integrity_witness:
  "verified_reception demo_crypto (activate_integrity (srb_new Ue 1) [1] 2) \<lparr>algo_key = [1], algo_id = 2\<rparr> 2
     (srb_sn [0, 0, 9, 0, 0, 0, 3]) [0, 0, 9, 0, 0, 0, 3]
     (srb_unprotect demo_crypto (activate_integrity (srb_new Ue 1) [1] 2) [0, 0, 9, 0, 0, 0, 3])"
  using pdcp_integrity[of "activate_integrity (srb_new Ue 1) [1] 2"]
  by (simp add: activate_integrity_def)

end
