(* ===== verification/Aka.thy ===== *)
theory Aka
  imports Prelude
begin

section \<open>5G-AKA: vectors, verification and resynchronisation\<close>

text \<open>
  \<open>crates/aka/src/lib.rs\<close>: the home network's authentication vector, the UE side that verifies
  it, the key chain and the resynchronisation token. MILENAGE and the key-derivation functions
  come from third-party crates; they are the fields of the record \<open>aka_lib\<close>, an argument of
  every operation that calls them. \<open>compute_res_star\<close> is given the CK and IK that the
  preceding \<open>f2345\<close> call computed, which is what the MILENAGE object carries between the two calls.
\<close>

record aka_lib =
  mil_f1 :: "bytes \<Rightarrow> bytes \<Rightarrow> bytes \<Rightarrow> bytes \<Rightarrow> bytes \<Rightarrow> bytes"
  mil_f2345 :: "bytes \<Rightarrow> bytes \<Rightarrow> bytes \<Rightarrow> bytes \<times> bytes \<times> bytes \<times> bytes"
  mil_f1star :: "bytes \<Rightarrow> bytes \<Rightarrow> bytes \<Rightarrow> bytes \<Rightarrow> bytes \<Rightarrow> bytes"
  mil_f5star :: "bytes \<Rightarrow> bytes \<Rightarrow> bytes \<Rightarrow> bytes"
  mil_res_star :: "bytes \<Rightarrow> bytes \<Rightarrow> string \<Rightarrow> string \<Rightarrow> bytes \<Rightarrow> bytes \<Rightarrow> string + bytes"
  kdf_hres_star :: "bytes \<Rightarrow> bytes \<Rightarrow> bytes"
  kdf_kausf :: "bytes \<Rightarrow> bytes \<Rightarrow> string \<Rightarrow> bytes \<Rightarrow> u8 \<Rightarrow> bytes"
  kdf_kseaf :: "bytes \<Rightarrow> string \<Rightarrow> bytes"
  kdf_kamf :: "bytes \<Rightarrow> string \<Rightarrow> bytes \<Rightarrow> bytes"
  kdf_nas_key :: "bytes \<Rightarrow> u8 \<Rightarrow> u8 \<Rightarrow> bytes"
  kdf_extract_128 :: "bytes \<Rightarrow> bytes"
  kdf_kgnb :: "bytes \<Rightarrow> u32 \<Rightarrow> bytes"
  kdf_nh :: "bytes \<Rightarrow> bytes \<Rightarrow> bytes"

datatype AkaError = Milenage string | AuthFailure string

record SubscriberKey =
  sk_k :: bytes
  sk_opc :: bytes
  sk_amf :: bytes

record AuthVector =
  av_rand :: bytes
  av_autn :: bytes
  av_xres_star :: bytes
  av_kausf :: bytes

definition KAUSF_FC :: u8 where "KAUSF_FC = 0x6A"

definition serving_network_name :: "string \<Rightarrow> string \<Rightarrow> string" where
  "serving_network_name mcc mnc =
     (let mnc3 = (if length mnc = 2 then ''0'' @ mnc else mnc)
      in ''5G:mnc'' @ mnc3 @ ''.mcc'' @ mcc @ ''.3gppnetwork.org'')"

definition xor6 :: "bytes \<Rightarrow> bytes \<Rightarrow> bytes" where
  "xor6 a b = map (\<lambda>i. a ! i XOR b ! i) [0..<6]"

definition assemble_autn :: "bytes \<Rightarrow> bytes \<Rightarrow> bytes \<Rightarrow> bytes \<Rightarrow> bytes" where
  "assemble_autn sqn ak amf mac_a = xor6 sqn ak @ amf @ mac_a"

definition generate_5g_he_av ::
    "aka_lib \<Rightarrow> SubscriberKey \<Rightarrow> bytes \<Rightarrow> bytes \<Rightarrow> string \<Rightarrow> string \<Rightarrow> AkaError + AuthVector" where
  "generate_5g_he_av L sub sqn rand mcc mnc =
     (let mac_a = mil_f1 L (sk_k sub) (sk_opc sub) rand sqn (sk_amf sub);
          (res, ck, ik, ak) = mil_f2345 L (sk_k sub) (sk_opc sub) rand;
          autn = assemble_autn sqn ak (sk_amf sub) mac_a
      in case mil_res_star L ck ik mcc mnc rand res of
           Inl e \<Rightarrow> Inl (Milenage e)
         | Inr xres_star \<Rightarrow>
             Inr \<lparr>av_rand = rand, av_autn = autn, av_xres_star = xres_star,
                  av_kausf = kdf_kausf L ck ik (serving_network_name mcc mnc) (xor6 sqn ak) KAUSF_FC\<rparr>)"

definition hxres_star :: "aka_lib \<Rightarrow> bytes \<Rightarrow> bytes \<Rightarrow> bytes" where
  "hxres_star L rand xres_star = kdf_hres_star L rand xres_star"

definition kseaf :: "aka_lib \<Rightarrow> bytes \<Rightarrow> string \<Rightarrow> string \<Rightarrow> bytes" where
  "kseaf L kausf mcc mnc = kdf_kseaf L kausf (serving_network_name mcc mnc)"

definition strip_imsi :: "string \<Rightarrow> string" where
  "strip_imsi supi = (if take 5 supi = ''imsi-'' then drop 5 supi else supi)"

definition kamf :: "aka_lib \<Rightarrow> bytes \<Rightarrow> string \<Rightarrow> bytes \<Rightarrow> bytes" where
  "kamf L ks supi abba = kdf_kamf L ks (strip_imsi supi) abba"

record NasKeys =
  knas_int :: bytes
  knas_enc :: bytes

definition nas_keys :: "aka_lib \<Rightarrow> bytes \<Rightarrow> u8 \<Rightarrow> u8 \<Rightarrow> NasKeys" where
  "nas_keys L ka nea nia =
     \<lparr>knas_int = kdf_extract_128 L (kdf_nas_key L ka 0x02 nia),
      knas_enc = kdf_extract_128 L (kdf_nas_key L ka 0x01 nea)\<rparr>"

record RrcKeys =
  krrc_int :: bytes
  krrc_enc :: bytes

definition rrc_keys :: "aka_lib \<Rightarrow> bytes \<Rightarrow> u8 \<Rightarrow> u8 \<Rightarrow> RrcKeys" where
  "rrc_keys L kg nea nia =
     \<lparr>krrc_int = kdf_extract_128 L (kdf_nas_key L kg 0x04 nia),
      krrc_enc = kdf_extract_128 L (kdf_nas_key L kg 0x03 nea)\<rparr>"

record UpKeys =
  kup_int :: bytes
  kup_enc :: bytes

definition up_keys :: "aka_lib \<Rightarrow> bytes \<Rightarrow> u8 \<Rightarrow> u8 \<Rightarrow> UpKeys" where
  "up_keys L kg nea nia =
     \<lparr>kup_int = kdf_extract_128 L (kdf_nas_key L kg 0x06 nia),
      kup_enc = kdf_extract_128 L (kdf_nas_key L kg 0x05 nea)\<rparr>"

definition kgnb :: "aka_lib \<Rightarrow> bytes \<Rightarrow> u32 \<Rightarrow> bytes" where
  "kgnb L ka ul_nas_count = kdf_kgnb L ka ul_nas_count"

definition nh :: "aka_lib \<Rightarrow> bytes \<Rightarrow> bytes \<Rightarrow> bytes" where
  "nh L ka sync_input = kdf_nh L ka sync_input"

definition RESYNC_AMF :: bytes where "RESYNC_AMF = [0x00, 0x00]"

definition compute_auts :: "aka_lib \<Rightarrow> SubscriberKey \<Rightarrow> bytes \<Rightarrow> bytes \<Rightarrow> bytes" where
  "compute_auts L sub rand sqn_ms =
     (let mac_s = mil_f1star L (sk_k sub) (sk_opc sub) rand sqn_ms RESYNC_AMF;
          ak_star = mil_f5star L (sk_k sub) (sk_opc sub) rand
      in xor6 sqn_ms ak_star @ mac_s)"

definition sqn_ms_from_auts :: "aka_lib \<Rightarrow> SubscriberKey \<Rightarrow> bytes \<Rightarrow> bytes \<Rightarrow> bytes option" where
  "sqn_ms_from_auts L sub rand auts =
     (let ak_star = mil_f5star L (sk_k sub) (sk_opc sub) rand;
          sqn_ms = xor6 (take 6 auts) ak_star;
          mac_s = mil_f1star L (sk_k sub) (sk_opc sub) rand sqn_ms RESYNC_AMF
      in if mac_s = drop 6 auts then Some sqn_ms else None)"

definition ue_recover_sqn :: "aka_lib \<Rightarrow> SubscriberKey \<Rightarrow> bytes \<Rightarrow> bytes \<Rightarrow> bytes option" where
  "ue_recover_sqn L sub rand autn =
     (let (res, ck, ik, ak) = mil_f2345 L (sk_k sub) (sk_opc sub) rand;
          sqn = xor6 (take 6 autn) ak;
          amf = subslice 6 8 autn;
          mac_a = mil_f1 L (sk_k sub) (sk_opc sub) rand sqn amf
      in if mac_a = subslice 8 16 autn then Some sqn else None)"

definition ue_compute_res_star ::
    "aka_lib \<Rightarrow> SubscriberKey \<Rightarrow> bytes \<Rightarrow> bytes \<Rightarrow> string \<Rightarrow> string \<Rightarrow> AkaError + bytes" where
  "ue_compute_res_star L sub rand autn mcc mnc =
     (let (res, ck, ik, ak) = mil_f2345 L (sk_k sub) (sk_opc sub) rand;
          sqn = xor6 (take 6 autn) ak;
          amf = subslice 6 8 autn;
          mac_a = mil_f1 L (sk_k sub) (sk_opc sub) rand sqn amf
      in if mac_a \<noteq> subslice 8 16 autn then Inl (AuthFailure ''AUTN MAC mismatch'')
         else case mil_res_star L ck ik mcc mnc rand res of Inl e \<Rightarrow> Inl (Milenage e) | Inr r \<Rightarrow> Inr r)"

definition ue_authenticate ::
    "aka_lib \<Rightarrow> SubscriberKey \<Rightarrow> bytes \<Rightarrow> bytes \<Rightarrow> string \<Rightarrow> string \<Rightarrow> AkaError + (bytes \<times> bytes)" where
  "ue_authenticate L sub rand autn mcc mnc =
     (case ue_compute_res_star L sub rand autn mcc mnc of
        Inl e \<Rightarrow> Inl e
      | Inr res_star \<Rightarrow>
          (let (res, ck, ik, ak) = mil_f2345 L (sk_k sub) (sk_opc sub) rand;
               sqn = xor6 (take 6 autn) ak
           in case generate_5g_he_av L sub sqn rand mcc mnc of
                Inl e \<Rightarrow> Inl e
              | Inr av \<Rightarrow> Inr (res_star, av_kausf av)))"

subsection \<open>Lemmas\<close>

text \<open>The array sizes the Rust types fix.\<close>

definition sized_lib :: "aka_lib \<Rightarrow> bool" where
  "sized_lib L \<longleftrightarrow> (\<forall>k c r s a. length (mil_f1 L k c r s a) = 8 \<and> length (mil_f1star L k c r s a) = 8)"

lemma length_xor6 [simp]: "length (xor6 a b) = 6"
  by (simp add: xor6_def)

lemma xor6_xor6: "length a = 6 \<Longrightarrow> xor6 (xor6 a b) b = a"
  by (rule nth_equalityI) (simp_all add: xor6_def xor.assoc)

lemma autn_parts:
  assumes "length amf = 2" "length mac = 8"
  shows "take 6 (assemble_autn sqn ak amf mac) = xor6 sqn ak"
    "subslice 6 8 (assemble_autn sqn ak amf mac) = amf"
    "subslice 8 16 (assemble_autn sqn ak amf mac) = mac"
  using assms by (simp_all add: assemble_autn_def subslice_def)

lemma generate_parts:
  assumes "generate_5g_he_av L sub sqn rand mcc mnc = Inr av"
    and "mil_f2345 L (sk_k sub) (sk_opc sub) rand = (res, ck, ik, ak)"
  shows "mil_res_star L ck ik mcc mnc rand res = Inr (av_xres_star av)"
    "av_autn av = assemble_autn sqn ak (sk_amf sub) (mil_f1 L (sk_k sub) (sk_opc sub) rand sqn (sk_amf sub))"
    "av_kausf av = kdf_kausf L ck ik (serving_network_name mcc mnc) (xor6 sqn ak) KAUSF_FC"
  using assms by (auto simp: generate_5g_he_av_def Let_def split: sum.splits)

text \<open>C11: agreement of network and UE. Whenever the home network generates a vector for a
  subscriber, the same subscriber's UE accepts its AUTN, recovers the SQN the network used,
  answers with the RES* the network expects (so the HXRES* of both ends agree) and derives the
  same K_AUSF, hence the same K_SEAF.\<close>

theorem aka_agreement:
  assumes "sized_lib L" "length sqn = 6" "length (sk_amf sub) = 2"
    and "generate_5g_he_av L sub sqn rand mcc mnc = Inr av"
  shows "ue_authenticate L sub rand (av_autn av) mcc mnc = Inr (av_xres_star av, av_kausf av)
    \<and> ue_recover_sqn L sub rand (av_autn av) = Some sqn
    \<and> (\<forall>res_star kausf. ue_authenticate L sub rand (av_autn av) mcc mnc = Inr (res_star, kausf) \<longrightarrow>
        hxres_star L rand res_star = hxres_star L rand (av_xres_star av)
        \<and> kseaf L kausf mcc mnc = kseaf L (av_kausf av) mcc mnc)"
proof -
  obtain res ck ik ak where f: "mil_f2345 L (sk_k sub) (sk_opc sub) rand = (res, ck, ik, ak)"
    by (cases "mil_f2345 L (sk_k sub) (sk_opc sub) rand") auto
  note g = generate_parts[OF assms(4) f]
  note p = autn_parts[OF assms(3), of "mil_f1 L (sk_k sub) (sk_opc sub) rand sqn (sk_amf sub)" sqn ak]
  have mac: "length (mil_f1 L (sk_k sub) (sk_opc sub) rand sqn (sk_amf sub)) = 8"
    using assms(1) by (simp add: sized_lib_def)
  have "ue_authenticate L sub rand (av_autn av) mcc mnc = Inr (av_xres_star av, av_kausf av)"
    using assms(2,4) f g p[OF mac] by (simp add: ue_authenticate_def ue_compute_res_star_def xor6_xor6)
  moreover have "ue_recover_sqn L sub rand (av_autn av) = Some sqn"
    using assms(2) f g(2) p[OF mac] by (simp add: ue_recover_sqn_def xor6_xor6)
  ultimately show ?thesis by simp
qed

definition demo_lib :: aka_lib where
  "demo_lib = \<lparr>mil_f1 = (\<lambda>k c r s a. take 8 (s @ a)  @ replicate (8 - length (s @ a)) 0),
     mil_f2345 = (\<lambda>k c r. (r, k, c, [1, 2, 3, 4, 5, 6])),
     mil_f1star = (\<lambda>k c r s a. take 8 (s @ a) @ replicate (8 - length (s @ a)) 0),
     mil_f5star = (\<lambda>k c r. [6, 5, 4, 3, 2, 1]), mil_res_star = (\<lambda>ck ik mcc mnc r res. Inr (r @ res)),
     kdf_hres_star = (\<lambda>r x. r @ x), kdf_kausf = (\<lambda>ck ik n s fc. ck @ ik @ s),
     kdf_kseaf = (\<lambda>k n. k), kdf_kamf = (\<lambda>k d a. k @ a), kdf_nas_key = (\<lambda>k t i. k @ [t, i]),
     kdf_extract_128 = (\<lambda>k. take 16 k), kdf_kgnb = (\<lambda>k c. k), kdf_nh = (\<lambda>k s. k @ s)\<rparr>"

lemma demo_lib_sized: "sized_lib demo_lib"
  by (auto simp: sized_lib_def demo_lib_def min_def)

theorem aka_agreement_witness:
  "ue_recover_sqn demo_lib \<lparr>sk_k = [1], sk_opc = [2], sk_amf = [128, 0]\<rparr> [9]
     (assemble_autn [0, 0, 0, 0, 1, 2] [1, 2, 3, 4, 5, 6] [128, 0] [0, 0, 0, 0, 1, 2, 128, 0])
   = Some [0, 0, 0, 0, 1, 2]"
proof -
  let ?sub = "\<lparr>sk_k = [1], sk_opc = [2], sk_amf = [128, 0]\<rparr>"
  let ?av = "\<lparr>av_rand = [9], av_autn = assemble_autn [0, 0, 0, 0, 1, 2] [1, 2, 3, 4, 5, 6] [128, 0]
      [0, 0, 0, 0, 1, 2, 128, 0], av_xres_star = [9, 9],
      av_kausf = [1, 2] @ xor6 [0, 0, 0, 0, 1, 2] [1, 2, 3, 4, 5, 6]\<rparr>"
  have "generate_5g_he_av demo_lib ?sub [0, 0, 0, 0, 1, 2] [9] ''001'' ''01'' = Inr ?av"
    by (simp add: generate_5g_he_av_def demo_lib_def)
  from aka_agreement[OF demo_lib_sized _ _ this] show ?thesis by simp
qed

text \<open>Resynchronisation. The AUTS a USIM builds for its SQN yields that SQN at the home
  network; and whatever AUTS the network accepts carries the MAC-S of the SQN it extracts, so
  no other value of the last eight octets is accepted for these first six.\<close>

theorem auts_roundtrip_and_soundness:
  assumes "length sqn_ms = 6"
  shows "sqn_ms_from_auts L sub rand (compute_auts L sub rand sqn_ms) = Some sqn_ms
    \<and> (sqn_ms_from_auts L sub rand auts = Some sqn \<longrightarrow>
        drop 6 auts = mil_f1star L (sk_k sub) (sk_opc sub) rand sqn RESYNC_AMF
        \<and> sqn = xor6 (take 6 auts) (mil_f5star L (sk_k sub) (sk_opc sub) rand))"
  using assms
  by (auto simp: sqn_ms_from_auts_def compute_auts_def Let_def xor6_xor6 split: if_splits)

theorem auts_roundtrip_and_soundness_witness:
  "sqn_ms_from_auts demo_lib \<lparr>sk_k = [1], sk_opc = [2], sk_amf = [128, 0]\<rparr> [9]
     (compute_auts demo_lib \<lparr>sk_k = [1], sk_opc = [2], sk_amf = [128, 0]\<rparr> [9] [255, 1, 2, 3, 4, 5])
   = Some [255, 1, 2, 3, 4, 5]"
  using auts_roundtrip_and_soundness[of "[255, 1, 2, 3, 4, 5]" demo_lib] by simp

text \<open>No answer without a verified challenge. The UE returns a result only if the MAC-A of the
  AUTN verifies for the SQN and AMF it carries; otherwise the outcome is the authentication
  failure, before any response is computed.\<close>

theorem ue_rejects_bad_autn:
  assumes "mil_f2345 L (sk_k sub) (sk_opc sub) rand = (res, ck, ik, ak)"
    and "mil_f1 L (sk_k sub) (sk_opc sub) rand (xor6 (take 6 autn) ak) (subslice 6 8 autn) \<noteq> subslice 8 16 autn"
  shows "ue_authenticate L sub rand autn mcc mnc = Inl (AuthFailure ''AUTN MAC mismatch'')
    \<and> ue_compute_res_star L sub rand autn mcc mnc = Inl (AuthFailure ''AUTN MAC mismatch'')
    \<and> ue_recover_sqn L sub rand autn = None"
  using assms by (simp add: ue_authenticate_def ue_compute_res_star_def ue_recover_sqn_def)

theorem ue_rejects_bad_autn_witness:
  "ue_authenticate demo_lib \<lparr>sk_k = [1], sk_opc = [2], sk_amf = [128, 0]\<rparr> [9] (replicate 16 7) ''001'' ''01''
   = Inl (AuthFailure ''AUTN MAC mismatch'')"
proof -
  let ?sub = "\<lparr>sk_k = [1], sk_opc = [2], sk_amf = [128, 0]\<rparr>"
  have f: "mil_f2345 demo_lib (sk_k ?sub) (sk_opc ?sub) [9] = ([9], [1], [2], [1, 2, 3, 4, 5, 6])"
    by (simp add: demo_lib_def)
  have "mil_f1 demo_lib (sk_k ?sub) (sk_opc ?sub) [9] (xor6 (take 6 (replicate 16 7)) [1, 2, 3, 4, 5, 6])
      (subslice 6 8 (replicate 16 7)) \<noteq> subslice 8 16 (replicate 16 7)"
    by (simp add: demo_lib_def xor6_def subslice_def numeral_eq_Suc)
  from ue_rejects_bad_autn[OF f this] show ?thesis by blast
qed

end
