(* ===== verification/Smf_Topology.thy ===== *)
theory Smf_Topology
  imports Pfcp_Classifier
begin

section \<open>User-plane topology and path selection\<close>

text \<open>
  \<open>nf/nf-smf/src/topology.rs\<close>: the graph of user-plane nodes, its validation, and the breadth-first
  search that selects the chain of UPFs a data network is reached by. A \<open>BTreeMap\<close> is the list of
  its entries in key order. Decoding the JSON text is left to the library that does it; \<open>validate\<close>
  starts from the decoded value.
\<close>

subsection \<open>The topology\<close>

datatype NodeKind = An | Upf

record UpNode =
  un_kind :: NodeKind
  un_n4 :: "(ip_addr \<times> u16) option"
  un_dnns :: "string list"
  un_dnai :: "string option"

record Link =
  ln_a :: string
  ln_b :: string

record Route =
  rt_dnn :: string
  rt_prefix :: string
  rt_via :: string

record Topology =
  up_nodes :: "(string \<times> UpNode) list"
  links :: "Link list"
  routes :: "Route list"

datatype topology_error =
    NoAnNode
  | NoN4Address string
  | AnAnchorsDnns string
  | UnknownLinkNode string
  | UnknownRouteUpf string string
  | InvalidRoutePrefix string string

subsection \<open>Validation\<close>

definition valid_cidr :: "string \<Rightarrow> bool" where
  "valid_cidr s = (case split_once CHR ''/'' s of
     None \<Rightarrow> False
   | Some (addr, len) \<Rightarrow> (case (parse_ip addr, parse_word len :: u8 option) of
       (Some (IpV4 _), Some l) \<Rightarrow> l \<le> 32
     | (Some (IpV6 _), Some l) \<Rightarrow> l \<le> 128
     | _ \<Rightarrow> False))"

text \<open>The first error of a list of checks, in order.\<close>

fun first_error :: "('a \<Rightarrow> 'e option) \<Rightarrow> 'a list \<Rightarrow> 'e option" where
  "first_error f [] = None"
| "first_error f (x # xs) = (case f x of Some e \<Rightarrow> Some e | None \<Rightarrow> first_error f xs)"

lemma first_error_None: "first_error f xs = None \<longleftrightarrow> (\<forall>x\<in>set xs. f x = None)"
  by (induction xs) (auto split: option.splits)

definition node_error :: "string \<times> UpNode \<Rightarrow> topology_error option" where
  "node_error e = (case e of (name, node) \<Rightarrow>
     if un_kind node = Upf then (if un_n4 node \<noteq> None then None else Some (NoN4Address name))
     else (if un_dnns node = [] then None else Some (AnAnchorsDnns name)))"

definition link_error :: "Topology \<Rightarrow> Link \<Rightarrow> topology_error option" where
  "link_error t l = first_error (\<lambda>e. if map_of (up_nodes t) e \<noteq> None then None else Some (UnknownLinkNode e)) [ln_a l, ln_b l]"

definition route_error :: "Topology \<Rightarrow> Route \<Rightarrow> topology_error option" where
  "route_error t r =
    (if \<not> (case map_of (up_nodes t) (rt_via r) of None \<Rightarrow> False | Some n \<Rightarrow> un_kind n = Upf)
     then Some (UnknownRouteUpf (rt_dnn r) (rt_via r))
     else if \<not> valid_cidr (rt_prefix r) then Some (InvalidRoutePrefix (rt_dnn r) (rt_prefix r))
     else None)"

definition validate :: "Topology \<Rightarrow> topology_error + unit" where
  "validate t =
    (if \<not> list_ex (\<lambda>(_, n). un_kind n = An) (up_nodes t) then Inl NoAnNode
     else case first_error node_error (up_nodes t) of Some e \<Rightarrow> Inl e
     | None \<Rightarrow> (case first_error (link_error t) (links t) of Some e \<Rightarrow> Inl e
     | None \<Rightarrow> (case first_error (route_error t) (routes t) of Some e \<Rightarrow> Inl e
     | None \<Rightarrow> Inr ())))"

subsection \<open>Look-ups\<close>

definition breakout_for_dnn :: "Topology \<Rightarrow> string \<Rightarrow> Route option" where
  "breakout_for_dnn t dnn = find (\<lambda>r. rt_dnn r = dnn) (routes t)"

definition node_for_dnai :: "Topology \<Rightarrow> string \<Rightarrow> string option" where
  "node_for_dnai t dnai = map_option fst (find (\<lambda>(_, n). un_dnai n = Some dnai) (up_nodes t))"

definition an_node :: "Topology \<Rightarrow> string option" where
  "an_node t = map_option fst (find (\<lambda>(_, n). un_kind n = An) (up_nodes t))"

text \<open>The neighbours of a node in the order the links are listed, both directions.\<close>

definition adjacency :: "Topology \<Rightarrow> string \<Rightarrow> string list" where
  "adjacency t node = concat (map (\<lambda>l. (if ln_a l = node then [ln_b l] else []) @ (if ln_b l = node then [ln_a l] else [])) (links t))"

definition anchors :: "Topology \<Rightarrow> string \<Rightarrow> string \<Rightarrow> bool" where
  "anchors t dnn node = (case map_of (up_nodes t) node of None \<Rightarrow> False | Some n \<Rightarrow> dnn \<in> set (un_dnns n))"

subsection \<open>The search\<close>

text \<open>The state of the search: predecessors, visited nodes and the queue. \<open>visit\<close> is the body of the
  loop over the neighbours.\<close>

record search =
  prev :: "string \<Rightarrow> string option"
  seen :: "string list"
  queue :: "string list"

definition visit :: "string \<Rightarrow> search \<Rightarrow> string \<Rightarrow> search" where
  "visit node s next =
    (if next \<in> set (seen s) then s
     else \<lparr>prev = (prev s)(next \<mapsto> node), seen = next # seen s, queue = queue s @ [next]\<rparr>)"

definition expand :: "Topology \<Rightarrow> string \<Rightarrow> search \<Rightarrow> search" where
  "expand t node s = foldl (visit node) s (adjacency t node)"

text \<open>The walk back along the predecessors. It is a partial function: that it returns is a property of
  the predecessors the search records. \<open>None\<close> is divergence.\<close>

partial_function (option) unwind :: "(string \<Rightarrow> string option) \<Rightarrow> string \<Rightarrow> string \<Rightarrow> string list \<Rightarrow> string list option" where
  "unwind pr source cur chain = (case pr cur of
     None \<Rightarrow> Some (rev chain)
   | Some p \<Rightarrow> if p = source then Some (rev chain) else unwind pr source p (chain @ [p]))"

definition link_ends :: "Topology \<Rightarrow> string set" where
  "link_ends t = ln_a ` set (links t) \<union> ln_b ` set (links t)"

lemma finite_link_ends [simp]: "finite (link_ends t)"
  by (simp add: link_ends_def)

lemma adjacency_ends: "set (adjacency t node) \<subseteq> link_ends t"
  by (auto simp: adjacency_def link_ends_def)

text \<open>What the loop over the neighbours does: the unseen ones, each once, are marked, queued and given
  the node as predecessor.\<close>

lemma visit_all:
  "\<exists>news. distinct news \<and> set news = set ns - set (seen s)
     \<and> foldl (visit node) s ns = \<lparr>prev = (\<lambda>v. if v \<in> set news then Some node else prev s v),
          seen = rev news @ seen s, queue = queue s @ news\<rparr>"
proof (induction ns arbitrary: s)
  case Nil
  then show ?case by simp
next
  case (Cons n ns)
  show ?case
  proof (cases "n \<in> set (seen s)")
    case True
    then show ?thesis using Cons.IH[of s] by (simp add: visit_def insert_Diff_if)
  next
    case False
    let ?s = "visit node s n"
    from Cons.IH[of ?s] obtain news where n: "distinct news" "set news = set ns - set (seen ?s)"
      "foldl (visit node) ?s ns = \<lparr>prev = (\<lambda>v. if v \<in> set news then Some node else prev ?s v),
         seen = rev news @ seen ?s, queue = queue ?s @ news\<rparr>" by blast
    have "foldl (visit node) s (n # ns) = \<lparr>prev = (\<lambda>v. if v \<in> set (n # news) then Some node else prev s v),
         seen = rev (n # news) @ seen s, queue = queue s @ n # news\<rparr>"
      using n(3) False by (auto simp: visit_def fun_eq_iff)
    moreover have "distinct (n # news)" "set (n # news) = set (n # ns) - set (seen s)"
      using n(1,2) False by (auto simp: visit_def)
    ultimately show ?thesis by blast
  qed
qed

lemma expand_spec:
  obtains news where "distinct news" "set news = set (adjacency t node) - set (seen s)"
    "expand t node s = \<lparr>prev = (\<lambda>v. if v \<in> set news then Some node else prev s v),
       seen = rev news @ seen s, queue = queue s @ news\<rparr>"
  using visit_all[of "adjacency t node" s node] by (auto simp: expand_def)

lemma expand_measure:
  "card (link_ends t - set (seen (expand t node s))) + length (queue (expand t node s))
   = card (link_ends t - set (seen s)) + length (queue s)"
proof -
  obtain news where n: "distinct news" "set news = set (adjacency t node) - set (seen s)"
    "expand t node s = \<lparr>prev = (\<lambda>v. if v \<in> set news then Some node else prev s v),
       seen = rev news @ seen s, queue = queue s @ news\<rparr>" by (rule expand_spec)
  have sub: "set news \<subseteq> link_ends t - set (seen s)" using n(2) adjacency_ends[of t node] by auto
  have "link_ends t - (set news \<union> set (seen s)) = (link_ends t - set (seen s)) - set news" by auto
  moreover have "card ((link_ends t - set (seen s)) - set news) = card (link_ends t - set (seen s)) - card (set news)"
    using sub by (intro card_Diff_subset) auto
  moreover have "card (set news) \<le> card (link_ends t - set (seen s))"
    using sub by (intro card_mono) auto
  ultimately show ?thesis using n(1,3) by (simp add: distinct_card)
qed

text \<open>The search itself. The inner option is the result of \<open>path_for_dnn\<close>.\<close>

function search_loop :: "Topology \<Rightarrow> string \<Rightarrow> string \<Rightarrow> search \<Rightarrow> string list option option" where
  "search_loop t dnn source s = (case queue s of
     [] \<Rightarrow> Some None
   | node # rest \<Rightarrow>
       if node \<noteq> source \<and> anchors t dnn node then map_option Some (unwind (prev s) source node [node])
       else search_loop t dnn source (expand t node (s\<lparr>queue := rest\<rparr>)))"
  by pat_completeness auto
termination
  by (relation "measure (\<lambda>(t, dnn, source, s). card (link_ends t - set (seen s)) + length (queue s))")
    (auto simp: expand_measure)

declare search_loop.simps [simp del]

definition path_for_dnn :: "Topology \<Rightarrow> string \<Rightarrow> string list option option" where
  "path_for_dnn t dnn = (case an_node t of
     None \<Rightarrow> Some None
   | Some source \<Rightarrow> search_loop t dnn source \<lparr>prev = Map.empty, seen = [source], queue = [source]\<rparr>)"

subsection \<open>Correctness of the search\<close>

definition edge :: "Topology \<Rightarrow> string \<Rightarrow> string \<Rightarrow> bool" where
  "edge t u v = (v \<in> set (adjacency t u))"

lemma edge_sym: "edge t u v \<longleftrightarrow> edge t v u"
  by (auto simp: edge_def adjacency_def)

text \<open>\<open>leads t u xs\<close>: the nodes \<open>xs\<close> follow one another along links, starting next to \<open>u\<close>.\<close>

fun leads :: "Topology \<Rightarrow> string \<Rightarrow> string list \<Rightarrow> bool" where
  "leads t u [] = True"
| "leads t u (x # xs) = (edge t u x \<and> leads t x xs)"

lemma leads_snoc: "leads t u (xs @ [y]) \<longleftrightarrow> leads t u xs \<and> edge t (last (u # xs)) y"
  by (induction xs arbitrary: u) auto

text \<open>The invariant, with the depth \<open>d\<close> of every visited node: visited nodes have a visited
  predecessor one level up; the queue is sorted by depth and spans at most two levels; nodes taken
  off the queue are no deeper, do not anchor the network, and have all their neighbours visited.\<close>

definition search_inv :: "Topology \<Rightarrow> string \<Rightarrow> string \<Rightarrow> search \<Rightarrow> (string \<Rightarrow> nat) \<Rightarrow> bool" where
  "search_inv t dnn src s d =
    (src \<in> set (seen s) \<and> d src = 0
     \<and> (\<forall>v\<in>set (seen s). v \<noteq> src \<longrightarrow> (\<exists>u\<in>set (seen s). prev s v = Some u \<and> edge t u v \<and> d v = Suc (d u)))
     \<and> set (queue s) \<subseteq> set (seen s) \<and> sorted (map d (queue s))
     \<and> (\<forall>x\<in>set (queue s). \<forall>y\<in>set (queue s). d y \<le> Suc (d x))
     \<and> (\<forall>u\<in>set (seen s) - set (queue s). (\<forall>w. edge t u w \<longrightarrow> w \<in> set (seen s) \<and> d w \<le> Suc (d u))
          \<and> (\<forall>q\<in>set (queue s). d u \<le> d q) \<and> (u = src \<or> \<not> anchors t dnn u)))"

lemma search_inv_start: "search_inv t dnn src \<lparr>prev = Map.empty, seen = [src], queue = [src]\<rparr> (\<lambda>_. 0)"
  by (simp add: search_inv_def)

lemma search_inv_expand:
  assumes inv: "search_inv t dnn src s d" and q: "queue s = node # rest"
    and no: "node = src \<or> \<not> anchors t dnn node"
  shows "\<exists>d'. search_inv t dnn src (expand t node (s\<lparr>queue := rest\<rparr>)) d'"
proof -
  obtain news where n: "distinct news" "set news = set (adjacency t node) - set (seen s)"
    "expand t node (s\<lparr>queue := rest\<rparr>) = \<lparr>prev = (\<lambda>v. if v \<in> set news then Some node else prev s v),
       seen = rev news @ seen s, queue = rest @ news\<rparr>"
    by (rule expand_spec[of t node "s\<lparr>queue := rest\<rparr>"]) (simp cong del: if_weak_cong)
  let ?d = "\<lambda>v. if v \<in> set news then Suc (d node) else d v"
  let ?s = "expand t node (s\<lparr>queue := rest\<rparr>)"
  have seen: "src \<in> set (seen s)" "d src = 0" "node \<in> set (seen s)" "set rest \<subseteq> set (seen s)"
    using inv q by (auto simp: search_inv_def)
  have new: "x \<notin> set news" if "x \<in> set (seen s)" for x using that n(2) by auto
  have lo: "d node \<le> d x" if "x \<in> set rest" for x
    using inv q that by (auto simp: search_inv_def)
  have hi: "d x \<le> Suc (d node)" if "x \<in> set rest" for x
    using inv q that by (auto simp: search_inv_def)
  have srt: "sorted (map d rest)" using inv q by (auto simp: search_inv_def)
  have pre: "\<exists>u\<in>set (seen s). prev s v = Some u \<and> edge t u v \<and> d v = Suc (d u)" if "v \<in> set (seen s)" "v \<noteq> src" for v
    using inv that by (auto simp: search_inv_def)
  have done1: "(\<forall>w. edge t u w \<longrightarrow> w \<in> set (seen s) \<and> d w \<le> Suc (d u)) \<and> d u \<le> d node \<and> (u = src \<or> \<not> anchors t dnn u)"
    if "u \<in> set (seen s)" "u \<notin> set (queue s)" for u
  proof -
    from inv that have a: "\<forall>w. edge t u w \<longrightarrow> w \<in> set (seen s) \<and> d w \<le> Suc (d u)" "\<forall>q\<in>set (queue s). d u \<le> d q"
        "u = src \<or> \<not> anchors t dnn u"
      unfolding search_inv_def by blast+
    then show ?thesis using q by simp
  qed
  have nbr: "d w \<le> Suc (d node)" if "edge t node w" "w \<in> set (seen s)" for w
  proof (cases "w \<in> set (queue s)")
    case True
    then show ?thesis using q hi by auto
  next
    case False
    then show ?thesis using done1[OF that(2) False] by (simp add: le_SucI)
  qed
  have "search_inv t dnn src ?s ?d"
    unfolding search_inv_def
  proof (intro conjI ballI allI impI)
    show "src \<in> set (seen ?s)" "?d src = 0" using n(3) seen new by auto
    show "set (queue ?s) \<subseteq> set (seen ?s)" using n(3) seen by auto
    have a: "map ?d rest = map d rest" using seen(4) new by auto
    have b: "map ?d news = replicate (length news) (Suc (d node))" by (rule replicate_eqI) auto
    have "sorted (map d rest @ replicate (length news) (Suc (d node)))"
      using srt hi by (auto simp: sorted_append)
    then have "sorted (map ?d rest @ map ?d news)" unfolding a b .
    then show "sorted (map ?d (queue ?s))" using n(3) by (simp only: search.simps map_append)
  next
    fix v assume v: "v \<in> set (seen ?s)" "v \<noteq> src"
    show "\<exists>u\<in>set (seen ?s). prev ?s v = Some u \<and> edge t u v \<and> ?d v = Suc (?d u)"
    proof (cases "v \<in> set news")
      case True
      then show ?thesis using n seen(3) new[OF seen(3)] by (auto simp: edge_def)
    next
      case False
      then have "v \<in> set (seen s)" using v(1) n(3) by auto
      from pre[OF this v(2)] False show ?thesis using n(3) new by auto
    qed
  next
    fix x y assume "x \<in> set (queue ?s)" "y \<in> set (queue ?s)"
    then show "?d y \<le> Suc (?d x)" using n(3) lo hi by (fastforce simp: le_Suc_eq)
  next
    fix u w assume u: "u \<in> set (seen ?s) - set (queue ?s)" and e: "edge t u w"
    have us: "u \<in> set (seen s)" "u \<notin> set news" using u n(3) by auto
    show "w \<in> set (seen ?s)"
      using us u q n(2,3) e done1[of u] by (cases "u = node") (auto simp: edge_def)
    show "?d w \<le> Suc (?d u)"
      using us u q n(2,3) e done1[of u] new nbr by (cases "u = node") (auto simp: edge_def)
  next
    fix u q' assume u: "u \<in> set (seen ?s) - set (queue ?s)" and q': "q' \<in> set (queue ?s)"
    have us: "u \<in> set (seen s)" "u \<notin> set news" "u \<notin> set rest" using u n(3) by auto
    have "d u \<le> d node" using us q done1[of u] by (cases "u = node") auto
    then show "?d u \<le> ?d q'" using us q' n(3) lo[of q'] by (auto simp: le_SucI)
  next
    fix u assume u: "u \<in> set (seen ?s) - set (queue ?s)"
    have us: "u \<in> set (seen s)" "u \<notin> set rest" using u n(3) by auto
    then show "u = src \<or> \<not> anchors t dnn u" using q no done1[of u] by (cases "u = node") auto
  qed
  then show ?thesis by blast
qed

text \<open>Whatever the length of a walk from the source, its end has been visited at no greater depth, or
  some node as shallow as the walk is long is still queued.\<close>

lemma walk_covered:
  assumes inv: "search_inv t dnn src s d" and w: "(edge t ^^ n) src v"
  shows "(v \<in> set (seen s) \<and> d v \<le> n) \<or> (\<exists>q\<in>set (queue s). d q \<le> n)"
  using w
proof (induction n arbitrary: v)
  case 0
  then show ?case using inv by (auto simp: search_inv_def)
next
  case (Suc n)
  then obtain u where u: "(edge t ^^ n) src u" "edge t u v" by auto
  show ?case
  proof (cases "u \<in> set (seen s) \<and> d u \<le> n \<and> u \<notin> set (queue s)")
    case True
    then have "v \<in> set (seen s) \<and> d v \<le> Suc (d u)" using inv u(2) by (auto simp: search_inv_def)
    then show ?thesis using True by auto
  next
    case False
    then show ?thesis using Suc.IH[OF u(1)] by (auto intro: le_SucI)
  qed
qed

text \<open>The walk back from a visited node returns, and what it returns is a path of links of the length
  the depth says.\<close>

lemma unwind_returns:
  assumes inv: "search_inv t dnn src s d" and v: "v \<in> set (seen s)" "v \<noteq> src"
  shows "\<exists>ps. unwind (prev s) src v chain = Some (rev (chain @ ps)) \<and> leads t src (rev ps @ [v])
    \<and> Suc (length ps) = d v \<and> (\<forall>u\<in>set ps. u \<in> set (seen s) \<and> u \<noteq> src \<and> d u < d v)"
  using v
proof (induction "d v" arbitrary: v chain rule: less_induct)
  case less
  obtain p where p: "p \<in> set (seen s)" "prev s v = Some p" "edge t p v" "d v = Suc (d p)"
    using inv less.prems by (auto simp: search_inv_def)
  show ?case
  proof (cases "p = src")
    case True
    then have "d p = 0" using inv by (simp add: search_inv_def)
    then show ?thesis using True p by (intro exI[of _ "[]"]) (simp add: unwind.simps)
  next
    case False
    obtain ps where ps: "unwind (prev s) src p (chain @ [p]) = Some (rev ((chain @ [p]) @ ps))"
        "leads t src (rev ps @ [p])" "Suc (length ps) = d p"
        "\<forall>u\<in>set ps. u \<in> set (seen s) \<and> u \<noteq> src \<and> d u < d p"
      using less.hyps[of p "chain @ [p]"] p False by auto
    have "leads t src (rev (p # ps) @ [v])"
      using ps(2) p(3) leads_snoc[of t src "rev ps @ [p]" v] by simp
    moreover have "unwind (prev s) src v chain = Some (rev (chain @ p # ps))"
      using ps(1) p(2) False by (subst unwind.simps) simp
    ultimately show ?thesis using ps(3,4) p False by (intro exI[of _ "p # ps"]) auto
  qed
qed

text \<open>A shortest chain to a node that anchors the network, or none when there is none.\<close>

definition shortest_chain :: "Topology \<Rightarrow> string \<Rightarrow> string \<Rightarrow> string list \<Rightarrow> bool" where
  "shortest_chain t dnn src ch =
    (ch \<noteq> [] \<and> leads t src ch \<and> src \<notin> set ch \<and> anchors t dnn (last ch)
     \<and> (\<forall>u\<in>set (butlast ch). \<not> anchors t dnn u)
     \<and> (\<forall>n v. (edge t ^^ n) src v \<longrightarrow> v \<noteq> src \<longrightarrow> anchors t dnn v \<longrightarrow> length ch \<le> n))"

definition unreachable :: "Topology \<Rightarrow> string \<Rightarrow> string \<Rightarrow> bool" where
  "unreachable t dnn src = (\<forall>v. (edge t)\<^sup>*\<^sup>* src v \<longrightarrow> v \<noteq> src \<longrightarrow> \<not> anchors t dnn v)"

lemma search_hit:
  assumes inv: "search_inv t dnn src s d" and q: "queue s = node # rest"
    and hit: "node \<noteq> src" "anchors t dnn node"
  shows "\<exists>ch. unwind (prev s) src node [node] = Some ch \<and> shortest_chain t dnn src ch"
proof -
  have node: "node \<in> set (seen s)" and low: "\<And>x. x \<in> set (queue s) \<Longrightarrow> d node \<le> d x"
    using inv q by (auto simp: search_inv_def)
  have done1: "u = src \<or> \<not> anchors t dnn u" if "u \<in> set (seen s)" "u \<notin> set (queue s)" for u
    using inv that by (auto simp: search_inv_def)
  obtain ps where ps: "unwind (prev s) src node [node] = Some (rev ([node] @ ps))" "leads t src (rev ps @ [node])"
      "Suc (length ps) = d node" "\<forall>u\<in>set ps. u \<in> set (seen s) \<and> u \<noteq> src \<and> d u < d node"
    using unwind_returns[OF inv node hit(1), of "[node]"] by blast
  have "d node \<le> n" if "(edge t ^^ n) src v" "v \<noteq> src" "anchors t dnn v" for n v
    using walk_covered[OF inv that(1)] done1[of v] low that(2,3) order_trans by blast
  moreover have "\<not> anchors t dnn u" if "u \<in> set ps" for u
    using ps(4) that done1[of u] low[of u] by fastforce
  ultimately show ?thesis
    using ps hit by (intro exI[of _ "rev ps @ [node]"]) (auto simp: shortest_chain_def)
qed

lemma search_miss:
  assumes inv: "search_inv t dnn src s d" and q: "queue s = []"
  shows "unreachable t dnn src"
  unfolding unreachable_def
proof (intro allI impI)
  fix v assume "(edge t)\<^sup>*\<^sup>* src v" "v \<noteq> src"
  then obtain n where "(edge t ^^ n) src v" by (auto dest: rtranclp_imp_relpowp)
  from walk_covered[OF inv this] show "\<not> anchors t dnn v"
    using q inv \<open>v \<noteq> src\<close> by (auto simp: search_inv_def)
qed

lemma search_loop_correct:
  assumes "search_inv t dnn src s d"
  shows "(\<exists>ch. search_loop t dnn src s = Some (Some ch) \<and> shortest_chain t dnn src ch)
    \<or> (search_loop t dnn src s = Some None \<and> unreachable t dnn src)"
  using assms
proof (induction t dnn src s arbitrary: d rule: search_loop.induct)
  case (1 t dnn src s)
  show ?case
  proof (cases "queue s")
    case Nil
    then show ?thesis using search_miss[OF 1(2)] by (simp add: search_loop.simps)
  next
    case (Cons node rest)
    show ?thesis
    proof (cases "node \<noteq> src \<and> anchors t dnn node")
      case True
      then show ?thesis using search_hit[OF 1(2) Cons] Cons by (auto simp: search_loop.simps)
    next
      case False
      obtain d' where "search_inv t dnn src (expand t node (s\<lparr>queue := rest\<rparr>)) d'"
        using search_inv_expand[OF 1(2) Cons] False by blast
      from 1(1)[OF Cons False this] show ?thesis using Cons False by (subst (1 2) search_loop.simps) auto
    qed
  qed
qed

lemma leads_walk: "leads t u xs \<Longrightarrow> (edge t ^^ length xs) u (last (u # xs))"
  by (induction xs rule: rev_induct) (auto simp: leads_snoc)

lemma shortest_chain_reachable:
  "shortest_chain t dnn src ch \<Longrightarrow> \<not> unreachable t dnn src"
  using leads_walk[of t src ch] relpowp_imp_rtranclp[of _ "edge t"]
  by (fastforce simp: shortest_chain_def unreachable_def)

lemma path_selection:
  assumes "an_node t = Some src"
  shows "(\<exists>ch. path_for_dnn t dnn = Some (Some ch) \<and> shortest_chain t dnn src ch)
    \<or> (path_for_dnn t dnn = Some None \<and> unreachable t dnn src)"
  using search_loop_correct[OF search_inv_start, of t dnn src] assms by (simp add: path_for_dnn_def)


definition demo_topology :: Topology where
  "demo_topology = \<lparr>up_nodes = [
      (''anchor'', \<lparr>un_kind = Upf, un_n4 = Some (IpV4 2, 8805), un_dnns = [''internet''], un_dnai = None\<rparr>),
      (''edge'', \<lparr>un_kind = Upf, un_n4 = Some (IpV4 4, 8805), un_dnns = [], un_dnai = Some ''mec''\<rparr>),
      (''gNB'', \<lparr>un_kind = An, un_n4 = None, un_dnns = [], un_dnai = None\<rparr>),
      (''iupf'', \<lparr>un_kind = Upf, un_n4 = Some (IpV4 3, 8805), un_dnns = [], un_dnai = None\<rparr>)],
    links = [\<lparr>ln_a = ''gNB'', ln_b = ''iupf''\<rparr>, \<lparr>ln_a = ''iupf'', ln_b = ''anchor''\<rparr>, \<lparr>ln_a = ''iupf'', ln_b = ''edge''\<rparr>],
    routes = [\<lparr>rt_dnn = ''internet'', rt_prefix = ''10.99.0.0/16'', rt_via = ''edge''\<rparr>]\<rparr>"

lemma demo_path: "path_for_dnn demo_topology ''internet'' = Some (Some [''iupf'', ''anchor''])"
  by (simp add: path_for_dnn_def an_node_def demo_topology_def search_loop.simps expand_def adjacency_def
      anchors_def visit_def unwind.simps)


end
