(* ===== verification/Smf_Path.thy ===== *)
theory Smf_Path
  imports Smf_Topology
begin

section \<open>The user-plane path of a session\<close>

text \<open>
  The routing part of \<open>nf/nf-smf/src/pdu_session.rs\<close>: how the SMF turns a data network name into the
  N4 peers a session runs on, from the environment variables (\<open>Fixed\<close>) or from a topology (\<open>Graph\<close>).
  An N4 peer is identified by the node name it is stored under.
\<close>

record UserPlane =
  upl_anchor :: "ip_addr \<times> u16"
  upl_intermediate :: "(ip_addr \<times> u16) option"
  upl_breakout :: "((ip_addr \<times> u16) \<times> ip_prefix) option"

definition up_single :: "ip_addr \<times> u16 \<Rightarrow> UserPlane" where
  "up_single a = \<lparr>upl_anchor = a, upl_intermediate = None, upl_breakout = None\<rparr>"

definition up_chained :: "ip_addr \<times> u16 \<Rightarrow> ip_addr \<times> u16 \<Rightarrow> UserPlane" where
  "up_chained a i = \<lparr>upl_anchor = a, upl_intermediate = Some i, upl_breakout = None\<rparr>"

definition with_breakout :: "UserPlane \<Rightarrow> ip_addr \<times> u16 \<Rightarrow> ip_prefix \<Rightarrow> UserPlane" where
  "with_breakout u psa2 p = u\<lparr>upl_breakout := Some (psa2, p)\<rparr>"

record SessionPath =
  sp_anchor :: string
  sp_intermediate :: "string option"
  sp_breakout :: "(string \<times> ip_prefix) option"

definition path_uses :: "SessionPath \<Rightarrow> string \<Rightarrow> bool" where
  "path_uses p peer = (sp_anchor p = peer \<or> sp_intermediate p = Some peer \<or> (\<exists>pre. sp_breakout p = Some (peer, pre)))"

datatype Routing =
    Fixed string "string option" "(string \<times> ip_prefix) option"
  | Graph Topology

text \<open>The peers and the routing both constructors end up with, the sockets left out.\<close>

definition connect_fixed :: "UserPlane \<Rightarrow> string list \<times> Routing" where
  "connect_fixed u =
    (let intermediate = map_option (\<lambda>_. ''intermediate'') (upl_intermediate u);
         breakout = (case (intermediate, upl_breakout u) of
            (Some _, Some (_, p)) \<Rightarrow> Some (''breakout'', p) | _ \<Rightarrow> None)
     in (''anchor'' # (case breakout of None \<Rightarrow> [] | Some _ \<Rightarrow> [''breakout''])
           @ (case intermediate of None \<Rightarrow> [] | Some _ \<Rightarrow> [''intermediate'']),
         Fixed ''anchor'' intermediate breakout))"

definition connect_with_topology :: "Topology \<Rightarrow> (string list \<times> Routing) option" where
  "connect_with_topology t =
    (let upfs = filter (\<lambda>(_, n). un_kind n = Upf) (up_nodes t)
     in if list_all (\<lambda>(_, n). un_n4 n \<noteq> None) upfs then Some (map fst upfs, Graph t) else None)"

datatype path_error =
    NotConnected string
  | NoUpPath string
  | TooManyIntermediates string
  | BreakoutWithoutIntermediate string
  | NotACidr string

definition peer_named :: "string list \<Rightarrow> string \<Rightarrow> path_error + string" where
  "peer_named peers name = (if name \<in> set peers then Inr name else Inl (NotConnected name))"

fun bind_err :: "'e + 'a \<Rightarrow> ('a \<Rightarrow> 'e + 'b) \<Rightarrow> 'e + 'b" where
  "bind_err (Inl e) f = Inl e"
| "bind_err (Inr x) f = f x"

definition opt_peer :: "string list \<Rightarrow> string option \<Rightarrow> path_error + string option" where
  "opt_peer peers n = (case n of None \<Rightarrow> Inr None | Some x \<Rightarrow> bind_err (peer_named peers x) (\<lambda>p. Inr (Some p)))"

definition graph_breakout :: "string list \<Rightarrow> Topology \<Rightarrow> string \<Rightarrow> string option \<Rightarrow> path_error + (string \<times> ip_prefix) option" where
  "graph_breakout peers t dnn intermediate = (case breakout_for_dnn t dnn of
     None \<Rightarrow> Inr None
   | Some r \<Rightarrow>
       if intermediate = None then Inl (BreakoutWithoutIntermediate dnn)
       else (case parse_prefix (rt_prefix r) of
           None \<Rightarrow> Inl (NotACidr (rt_prefix r))
         | Some p \<Rightarrow> bind_err (peer_named peers (rt_via r)) (\<lambda>via. Inr (Some (via, p)))))"

text \<open>The outer option is the divergence of the search, which never happens.\<close>

definition resolve_path :: "string list \<Rightarrow> Routing \<Rightarrow> string \<Rightarrow> (path_error + SessionPath) option" where
  "resolve_path peers routing dnn = (case routing of
     Fixed anchor intermediate breakout \<Rightarrow>
       Some (bind_err (peer_named peers anchor) (\<lambda>a. bind_err (opt_peer peers intermediate) (\<lambda>i.
         bind_err (case breakout of None \<Rightarrow> Inr None
                   | Some (n, p) \<Rightarrow> bind_err (peer_named peers n) (\<lambda>b. Inr (Some (b, p)))) (\<lambda>b.
         Inr \<lparr>sp_anchor = a, sp_intermediate = i, sp_breakout = b\<rparr>))))
   | Graph t \<Rightarrow> (case path_for_dnn t dnn of
       None \<Rightarrow> None
     | Some None \<Rightarrow> Some (Inl (NoUpPath dnn))
     | Some (Some nodes) \<Rightarrow> Some (bind_err
         (case nodes of [a] \<Rightarrow> Inr (a, None) | [i, a] \<Rightarrow> Inr (a, Some i) | _ \<Rightarrow> Inl (TooManyIntermediates dnn))
         (\<lambda>(anchor, intermediate).
           bind_err (graph_breakout peers t dnn intermediate) (\<lambda>b.
           bind_err (peer_named peers anchor) (\<lambda>a.
           bind_err (opt_peer peers intermediate) (\<lambda>i.
           Inr \<lparr>sp_anchor = a, sp_intermediate = i, sp_breakout = b\<rparr>)))))))"

definition routing_node_for_dnai :: "Routing \<Rightarrow> string \<Rightarrow> string option" where
  "routing_node_for_dnai r dnai = (case r of Graph t \<Rightarrow> node_for_dnai t dnai | Fixed _ _ _ \<Rightarrow> None)"

definition dnn_has_config_route :: "Routing \<Rightarrow> string \<Rightarrow> bool" where
  "dnn_has_config_route r dnn = (case r of Graph t \<Rightarrow> breakout_for_dnn t dnn \<noteq> None | Fixed _ _ _ \<Rightarrow> False)"

subsection \<open>Validated topologies\<close>

lemma validate_sound:
  assumes "validate t = Inr ()"
  shows "\<exists>src. an_node t = Some src"
    and "(name, node) \<in> set (up_nodes t) \<Longrightarrow> un_kind node = Upf \<Longrightarrow> un_n4 node \<noteq> None"
    and "(name, node) \<in> set (up_nodes t) \<Longrightarrow> un_kind node = An \<Longrightarrow> un_dnns node = []"
    and "e \<in> link_ends t \<Longrightarrow> \<exists>node. map_of (up_nodes t) e = Some node"
    and "r \<in> set (routes t) \<Longrightarrow> valid_cidr (rt_prefix r) \<and> (\<exists>n. map_of (up_nodes t) (rt_via r) = Some n \<and> un_kind n = Upf)"
proof -
  have a: "list_ex (\<lambda>(_, n). un_kind n = An) (up_nodes t)" "\<forall>x\<in>set (up_nodes t). node_error x = None"
    "\<forall>l\<in>set (links t). link_error t l = None" "\<forall>r\<in>set (routes t). route_error t r = None"
    using assms by (auto simp: validate_def first_error_None split: if_splits option.splits)
  show "\<exists>src. an_node t = Some src"
    using a(1) find_None_all[of "\<lambda>(_, n). un_kind n = An" "up_nodes t"]
    by (cases "find (\<lambda>(_, n). un_kind n = An) (up_nodes t)") (auto simp: an_node_def list_ex_iff)
  show "un_n4 node \<noteq> None" if "(name, node) \<in> set (up_nodes t)" "un_kind node = Upf"
    using a(2) that by (fastforce simp: node_error_def split: if_splits)
  show "un_dnns node = []" if "(name, node) \<in> set (up_nodes t)" "un_kind node = An"
    using a(2) that by (fastforce simp: node_error_def split: if_splits)
  show "\<exists>node. map_of (up_nodes t) e = Some node" if "e \<in> link_ends t"
    using a(3) that by (fastforce simp: link_error_def link_ends_def split: if_splits)
  show "valid_cidr (rt_prefix r) \<and> (\<exists>n. map_of (up_nodes t) (rt_via r) = Some n \<and> un_kind n = Upf)" if "r \<in> set (routes t)"
    using a(4) that by (auto simp: route_error_def split: if_splits option.splits)
qed

lemma valid_cidr_parses: "valid_cidr s \<Longrightarrow> \<exists>p. parse_prefix s = Some p"
  by (cases "parse_ip (fst (the (split_once CHR ''/'' s)))"; cases "the (parse_ip (fst (the (split_once CHR ''/'' s))))")
    (auto simp: valid_cidr_def parse_prefix_def split: option.splits)

lemma leads_ends: "leads t u xs \<Longrightarrow> set xs \<subseteq> link_ends t"
  using adjacency_ends by (induction xs arbitrary: u) (fastforce simp: edge_def)+

lemma topology_peer:
  assumes "distinct (map fst (up_nodes t))" "map_of (up_nodes t) e = Some n"
  shows "e \<in> set (map fst (filter (\<lambda>(_, n). un_kind n = Upf) (up_nodes t))) \<longleftrightarrow> un_kind n = Upf"
proof
  assume "un_kind n = Upf"
  then show "e \<in> set (map fst (filter (\<lambda>(_, n). un_kind n = Upf) (up_nodes t)))"
    using map_of_SomeD[OF assms(2)] by force
next
  assume "e \<in> set (map fst (filter (\<lambda>(_, n). un_kind n = Upf) (up_nodes t)))"
  then obtain m where "(e, m) \<in> set (up_nodes t)" "un_kind m = Upf" by auto
  then show "un_kind n = Upf" using assms by (simp add: map_of_eq_Some_iff[OF assms(1)])
qed

text \<open>What a result of \<open>resolve_path\<close> means, for the chain \<open>ch\<close> the search selects.\<close>

definition is_an :: "Topology \<Rightarrow> string \<Rightarrow> bool" where
  "is_an t e = (\<exists>n. map_of (up_nodes t) e = Some n \<and> un_kind n = An)"

fun outcome_fits :: "Topology \<Rightarrow> string \<Rightarrow> string list \<Rightarrow> path_error + SessionPath \<Rightarrow> bool" where
  "outcome_fits t dnn ch (Inr sp) =
     (ch = (case sp_intermediate sp of None \<Rightarrow> [] | Some i \<Rightarrow> [i]) @ [sp_anchor sp]
      \<and> (case breakout_for_dnn t dnn of
           None \<Rightarrow> sp_breakout sp = None
         | Some r \<Rightarrow> sp_intermediate sp \<noteq> None \<and> (\<exists>p. parse_prefix (rt_prefix r) = Some p \<and> sp_breakout sp = Some (rt_via r, p)))
      \<and> (\<forall>e. path_uses sp e \<longrightarrow> (\<exists>n. map_of (up_nodes t) e = Some n \<and> un_kind n = Upf)))"
| "outcome_fits t dnn ch (Inl (TooManyIntermediates d)) = (d = dnn \<and> 2 < length ch)"
| "outcome_fits t dnn ch (Inl (BreakoutWithoutIntermediate d)) = (d = dnn \<and> length ch = 1 \<and> breakout_for_dnn t dnn \<noteq> None)"
| "outcome_fits t dnn ch (Inl (NotConnected i)) = (\<exists>a. ch = [i, a] \<and> is_an t i)"
| "outcome_fits t dnn ch _ = False"

lemma anchor_is_upf:
  assumes "validate t = Inr ()" "anchors t dnn a"
  shows "\<exists>n. map_of (up_nodes t) a = Some n \<and> un_kind n = Upf"
proof -
  obtain n where n: "map_of (up_nodes t) a = Some n" "dnn \<in> set (un_dnns n)"
    using assms(2) by (auto simp: anchors_def split: option.splits)
  then have "un_kind n \<noteq> An" using validate_sound(3)[OF assms(1) map_of_SomeD[OF n(1)]] by auto
  then show ?thesis using n(1) NodeKind.exhaust by blast
qed

lemma graph_breakout_ok:
  assumes v: "validate t = Inr ()" and d: "distinct (map fst (up_nodes t))"
    and peers: "peers = map fst (filter (\<lambda>(_, n). un_kind n = Upf) (up_nodes t))" and i: "i \<noteq> None"
  shows "\<exists>b. graph_breakout peers t dnn i = Inr b \<and> (case breakout_for_dnn t dnn of
      None \<Rightarrow> b = None
    | Some r \<Rightarrow> \<exists>p. parse_prefix (rt_prefix r) = Some p \<and> b = Some (rt_via r, p)
        \<and> (\<exists>n. map_of (up_nodes t) (rt_via r) = Some n \<and> un_kind n = Upf))"
proof (cases "breakout_for_dnn t dnn")
  case None
  then show ?thesis by (simp add: graph_breakout_def)
next
  case (Some r)
  then have "r \<in> set (routes t)" by (auto simp: breakout_for_dnn_def dest: find_Some_in)
  from validate_sound(5)[OF v this] obtain n where n: "valid_cidr (rt_prefix r)"
    "map_of (up_nodes t) (rt_via r) = Some n" "un_kind n = Upf" by auto
  have "rt_via r \<in> set peers" using topology_peer[OF d n(2)] n(3) peers by simp
  then show ?thesis using Some n valid_cidr_parses[OF n(1)] i by (auto simp: graph_breakout_def peer_named_def)
qed

text \<open>C28: path resolution on a validated topology. With one N4 peer per UPF, resolving a data network
  returns the peers of the chain the search selects, at most one intermediate UPF before the anchor,
  with the breakout anchor of the first route configured for the network; every peer of the path is a
  UPF. It fails exactly when no anchor can be reached, when the chain has more than one intermediate,
  when a breakout is configured and the anchor is adjacent to the access network, or when the
  intermediate is itself an access network: the search does not avoid those.\<close>

theorem path_resolution:
  assumes v: "validate t = Inr ()" and d: "distinct (map fst (up_nodes t))"
    and c: "connect_with_topology t = Some (peers, routing)" and s: "an_node t = Some src"
  shows "(\<exists>ch outcome. resolve_path peers routing dnn = Some outcome \<and> shortest_chain t dnn src ch \<and> outcome_fits t dnn ch outcome)
    \<or> (resolve_path peers routing dnn = Some (Inl (NoUpPath dnn)) \<and> unreachable t dnn src)"
proof -
  have r: "routing = Graph t" and peers: "peers = map fst (filter (\<lambda>(_, n). un_kind n = Upf) (up_nodes t))"
    using c by (auto simp: connect_with_topology_def Let_def split: if_splits)
  have res: "path_for_dnn t dnn = Some x \<Longrightarrow> resolve_path peers routing dnn =
      resolve_path peers (Graph t) dnn" for x using r by simp
  from path_selection[OF s, of dnn] show ?thesis
  proof (elim disjE exE conjE)
    assume "path_for_dnn t dnn = Some None" "unreachable t dnn src"
    then show ?thesis by (simp add: resolve_path_def r)
  next
    fix ch assume p: "path_for_dnn t dnn = Some (Some ch)" and ch: "shortest_chain t dnn src ch"
    have ne: "ch \<noteq> []" and an: "anchors t dnn (last ch)" and ends: "set ch \<subseteq> link_ends t"
      using ch leads_ends by (auto simp: shortest_chain_def)
    have peer: "a \<in> set peers" if "anchors t dnn a" for a
      using anchor_is_upf[OF v that] topology_peer[OF d] peers by auto
    consider (one) a where "ch = [a]" | (two) i a where "ch = [i, a]" | (more) "2 < length ch"
      using ne by (cases ch rule: remdups_adj.cases) (auto simp: length_Suc_conv Suc_lessI)
    then have "\<exists>outcome. resolve_path peers routing dnn = Some outcome \<and> outcome_fits t dnn ch outcome"
    proof cases
      case one
      then show ?thesis
        using p r peer[of a] an anchor_is_upf[OF v, of dnn a]
        by (cases "breakout_for_dnn t dnn") (auto simp: resolve_path_def graph_breakout_def peer_named_def opt_peer_def path_uses_def)
    next
      case two
      obtain b where b: "graph_breakout peers t dnn (Some i) = Inr b" "case breakout_for_dnn t dnn of
          None \<Rightarrow> b = None
        | Some r \<Rightarrow> \<exists>p. parse_prefix (rt_prefix r) = Some p \<and> b = Some (rt_via r, p)
            \<and> (\<exists>n. map_of (up_nodes t) (rt_via r) = Some n \<and> un_kind n = Upf)"
        using graph_breakout_ok[OF v d peers, of "Some i" dnn] by auto
      obtain n where n: "map_of (up_nodes t) i = Some n" using validate_sound(4)[OF v, of i] ends two by auto
      have a: "a \<in> set peers" "\<exists>n. map_of (up_nodes t) a = Some n \<and> un_kind n = Upf"
        using peer[of a] an anchor_is_upf[OF v, of dnn a] two by auto
      have ip: "i \<in> set peers \<longleftrightarrow> un_kind n = Upf" using topology_peer[OF d n] peers by simp
      show ?thesis
        using p r two a b n ip NodeKind.exhaust[of "un_kind n"]
        by (cases "breakout_for_dnn t dnn")
          (auto simp: resolve_path_def peer_named_def opt_peer_def path_uses_def is_an_def)
    next
      case more
      then show ?thesis using p r by (auto simp: resolve_path_def split: list.splits)
    qed
    then show ?thesis using ch by blast
  qed
qed

theorem path_resolution_witness:
  "\<exists>ch outcome. resolve_path [''anchor'', ''edge'', ''iupf''] (Graph demo_topology) ''internet'' = Some outcome
     \<and> shortest_chain demo_topology ''internet'' ''gNB'' ch \<and> outcome_fits demo_topology ''internet'' ch outcome"
proof -
  have v: "validate demo_topology = Inr ()" by code_simp
  have d: "distinct (map fst (up_nodes demo_topology))" by code_simp
  have c: "connect_with_topology demo_topology = Some ([''anchor'', ''edge'', ''iupf''], Graph demo_topology)"
    by (simp add: connect_with_topology_def Let_def demo_topology_def)
  have s: "an_node demo_topology = Some ''gNB''" by code_simp
  have "\<not> unreachable demo_topology ''internet'' ''gNB''"
    using path_selection[OF s, of "''internet''"] demo_path shortest_chain_reachable by auto
  then show ?thesis using path_resolution[OF v d c s, of "''internet''"] by blast
qed

end
