(* ===== verification/Smf_Pool.thy ===== *)
theory Smf_Pool
  imports Ip_Text
begin

section \<open>Address pools and guaranteed-rate admission of the SMF\<close>

text \<open>
  \<open>U32Pool\<close>, the UE address allocation and the GFBR budget of \<open>nf/nf-smf/src/pdu_session.rs\<close>. The
  ordered set of returned values is the strictly increasing list of its elements.
\<close>

subsection \<open>An allocator\<close>

text \<open>The contract of an allocator of values from a finite range: what is live, what an allocation
  returns and what a release does, also when it is repeated. \<open>held\<close> is the ledger of a client
  that releases only what it holds.\<close>

datatype lease_op = Lease | Return nat

locale allocator =
  fixes alloc :: "'p \<Rightarrow> 'v option \<times> 'p"
    and release :: "'p \<Rightarrow> 'v \<Rightarrow> 'p"
    and inv :: "'p \<Rightarrow> bool"
    and live :: "'p \<Rightarrow> 'v set"
    and range :: "'p \<Rightarrow> 'v set"
  assumes alloc_Some: "inv p \<Longrightarrow> alloc p = (Some v, p') \<Longrightarrow>
      inv p' \<and> v \<notin> live p \<and> v \<in> range p \<and> live p' = insert v (live p) \<and> range p' = range p"
    and alloc_None: "inv p \<Longrightarrow> alloc p = (None, p') \<Longrightarrow> p' = p \<and> live p = range p"
    and release_live: "inv p \<Longrightarrow> v \<in> range p \<Longrightarrow> inv (release p v) \<and> live (release p v) = live p - {v} \<and> range (release p v) = range p"
    and live_range: "inv p \<Longrightarrow> live p \<subseteq> range p"
begin

text \<open>A client with a list of leases: it takes a new one, or returns the one at a position.\<close>

fun serve :: "lease_op \<Rightarrow> 'v list \<times> 'p \<Rightarrow> 'v list \<times> 'p" where
  "serve Lease (held, p) = (case alloc p of (Some v, p') \<Rightarrow> (held @ [v], p') | (None, p') \<Rightarrow> (held, p'))"
| "serve (Return i) (held, p) = (if i < length held then (take i held @ drop (Suc i) held, release p (held ! i)) else (held, p))"

definition ledger :: "'v list \<times> 'p \<Rightarrow> bool" where
  "ledger st = (case st of (held, p) \<Rightarrow> inv p \<and> distinct held \<and> set held = live p)"

lemma ledger_serve: "ledger st \<Longrightarrow> ledger (serve op st)"
proof -
  assume l: "ledger st"
  obtain held p where st: "st = (held, p)" by fastforce
  have h: "inv p" "distinct held" "set held = live p" using l st by (auto simp: ledger_def)
  show ?thesis
  proof (cases op)
    case Lease
    then show ?thesis using h st alloc_Some[OF h(1)] alloc_None[OF h(1)]
      by (cases "alloc p"; cases "fst (alloc p)") (auto simp: ledger_def)
  next
    case (Return i)
    show ?thesis
    proof (cases "i < length held")
      case False
      then show ?thesis using Return st l by simp
    next
      case True
      then have m: "held ! i \<in> range p" using h live_range[OF h(1)] nth_mem by blast
      have split: "held = take i held @ held ! i # drop (Suc i) held" using True by (rule id_take_nth_drop)
      then have "distinct (take i held @ held ! i # drop (Suc i) held)" using h(2) by simp
      moreover have "set held = insert (held ! i) (set (take i held @ drop (Suc i) held))" using split
        by (metis Un_insert_right list.simps(15) set_append)
      ultimately show ?thesis using True Return st h release_live[OF h(1) m] by (auto simp: ledger_def)
    qed
  qed
qed

lemma ledger_run: "ledger st \<Longrightarrow> ledger (fold serve ops st)"
proof (induction ops arbitrary: st)
  case (Cons op ops)
  then show ?case using ledger_serve[OF Cons.prems] by simp
qed simp

end

subsection \<open>The pool\<close>

record U32Pool =
  pool_next :: u32
  pool_end :: u32
  freed :: "u32 list"

definition pool_new :: "u32 \<Rightarrow> u32 \<Rightarrow> U32Pool" where
  "pool_new start bound = \<lparr>pool_next = start, pool_end = bound, freed = []\<rparr>"

definition pool_alloc :: "U32Pool \<Rightarrow> u32 option \<times> U32Pool" where
  "pool_alloc p = (case freed p of
     v # rest \<Rightarrow> (Some v, p\<lparr>freed := rest\<rparr>)
   | [] \<Rightarrow> if pool_next p < pool_end p then (Some (pool_next p), p\<lparr>pool_next := pool_next p + 1\<rparr>) else (None, p))"

definition pool_release :: "U32Pool \<Rightarrow> u32 \<Rightarrow> U32Pool" where
  "pool_release p v = (if v < pool_next p then p\<lparr>freed := (if v \<in> set (freed p) then freed p else insort v (freed p))\<rparr> else p)"

text \<open>The invariant of a pool that started at \<open>start\<close>, and what is handed out.\<close>

definition pool_inv :: "u32 \<Rightarrow> U32Pool \<Rightarrow> bool" where
  "pool_inv start p = (start \<le> pool_next p \<and> (pool_next p \<le> pool_end p \<or> pool_next p = start)
     \<and> sorted (freed p) \<and> distinct (freed p) \<and> set (freed p) \<subseteq> {start..<pool_next p})"

definition pool_live :: "u32 \<Rightarrow> U32Pool \<Rightarrow> u32 set" where
  "pool_live start p = {start..<pool_next p} - set (freed p)"

lemma unat_succ: "a < b \<Longrightarrow> unat (a + 1) = Suc (unat a)" for a b :: u32
  using unsigned_less[of b, where ?'a = nat] by (simp add: word_less_nat_alt unat_word_ariths)

lemma word_atLeast_succ:
  assumes "start \<le> a" "a < (b :: u32)"
  shows "{start..<a + 1} = insert a {start..<a}"
  using assms unat_succ[OF assms(2)]
  by (auto simp: word_less_nat_alt word_le_nat_alt less_Suc_eq word_unat_eq_iff)

lemma pool_new_inv: "pool_inv start (pool_new start bound)" "pool_live start (pool_new start bound) = {}"
  by (simp_all add: pool_inv_def pool_live_def pool_new_def)

lemma pool_alloc_Some:
  assumes "pool_inv start p" "pool_alloc p = (Some v, p')"
  shows "pool_inv start p' \<and> v \<notin> pool_live start p \<and> v \<in> {start..<pool_end p}
    \<and> pool_live start p' = insert v (pool_live start p) \<and> pool_end p' = pool_end p"
proof (cases "freed p")
  case Nil
  then have n: "pool_next p < pool_end p" "v = pool_next p" "p' = p\<lparr>pool_next := pool_next p + 1\<rparr>"
    using assms(2) by (auto simp: pool_alloc_def split: if_splits)
  have "start \<le> pool_next p" using assms(1) by (simp add: pool_inv_def)
  then show ?thesis using n Nil assms(1) word_atLeast_succ[OF _ n(1), of start] unat_succ[OF n(1)]
    by (auto simp: pool_inv_def pool_live_def word_less_nat_alt word_le_nat_alt)
next
  case (Cons x xs)
  then have "v = x" "p' = p\<lparr>freed := xs\<rparr>" using assms(2) by (auto simp: pool_alloc_def)
  then show ?thesis using assms(1) Cons by (auto simp: pool_inv_def pool_live_def)
qed

lemma pool_release_live:
  assumes "pool_inv start p" "v \<in> {start..<pool_end p}"
  shows "pool_inv start (pool_release p v) \<and> pool_live start (pool_release p v) = pool_live start p - {v}
    \<and> pool_end (pool_release p v) = pool_end p"
proof (cases "v < pool_next p \<and> v \<notin> set (freed p)")
  case True
  then have "pool_release p v = p\<lparr>freed := insort v (freed p)\<rparr>" by (simp add: pool_release_def)
  then show ?thesis using True assms
    by (auto simp: pool_inv_def pool_live_def set_insort_key distinct_insort sorted_insort)
next
  case False
  then have r: "pool_release p v = p" by (cases p) (simp add: pool_release_def)
  have "v \<notin> pool_live start p" using False by (auto simp: pool_live_def)
  then show ?thesis unfolding r using assms by simp
qed

text \<open>The pool is an allocator.\<close>

interpretation pool: allocator pool_alloc pool_release "pool_inv start" "pool_live start" "\<lambda>p. {start..<pool_end p}" for start
proof (unfold_locales, goal_cases)
  case (1 p v p')
  then show ?case using pool_alloc_Some[of start p v p'] by simp
next
  case (2 p p')
  then show ?case by (auto simp: pool_alloc_def pool_inv_def pool_live_def split: list.splits if_splits)
next
  case (3 p v)
  then show ?case using pool_release_live[of start p v] by simp
next
  case (4 p)
  then show ?case by (auto simp: pool_inv_def pool_live_def)
qed

text \<open>C29: the leases of a pool. Whatever a client takes and returns, in any order, the values it holds
  are distinct, lie in the range of the pool, and are exactly the ones the pool counts as
  handed out; the pool refuses only when its whole range is held.\<close>

theorem pool_leases_distinct:
  assumes "fold (allocator.serve pool_alloc pool_release) ops ([], pool_new start bound) = (held, p)"
  shows "distinct held \<and> set held \<subseteq> {start..<bound} \<and> set held = pool_live start p
    \<and> (fst (pool_alloc p) = None \<longleftrightarrow> set held = {start..<bound})"
proof -
  have e: "pool_end (snd (fold (allocator.serve pool_alloc pool_release) ops st)) = pool_end (snd st)" for st
  proof (induction ops arbitrary: st)
    case (Cons op ops)
    have "pool_end (snd (allocator.serve pool_alloc pool_release op st)) = pool_end (snd st)"
      by (cases st; cases op) (auto simp: pool.serve.simps pool_alloc_def pool_release_def split: list.splits)
    then show ?case using Cons by simp
  qed simp
  have "pool.ledger start ([], pool_new start bound)" by (simp add: pool.ledger_def pool_new_inv)
  from pool.ledger_run[OF this, of ops] have l: "pool_inv start p" "distinct held" "set held = pool_live start p"
    by (auto simp: assms pool.ledger_def)
  have b: "pool_end p = bound" using e[of "([], pool_new start bound)"] unfolding assms by (simp add: pool_new_def)
  have "fst (pool_alloc p) = None \<longleftrightarrow> pool_live start p = {start..<pool_end p}"
    using pool.alloc_None[OF l(1)] pool.alloc_Some[OF l(1)]
    by (cases "pool_alloc p"; cases "fst (pool_alloc p)") auto
  then show ?thesis using l pool.live_range[OF l(1)] by (simp add: b)
qed

theorem pool_leases_distinct_witness:
  "\<exists>p. fold (allocator.serve pool_alloc pool_release) [Lease, Lease, Return 0, Lease] ([], pool_new 5 7) = ([6, 5], p)
    \<and> fst (pool_alloc p) = None"
proof -
  have "fold (allocator.serve pool_alloc pool_release) [Lease, Lease, Return 0, Lease] ([], pool_new 5 7)
      = ([6, 5], \<lparr>pool_next = 7, pool_end = 7, freed = []\<rparr>)"
    by (simp add: pool.serve.simps pool_alloc_def pool_release_def pool_new_def)
  moreover have "{6, 5} = {5..<7 :: u32}"
    by (auto simp: word_less_nat_alt word_le_nat_alt word_unat_eq_iff)
  ultimately show ?thesis using pool_leases_distinct[of "[Lease, Lease, Return 0, Lease]" 5 7 "[6, 5]"] by auto
qed

subsection \<open>UE addresses\<close>

definition UE_IP_POOL_START :: u32 where
  "UE_IP_POOL_START = 0x0A2D0002"

definition UE_IP_POOL_END :: u32 where
  "UE_IP_POOL_END = 0x0A2DFFFF"

definition UE_IPV6_PREFIX_32 :: bytes where
  "UE_IPV6_PREFIX_32 = [0x20, 0x01, 0x0d, 0xb8]"

text \<open>The /64 of an index and its interface identifier, and the index read back from a prefix.\<close>

definition ipv6_of_index :: "u32 \<Rightarrow> 128 word \<times> bytes" where
  "ipv6_of_index n = (from_be (UE_IPV6_PREFIX_32 @ to_be 4 n @ replicate 8 0), replicate 4 0 @ to_be 4 n)"

definition index_of_ipv6 :: "128 word \<Rightarrow> u32" where
  "index_of_ipv6 pre = from_be (subslice 4 8 (to_be 16 pre))"

definition alloc_ue_ipv6 :: "U32Pool \<Rightarrow> (128 word \<times> bytes) option \<times> U32Pool" where
  "alloc_ue_ipv6 p = (case pool_alloc p of (n, p') \<Rightarrow> (map_option ipv6_of_index n, p'))"

definition release_ue_ipv6 :: "U32Pool \<Rightarrow> 128 word \<Rightarrow> U32Pool" where
  "release_ue_ipv6 p pre = pool_release p (index_of_ipv6 pre)"

lemma index_of_ipv6_of_index [simp]: "index_of_ipv6 (fst (ipv6_of_index n)) = n"
proof -
  have "to_be 16 (from_be (UE_IPV6_PREFIX_32 @ to_be 4 n @ replicate 8 0) :: 128 word)
      = UE_IPV6_PREFIX_32 @ to_be 4 n @ replicate 8 0"
    using to_be_from_be[where bs = "UE_IPV6_PREFIX_32 @ to_be 4 n @ replicate 8 0" and 'a = 128]
    by (simp add: UE_IPV6_PREFIX_32_def)
  then show ?thesis
    by (simp add: index_of_ipv6_def ipv6_of_index_def UE_IPV6_PREFIX_32_def subslice_def from_be_to_be)
qed

lemma ipv6_of_index_inj: "fst (ipv6_of_index m) = fst (ipv6_of_index n) \<Longrightarrow> m = n"
  by (metis index_of_ipv6_of_index)

subsection \<open>The GFBR budget\<close>

type_synonym rates = "u64 \<times> u64"

definition try_reserve_gfbr :: "rates \<Rightarrow> rates \<Rightarrow> rates \<Rightarrow> bool \<times> rates" where
  "try_reserve_gfbr budget r want =
    (if saturating_add (fst r) (fst want) > fst budget \<or> saturating_add (snd r) (snd want) > snd budget then (False, r)
     else (True, (fst r + fst want, snd r + snd want)))"

definition release_gfbr :: "rates \<Rightarrow> rates \<Rightarrow> rates" where
  "release_gfbr r x = (saturating_sub (fst r) (fst x), saturating_sub (snd r) (snd x))"

definition adjust_gfbr :: "rates \<Rightarrow> rates \<Rightarrow> rates \<Rightarrow> rates" where
  "adjust_gfbr r old new = (saturating_add (saturating_sub (fst r) (fst old)) (fst new),
     saturating_add (saturating_sub (snd r) (snd old)) (snd new))"

lemma reserve_one:
  fixes r w b :: u64
  assumes "\<not> saturating_add r w > b" "b \<noteq> - 1"
  shows "unat (r + w) = unat r + unat w" "unat r + unat w \<le> unat b"
proof -
  have "unat b \<noteq> unat (- 1 :: u64)" using assms(2) by (simp add: word_unat_eq_iff)
  then have "unat b \<noteq> 2 ^ 64 - 1" using unat_minus_one_word_eq[where 'a = 64] by simp
  then have "unat b < 2 ^ 64 - 1" using unsigned_less[of b, where ?'a = nat] by simp
  moreover have "min (unat r + unat w) (2 ^ 64 - 1) \<le> unat b"
    using assms(1) unat_saturating_add[of r w] by (simp add: word_less_nat_alt) linarith
  ultimately have "unat r + unat w \<le> unat b" "unat r + unat w < 2 ^ 64" by linarith+
  then show "unat (r + w) = unat r + unat w" "unat r + unat w \<le> unat b" by (simp_all add: unat_word_ariths)
qed

end
