(* ===== verification/Pcf_Policy.thy ===== *)
theory Pcf_Policy
  imports Keyed_Table Ip_Text
begin

section \<open>Session-management policy\<close>

text \<open>
  \<open>crates/sbi-core/src/policy.rs\<close> and \<open>npcf.rs\<close>: the policy decision of a session with its keyed maps,
  the partial updates the PCF sends, and the state of the PCF with its handlers. JSON, HTTP and the
  notification of the SMF are left out; what the UDR answers is an argument.
\<close>

subsection \<open>Partial updates of one attribute\<close>

datatype 'a FieldUpdate = Keep | Clear | Set 'a

fun fu_apply :: "'a FieldUpdate \<Rightarrow> 'a option \<Rightarrow> 'a option" where
  "fu_apply Keep current = current"
| "fu_apply Clear current = None"
| "fu_apply (Set v) current = Some v"

fun is_keep :: "'a FieldUpdate \<Rightarrow> bool" where
  "is_keep Keep = True"
| "is_keep _ = False"

definition fu_diff :: "'a option \<Rightarrow> 'a option \<Rightarrow> 'a FieldUpdate" where
  "fu_diff prev next = (case (prev = next, next) of
     (True, _) \<Rightarrow> Keep | (False, Some v) \<Rightarrow> Set v | (False, None) \<Rightarrow> Clear)"

lemma fu_apply_diff [simp]: "fu_apply (fu_diff prev next) prev = next"
  by (auto simp: fu_diff_def split: option.splits bool.splits)

lemma is_keep_diff [simp]: "is_keep (fu_diff prev next) \<longleftrightarrow> prev = next"
  by (auto simp: fu_diff_def split: option.splits bool.splits)

subsection \<open>The policy records\<close>

record GbrPolicy =
  gfbr_dl :: string
  gfbr_ul :: string
  mfbr_dl :: string
  mfbr_ul :: string

record PacketFilterPolicy =
  pf_protocol :: u8
  port_low :: u16
  port_high :: u16

datatype FlowStatus = Enabled | EnabledUplink | EnabledDownlink | Disabled | Removed

fun flow_gate :: "FlowStatus \<Rightarrow> bool \<times> bool" where
  "flow_gate Enabled = (True, True)"
| "flow_gate EnabledUplink = (True, False)"
| "flow_gate EnabledDownlink = (False, True)"
| "flow_gate Disabled = (False, False)"
| "flow_gate Removed = (False, False)"

record QosFlowPolicy =
  qf_qfi :: u8
  qf_five_qi :: u8
  qf_arp_priority :: u8
  qf_pre_empt_cap :: bool
  qf_pre_empt_vuln :: bool
  qf_gbr :: "GbrPolicy option"
  qf_filter :: "PacketFilterPolicy option"
  qf_ref_chg_data :: "string option"
  qf_flow_status :: FlowStatus

record ChargingData =
  rating_group :: u32
  metering_method :: "string option"
  online :: "bool option"
  offline :: "bool option"

record SessionAmbrPolicy =
  amb_uplink :: string
  amb_downlink :: string

text \<open>\<open>str::trim\<close> on ASCII text.\<close>

definition is_space :: "char \<Rightarrow> bool" where
  "is_space c = (c \<in> {CHR '' '', CHR 0x09, CHR 0x0A, CHR 0x0B, CHR 0x0C, CHR 0x0D})"

definition trim :: "string \<Rightarrow> string" where
  "trim s = rev (dropWhile is_space (rev (dropWhile is_space s)))"

definition unit_multiplier :: "string \<Rightarrow> nat option" where
  "unit_multiplier u = map_of [(''bps'', 1), (''Kbps'', 1000), (''Mbps'', 1000000), (''Gbps'', 1000000000), (''Tbps'', 1000000000000)] u"

definition bitrate_to_bps :: "string \<Rightarrow> u64 option" where
  "bitrate_to_bps s = (case split_once CHR '' '' (trim s) of
     None \<Rightarrow> None
   | Some (value, u) \<Rightarrow> (case parse_word value :: u64 option of
       None \<Rightarrow> None
     | Some v \<Rightarrow> (case unit_multiplier u of
         None \<Rightarrow> None
       | Some m \<Rightarrow> if unat v * m < 2 ^ 64 then Some (v * of_nat m) else None)))"

definition ambr_to_bps :: "SessionAmbrPolicy \<Rightarrow> (u64 \<times> u64) option" where
  "ambr_to_bps a = (case bitrate_to_bps (amb_uplink a) of None \<Rightarrow> None
   | Some u \<Rightarrow> (case bitrate_to_bps (amb_downlink a) of None \<Rightarrow> None | Some d \<Rightarrow> Some (u, d)))"

record SmPolicyContextData =
  pcx_supi :: string
  pcx_pdu_session_id :: u8
  pcx_dnn :: string
  pcx_snssai_sst :: "u8 option"
  pcx_snssai_sd :: "string option"
  pcx_notification_uri :: "string option"

record SessionRule =
  auth_sess_ambr :: "SessionAmbrPolicy option"

record QosData =
  qd_qfi :: u8
  qd_five_qi :: u8
  qd_arp_priority :: u8
  qd_pre_empt_cap :: bool
  qd_pre_empt_vuln :: bool
  qd_gbr :: "GbrPolicy option"

record PccRule =
  precedence :: u16
  flow_info :: "PacketFilterPolicy option"
  ref_qos_data :: "string option"
  ref_chg_data :: "string option"
  flow_status :: FlowStatus

record TrafficControlData =
  route_to_locs :: "string list"
  traffic_prefix :: "string option"

record TrafficInfluData =
  ti_dnn :: "string option"
  any_ue_ind :: bool
  ti_supis :: "string list"
  ti_route_to_locs :: "string list"
  ti_traffic_prefix :: "string option"

definition applies_to :: "TrafficInfluData \<Rightarrow> string \<Rightarrow> string \<Rightarrow> bool" where
  "applies_to d supi dnn = ((case ti_dnn d of None \<Rightarrow> True | Some x \<Rightarrow> x = dnn) \<and> (any_ue_ind d \<or> supi \<in> set (ti_supis d)))"

record AfInfluence =
  af_supi :: string
  af_dnn :: string
  af_prefix :: string
  af_dnai :: string

record SmPolicyDecision =
  session_rules :: "SessionRule hmap"
  pcc_rules :: "PccRule hmap"
  qos_descs :: "QosData hmap"
  charging_descs :: "ChargingData hmap"
  traffic_control_data :: "TrafficControlData hmap"

definition empty_decision :: SmPolicyDecision where
  "empty_decision = \<lparr>session_rules = [], pcc_rules = [], qos_descs = [], charging_descs = [], traffic_control_data = []\<rparr>"

subsection \<open>Reading a decision\<close>

fun find_map :: "('a \<Rightarrow> 'b option) \<Rightarrow> 'a list \<Rightarrow> 'b option" where
  "find_map f [] = None"
| "find_map f (x # xs) = (case f x of Some y \<Rightarrow> Some y | None \<Rightarrow> find_map f xs)"

definition session_ambr :: "SmPolicyDecision \<Rightarrow> SessionAmbrPolicy option" where
  "session_ambr d = find_map auth_sess_ambr (map snd (session_rules d))"

definition session_rules_for :: "SessionAmbrPolicy option \<Rightarrow> SessionRule hmap" where
  "session_rules_for a = (case a of Some x \<Rightarrow> [(''default'', \<lparr>auth_sess_ambr = Some x\<rparr>)] | None \<Rightarrow> [])"

text \<open>\<open>min_by_key\<close>: the first of the smallest elements.\<close>

fun min_by_key :: "('a \<Rightarrow> 'b::linorder) \<Rightarrow> 'a list \<Rightarrow> 'a option" where
  "min_by_key f [] = None"
| "min_by_key f (x # xs) = (case min_by_key f xs of None \<Rightarrow> Some x | Some y \<Rightarrow> if f y < f x then Some y else Some x)"

definition bound_rules :: "SmPolicyDecision \<Rightarrow> string \<Rightarrow> PccRule list" where
  "bound_rules d i = filter (\<lambda>r. ref_qos_data r = Some i) (map snd (pcc_rules d))"

definition bind_flow :: "QosData \<Rightarrow> PccRule \<Rightarrow> QosFlowPolicy" where
  "bind_flow q r = \<lparr>qf_qfi = qd_qfi q, qf_five_qi = qd_five_qi q, qf_arp_priority = qd_arp_priority q,
     qf_pre_empt_cap = qd_pre_empt_cap q, qf_pre_empt_vuln = qd_pre_empt_vuln q, qf_gbr = qd_gbr q,
     qf_filter = flow_info r, qf_ref_chg_data = ref_chg_data r, qf_flow_status = flow_status r\<rparr>"

definition qos_flows :: "SmPolicyDecision \<Rightarrow> QosFlowPolicy list" where
  "qos_flows d = sort_key qf_qfi (List.map_filter (\<lambda>(i, q). map_option (bind_flow q) (min_by_key precedence (bound_rules d i))) (qos_descs d))"

definition qos_id :: "u8 \<Rightarrow> string" where
  "qos_id q = ''qos-'' @ show_word q"

definition pcc_id :: "u8 \<Rightarrow> string" where
  "pcc_id q = ''pcc-'' @ show_word q"

definition set_flow :: "SmPolicyDecision \<Rightarrow> QosFlowPolicy \<Rightarrow> SmPolicyDecision" where
  "set_flow d f = d
     \<lparr>qos_descs := hm_insert (qos_id (qf_qfi f)) \<lparr>qd_qfi = qf_qfi f, qd_five_qi = qf_five_qi f, qd_arp_priority = qf_arp_priority f,
        qd_pre_empt_cap = qf_pre_empt_cap f, qd_pre_empt_vuln = qf_pre_empt_vuln f, qd_gbr = qf_gbr f\<rparr> (qos_descs d),
      pcc_rules := hm_insert (pcc_id (qf_qfi f)) \<lparr>precedence = ucast (qf_qfi f), flow_info = qf_filter f,
        ref_qos_data = Some (qos_id (qf_qfi f)), ref_chg_data = qf_ref_chg_data f, flow_status = qf_flow_status f\<rparr> (pcc_rules d)\<rparr>"

definition set_flows :: "SmPolicyDecision \<Rightarrow> QosFlowPolicy list \<Rightarrow> SmPolicyDecision" where
  "set_flows d fs = foldl set_flow d fs"

definition rating_group_for :: "SmPolicyDecision \<Rightarrow> u8 \<Rightarrow> u32 option" where
  "rating_group_for d qfi = (case find (\<lambda>(_, q). qd_qfi q = qfi) (qos_descs d) of
     None \<Rightarrow> None
   | Some (i, _) \<Rightarrow> (case find_map ref_chg_data (bound_rules d i) of
       None \<Rightarrow> None
     | Some chg \<Rightarrow> map_option rating_group (map_of (charging_descs d) chg)))"

definition influence_route :: "SmPolicyDecision \<Rightarrow> (string \<times> string) option" where
  "influence_route d = find_map (\<lambda>tc. case route_to_locs tc of [] \<Rightarrow> None
     | dnai # _ \<Rightarrow> map_option (\<lambda>p. (p, dnai)) (traffic_prefix tc)) (map snd (traffic_control_data d))"

subsection \<open>Partial updates of a decision\<close>

record SmPolicyUpdate =
  up_session_rules :: "SessionRule option hmap"
  up_pcc_rules :: "PccRule option hmap"
  up_qos_descs :: "QosData option hmap"
  up_charging_descs :: "ChargingData option hmap"
  up_traffic_control_data :: "TrafficControlData option hmap"

definition diff_keyed :: "'a hmap \<Rightarrow> 'a hmap \<Rightarrow> 'a option hmap" where
  "diff_keyed prev next =
    (let changed = foldl (\<lambda>delta (i, v). if map_of prev i \<noteq> Some v then hm_insert i (Some v) delta else delta) [] next
     in foldl (\<lambda>delta i. if map_of next i = None then hm_insert i None delta else delta) changed (map fst prev))"

definition apply_change :: "'a hmap \<Rightarrow> string \<times> 'a option \<Rightarrow> 'a hmap" where
  "apply_change m e = (case snd e of Some v \<Rightarrow> hm_insert (fst e) v m | None \<Rightarrow> hm_remove (fst e) m)"

definition apply_keyed :: "'a hmap \<Rightarrow> 'a option hmap \<Rightarrow> 'a hmap" where
  "apply_keyed m delta = foldl apply_change m delta"

definition diff :: "SmPolicyDecision \<Rightarrow> SmPolicyDecision \<Rightarrow> SmPolicyUpdate option" where
  "diff prev next =
    (let s = diff_keyed (session_rules prev) (session_rules next);
         p = diff_keyed (pcc_rules prev) (pcc_rules next);
         q = diff_keyed (qos_descs prev) (qos_descs next);
         c = diff_keyed (charging_descs prev) (charging_descs next);
         t = diff_keyed (traffic_control_data prev) (traffic_control_data next)
     in if s \<noteq> [] \<or> p \<noteq> [] \<or> q \<noteq> [] \<or> c \<noteq> [] \<or> t \<noteq> []
        then Some \<lparr>up_session_rules = s, up_pcc_rules = p, up_qos_descs = q, up_charging_descs = c, up_traffic_control_data = t\<rparr>
        else None)"

definition no_update :: SmPolicyUpdate where
  "no_update = \<lparr>up_session_rules = [], up_pcc_rules = [], up_qos_descs = [], up_charging_descs = [], up_traffic_control_data = []\<rparr>"

definition apply_update :: "SmPolicyDecision \<Rightarrow> SmPolicyUpdate \<Rightarrow> SmPolicyDecision" where
  "apply_update d u = \<lparr>session_rules = apply_keyed (session_rules d) (up_session_rules u),
     pcc_rules = apply_keyed (pcc_rules d) (up_pcc_rules u), qos_descs = apply_keyed (qos_descs d) (up_qos_descs u),
     charging_descs = apply_keyed (charging_descs d) (up_charging_descs u),
     traffic_control_data = apply_keyed (traffic_control_data d) (up_traffic_control_data u)\<rparr>"

subsection \<open>The PCF\<close>

record PolicyConfig =
  per_dnn :: "SmPolicyDecision hmap"
  default_decision :: SmPolicyDecision

definition with_dnn :: "PolicyConfig \<Rightarrow> string \<Rightarrow> SmPolicyDecision \<Rightarrow> PolicyConfig" where
  "with_dnn c dnn d = c\<lparr>per_dnn := hm_insert dnn d (per_dnn c)\<rparr>"

definition decide :: "PolicyConfig \<Rightarrow> string \<Rightarrow> SmPolicyDecision" where
  "decide c dnn = (case map_of (per_dnn c) dnn of Some d \<Rightarrow> d | None \<Rightarrow> default_decision c)"

record PcfState =
  pcf_config :: PolicyConfig
  associations :: "(SmPolicyContextData \<times> SmPolicyDecision) hmap"
  pcf_next_id :: u64
  influences :: "AfInfluence hmap"

definition pcf_new :: "PolicyConfig \<Rightarrow> PcfState" where
  "pcf_new c = \<lparr>pcf_config = c, associations = [], pcf_next_id = 1, influences = []\<rparr>"

text \<open>What the UDR answers: the policy of the subscriber, if it provisions a well-formed one, and the
  influence documents (\<open>None\<close> for a malformed one). Without a UDR both are empty.\<close>

record udr_view =
  udr_policy :: "PolicyConfig option"
  udr_influences :: "(string \<times> TrafficInfluData option) list"

definition base_decision_for :: "PcfState \<Rightarrow> udr_view \<Rightarrow> SmPolicyContextData \<Rightarrow> SmPolicyDecision" where
  "base_decision_for s u cx = (case udr_policy u of Some c \<Rightarrow> decide c (pcx_dnn cx) | None \<Rightarrow> decide (pcf_config s) (pcx_dnn cx))"

definition steer :: "string \<Rightarrow> string \<Rightarrow> string \<Rightarrow> SmPolicyDecision \<Rightarrow> SmPolicyDecision" where
  "steer key pre dnai d = d\<lparr>traffic_control_data :=
     hm_insert key \<lparr>route_to_locs = [dnai], traffic_prefix = Some pre\<rparr> (traffic_control_data d)\<rparr>"

definition apply_influences :: "PcfState \<Rightarrow> SmPolicyContextData \<Rightarrow> SmPolicyDecision \<Rightarrow> SmPolicyDecision" where
  "apply_influences s cx d = foldl (\<lambda>d (i, fl). if af_supi fl = pcx_supi cx \<and> af_dnn fl = pcx_dnn cx
     then steer (''af-'' @ i) (af_prefix fl) (af_dnai fl) d else d) d (influences s)"

definition apply_group_influences :: "udr_view \<Rightarrow> SmPolicyContextData \<Rightarrow> SmPolicyDecision \<Rightarrow> SmPolicyDecision" where
  "apply_group_influences u cx d = foldl (\<lambda>d (i, doc). case doc of
       None \<Rightarrow> d
     | Some t \<Rightarrow> if \<not> applies_to t (pcx_supi cx) (pcx_dnn cx) then d
         else (case (ti_traffic_prefix t, ti_route_to_locs t) of
             (Some p, dnai # _) \<Rightarrow> steer (''influence-'' @ i) p dnai d
           | _ \<Rightarrow> d)) d (udr_influences u)"

definition decide_for :: "PcfState \<Rightarrow> udr_view \<Rightarrow> SmPolicyContextData \<Rightarrow> SmPolicyDecision" where
  "decide_for s u cx = apply_group_influences u cx (apply_influences s cx (base_decision_for s u cx))"

definition notify_uri_for :: "PcfState \<Rightarrow> string \<Rightarrow> string \<Rightarrow> string option" where
  "notify_uri_for s supi dnn = (case find (\<lambda>(_, cx, _). pcx_supi cx = supi \<and> pcx_dnn cx = dnn) (associations s) of
     None \<Rightarrow> None | Some (_, cx, _) \<Rightarrow> pcx_notification_uri cx)"

definition create_sm_policy :: "PcfState \<Rightarrow> udr_view \<Rightarrow> SmPolicyContextData \<Rightarrow> (string \<times> SmPolicyDecision) \<times> PcfState" where
  "create_sm_policy s u cx =
    (let d = decide_for s u cx; i = show_word (pcf_next_id s)
     in ((i, d), s\<lparr>pcf_next_id := pcf_next_id s + 1, associations := hm_insert i (cx, d) (associations s)\<rparr>))"

definition update_sm_policy :: "PcfState \<Rightarrow> udr_view \<Rightarrow> string \<Rightarrow> SmPolicyUpdate option \<times> PcfState" where
  "update_sm_policy s u i = (case map_of (associations s) i of
     None \<Rightarrow> (None, s)
   | Some (cx, prev) \<Rightarrow>
       (let fresh = decide_for s u cx;
            delta = (case diff prev fresh of Some x \<Rightarrow> x | None \<Rightarrow> no_update)
        in (Some delta, s\<lparr>associations := hm_update i (\<lambda>e. (fst e, fresh)) (associations s)\<rparr>)))"

definition delete_sm_policy :: "PcfState \<Rightarrow> string \<Rightarrow> bool \<times> PcfState" where
  "delete_sm_policy s i = (map_of (associations s) i \<noteq> None, s\<lparr>associations := hm_remove i (associations s)\<rparr>)"

text \<open>An application session: the AF's supi, network, prefix and first location, all required. The
  handlers return the URI to notify.\<close>

record AppSessionContextReqData =
  asc_supi :: "string option"
  asc_dnn :: "string option"
  asc_route_to_locs :: "string list option"
  asc_traffic_prefix :: "string option"

definition create_app_session :: "PcfState \<Rightarrow> AppSessionContextReqData \<Rightarrow> (string \<times> string option) option \<times> PcfState" where
  "create_app_session s r =
    (case (asc_supi r, asc_dnn r, asc_traffic_prefix r, asc_route_to_locs r) of
       (Some supi, Some dnn, Some pre, Some (dnai # _)) \<Rightarrow>
         (let i = show_word (pcf_next_id s);
              s' = s\<lparr>pcf_next_id := pcf_next_id s + 1, influences := hm_insert i
                \<lparr>af_supi = supi, af_dnn = dnn, af_prefix = pre, af_dnai = dnai\<rparr> (influences s)\<rparr>
          in (Some (i, notify_uri_for s' supi dnn), s'))
     | _ \<Rightarrow> (None, s))"

definition delete_app_session :: "PcfState \<Rightarrow> string \<Rightarrow> string option \<times> PcfState" where
  "delete_app_session s i = (case map_of (influences s) i of
     None \<Rightarrow> (None, s)
   | Some fl \<Rightarrow> (let s' = s\<lparr>influences := hm_remove i (influences s)\<rparr> in (notify_uri_for s' (af_supi fl) (af_dnn fl), s')))"

subsection \<open>The keyed delta\<close>

lemma changed_entries:
  assumes "hm_wf next"
  shows "map_of (foldl (\<lambda>delta (i, v). if map_of prev i \<noteq> Some v then hm_insert i (Some v) delta else delta) delta next) k
    = (case map_of next k of Some v \<Rightarrow> if map_of prev k \<noteq> Some v then Some (Some v) else map_of delta k | None \<Rightarrow> map_of delta k)"
  using assms
proof (induction "next" arbitrary: delta)
  case (Cons e es)
  then have "hm_wf es" "fst e \<notin> fst ` set es" by (auto simp: hm_wf_def)
  then show ?case using Cons.IH
    by (cases e) (auto simp: hm.get_put map_of_eq_None_iff[symmetric] split: option.splits)
qed simp

lemma removed_entries:
  "map_of (foldl (\<lambda>delta i. if map_of next i = None then hm_insert i None delta else delta) delta ks) k
    = (if k \<in> set ks \<and> map_of next k = None then Some None else map_of delta k)"
  by (induction ks arbitrary: delta) (auto simp: hm.get_put)

lemma hm_wf_foldl: "hm_wf m \<Longrightarrow> (\<And>m x. hm_wf m \<Longrightarrow> hm_wf (g m x)) \<Longrightarrow> hm_wf (foldl g m xs)"
  by (induction xs arbitrary: m) auto

lemma diff_keyed_wf [simp]: "hm_wf (diff_keyed prev next)"
  unfolding diff_keyed_def Let_def by (intro hm_wf_foldl) auto

lemma map_of_diff_keyed:
  assumes "hm_wf next"
  shows "map_of (diff_keyed prev next) k = (case map_of next k of
     Some v \<Rightarrow> if map_of prev k = Some v then None else Some (Some v)
   | None \<Rightarrow> if map_of prev k = None then None else Some None)"
  using changed_entries[OF assms, of prev "[]" k] map_of_eq_None_iff[of prev k]
  by (auto simp: diff_keyed_def Let_def removed_entries split: option.splits)

lemma map_of_apply_keyed:
  assumes "hm_wf delta"
  shows "map_of (apply_keyed m delta) k = (case map_of delta k of None \<Rightarrow> map_of m k | Some c \<Rightarrow> c)"
  using assms unfolding apply_keyed_def
proof (induction delta arbitrary: m)
  case (Cons e es)
  then have "hm_wf es" "fst e \<notin> fst ` set es" by (auto simp: hm_wf_def)
  then show ?case using Cons.IH
    by (cases e) (auto simp: apply_change_def hm.get_put hm.get_del map_of_eq_None_iff[symmetric] split: option.splits)
qed simp

lemma apply_diff_keyed: "hm_wf next \<Longrightarrow> map_of (apply_keyed prev (diff_keyed prev next)) = map_of next"
  by (rule ext) (auto simp: map_of_apply_keyed map_of_diff_keyed split: option.splits)

lemma map_of_empty_iff: "map_of m = Map.empty \<longleftrightarrow> m = []"
  by (cases m) auto

lemma diff_keyed_empty: "hm_wf next \<Longrightarrow> diff_keyed prev next = [] \<longleftrightarrow> map_of prev = map_of next"
proof -
  assume w: "hm_wf next"
  have pt: "map_of (diff_keyed prev next) k = None \<longleftrightarrow> map_of prev k = map_of next k" for k
    by (cases "map_of next k"; cases "map_of prev k") (auto simp: map_of_diff_keyed[OF w])
  have "diff_keyed prev next = [] \<longleftrightarrow> (\<forall>k. map_of (diff_keyed prev next) k = None)"
    unfolding map_of_empty_iff[symmetric] by (auto simp: fun_eq_iff)
  also have "\<dots> \<longleftrightarrow> (\<forall>k. map_of prev k = map_of next k)"
    using pt by simp
  finally show ?thesis by (simp add: fun_eq_iff)
qed

lemma apply_keyed_Nil [simp]: "apply_keyed m [] = m"
  by (simp add: apply_keyed_def)

text \<open>Decisions are compared as the sources compare them: map by map, whatever the order of the
  entries.\<close>

definition same_decision :: "SmPolicyDecision \<Rightarrow> SmPolicyDecision \<Rightarrow> bool" where
  "same_decision a b = (map_of (session_rules a) = map_of (session_rules b) \<and> map_of (pcc_rules a) = map_of (pcc_rules b)
     \<and> map_of (qos_descs a) = map_of (qos_descs b) \<and> map_of (charging_descs a) = map_of (charging_descs b)
     \<and> map_of (traffic_control_data a) = map_of (traffic_control_data b))"

definition decision_wf :: "SmPolicyDecision \<Rightarrow> bool" where
  "decision_wf d = (hm_wf (session_rules d) \<and> hm_wf (pcc_rules d) \<and> hm_wf (qos_descs d) \<and> hm_wf (charging_descs d)
     \<and> hm_wf (traffic_control_data d))"

lemma diff_None: "decision_wf next \<Longrightarrow> diff prev next = None \<longleftrightarrow> same_decision prev next"
  by (auto simp: diff_def Let_def decision_wf_def same_decision_def diff_keyed_empty)

lemma keyed_cong: "map_of a = map_of b \<Longrightarrow> hm_wf delta \<Longrightarrow> map_of (apply_keyed a delta) = map_of (apply_keyed b delta)"
  by (rule ext) (simp add: map_of_apply_keyed split: option.split)

lemma apply_no_update [simp]: "apply_update d no_update = d"
  by (cases d) (simp add: apply_update_def no_update_def)

lemma apply_diff:
  assumes "decision_wf next" "same_decision copy prev"
  shows "same_decision (apply_update copy (case diff prev next of Some u \<Rightarrow> u | None \<Rightarrow> no_update)) next"
proof (cases "diff prev next")
  case None
  then have "same_decision prev next" using assms(1) by (simp add: diff_None)
  then show ?thesis using assms(2) None by (simp add: same_decision_def)
next
  case (Some u)
  then have u: "u = \<lparr>up_session_rules = diff_keyed (session_rules prev) (session_rules next),
      up_pcc_rules = diff_keyed (pcc_rules prev) (pcc_rules next), up_qos_descs = diff_keyed (qos_descs prev) (qos_descs next),
      up_charging_descs = diff_keyed (charging_descs prev) (charging_descs next),
      up_traffic_control_data = diff_keyed (traffic_control_data prev) (traffic_control_data next)\<rparr>"
    by (auto simp: diff_def Let_def split: if_splits)
  have k: "map_of (apply_keyed a (diff_keyed b c)) = map_of c" if "map_of a = map_of b" "hm_wf c" for a b c :: "'x hmap"
    using keyed_cong[OF that(1), of "diff_keyed b c"] apply_diff_keyed[OF that(2), of b] by simp
  show ?thesis using assms unfolding Some u same_decision_def decision_wf_def apply_update_def by (simp add: k)
qed

text \<open>Every decision of the PCF has well-formed maps when its sources do.\<close>

definition config_wf :: "PolicyConfig \<Rightarrow> bool" where
  "config_wf c = (decision_wf (default_decision c) \<and> (\<forall>d\<in>snd ` set (per_dnn c). decision_wf d))"

lemma decide_wf: "config_wf c \<Longrightarrow> decision_wf (decide c dnn)"
  by (force simp: decide_def config_wf_def split: option.split dest: map_of_SomeD)

lemma steer_wf [simp]: "decision_wf d \<Longrightarrow> decision_wf (steer k p n d)"
  by (simp add: decision_wf_def steer_def)

lemma decision_foldl: "decision_wf d \<Longrightarrow> (\<And>d x. decision_wf d \<Longrightarrow> decision_wf (g d x)) \<Longrightarrow> decision_wf (foldl g d xs)"
  by (induction xs arbitrary: d) auto

definition sources_wf :: "PcfState \<Rightarrow> udr_view \<Rightarrow> bool" where
  "sources_wf s u = (config_wf (pcf_config s) \<and> (\<forall>c. udr_policy u = Some c \<longrightarrow> config_wf c))"

lemma decide_for_wf: "sources_wf s u \<Longrightarrow> decision_wf (decide_for s u cx)"
  unfolding decide_for_def apply_group_influences_def apply_influences_def
  by (intro decision_foldl) (auto simp: sources_wf_def base_decision_for_def decide_wf split: option.split list.split)

text \<open>C26: partial policy updates. When the SMF's copy of the policy agrees with the decision the PCF
  stored, merging the delta of an update gives the SMF exactly the decision the PCF reaches from the
  current policy, which is also the one it stores; the delta is empty exactly when nothing changed.\<close>

theorem policy_update_in_sync:
  assumes "map_of (associations s) i = Some (cx, prev)" "same_decision copy prev" "sources_wf s u"
    and "update_sm_policy s u i = (Some delta, s')"
  shows "same_decision (apply_update copy delta) (decide_for s u cx)
    \<and> map_of (associations s') i = Some (cx, decide_for s u cx)
    \<and> (delta = no_update \<longleftrightarrow> same_decision prev (decide_for s u cx))"
proof -
  have w: "decision_wf (decide_for s u cx)" using assms(3) by (rule decide_for_wf)
  have d: "delta = (case diff prev (decide_for s u cx) of Some x \<Rightarrow> x | None \<Rightarrow> no_update)"
    and s': "s' = s\<lparr>associations := hm_update i (\<lambda>e. (fst e, decide_for s u cx)) (associations s)\<rparr>"
    using assms(1,4) by (auto simp: update_sm_policy_def Let_def)
  have "diff prev (decide_for s u cx) \<noteq> Some no_update" by (simp add: diff_def Let_def no_update_def)
  then have "delta = no_update \<longleftrightarrow> same_decision prev (decide_for s u cx)"
    using d diff_None[OF w, of prev] by (auto split: option.splits)
  then show ?thesis using apply_diff[OF w assms(2)] d s' assms(1) by (simp add: hm.get_upd)
qed

text \<open>C33: a lost answer is never repaired. The PCF stores the new decision when it computes the delta; if
  its answer does not reach the SMF, every later update under the same policy is empty, so the SMF
  keeps a policy that differs from the one in force.\<close>

theorem lost_policy_update:
  assumes "map_of (associations s) i = Some (cx, prev)" "same_decision copy prev" "sources_wf s u"
    and "\<not> same_decision prev (decide_for s u cx)"
    and "update_sm_policy s u i = (Some lost, s1)" "update_sm_policy s1 u i = (Some delta, s2)"
  shows "delta = no_update \<and> \<not> same_decision (apply_update copy delta) (decide_for s2 u cx)"
proof -
  let ?fresh = "decide_for s u cx"
  have s1: "s1 = s\<lparr>associations := hm_update i (\<lambda>e. (fst e, ?fresh)) (associations s)\<rparr>"
    using assms(1,5) by (auto simp: update_sm_policy_def Let_def)
  have same: "decide_for (s\<lparr>associations := a\<rparr>) u cx = decide_for s u cx" for a
    by (simp add: decide_for_def apply_influences_def base_decision_for_def split: option.split)
  have a1: "map_of (associations s1) i = Some (cx, ?fresh)" using s1 assms(1) by (simp add: hm.get_upd)
  have "diff ?fresh ?fresh = None"
    using diff_None[OF decide_for_wf[OF assms(3)]] by (simp add: same_decision_def)
  then have delta: "delta = no_update" and s2: "s2 = s1\<lparr>associations := hm_update i (\<lambda>e. (fst e, ?fresh)) (associations s1)\<rparr>"
    using assms(6) a1 same s1 by (auto simp: update_sm_policy_def Let_def)
  have "decide_for s2 u cx = ?fresh" using s1 s2 same by simp
  then show ?thesis using assms(2,4) delta by (auto simp: same_decision_def)
qed

definition demo_ambr :: SessionAmbrPolicy where
  "demo_ambr = \<lparr>amb_uplink = ''1 Gbps'', amb_downlink = ''2 Gbps''\<rparr>"

definition demo_pcf :: PcfState where
  "demo_pcf = \<lparr>pcf_config = \<lparr>per_dnn = [], default_decision = empty_decision\<lparr>session_rules := session_rules_for (Some demo_ambr)\<rparr>\<rparr>,
     associations = [(''1'', \<lparr>pcx_supi = ''imsi-1'', pcx_pdu_session_id = 1, pcx_dnn = ''internet'', pcx_snssai_sst = None,
        pcx_snssai_sd = None, pcx_notification_uri = None\<rparr>, empty_decision)], pcf_next_id = 2, influences = []\<rparr>"

lemma demo_pcf_wf: "sources_wf demo_pcf \<lparr>udr_policy = None, udr_influences = []\<rparr>"
  by (simp add: sources_wf_def config_wf_def demo_pcf_def empty_decision_def decision_wf_def session_rules_for_def hm_wf_def)

lemma demo_pcf_assoc: "map_of (associations demo_pcf) ''1'' = Some (\<lparr>pcx_supi = ''imsi-1'', pcx_pdu_session_id = 1, pcx_dnn = ''internet'',
   pcx_snssai_sst = None, pcx_snssai_sd = None, pcx_notification_uri = None\<rparr>, empty_decision)"
  by (simp add: demo_pcf_def)

lemma same_refl: "same_decision d d"
  by (simp add: same_decision_def)

theorem policy_update_in_sync_witness:
  "same_decision (apply_update empty_decision (the (fst (update_sm_policy demo_pcf \<lparr>udr_policy = None, udr_influences = []\<rparr> ''1''))))
     (decide_for demo_pcf \<lparr>udr_policy = None, udr_influences = []\<rparr> (fst (the (map_of (associations demo_pcf) ''1''))))"
proof -
  obtain delta s' where u: "update_sm_policy demo_pcf \<lparr>udr_policy = None, udr_influences = []\<rparr> ''1'' = (Some delta, s')"
    by (simp add: update_sm_policy_def demo_pcf_assoc Let_def)
  show ?thesis using policy_update_in_sync[OF demo_pcf_assoc same_refl demo_pcf_wf u] u by (simp add: demo_pcf_assoc)
qed

theorem lost_policy_update_witness:
  "fst (update_sm_policy (snd (update_sm_policy demo_pcf \<lparr>udr_policy = None, udr_influences = []\<rparr> ''1'')) \<lparr>udr_policy = None, udr_influences = []\<rparr> ''1'')
   = Some no_update"
proof -
  let ?u = "\<lparr>udr_policy = None, udr_influences = []\<rparr>"
  obtain d1 s1 where u1: "update_sm_policy demo_pcf ?u ''1'' = (Some d1, s1)"
    by (simp add: update_sm_policy_def demo_pcf_assoc Let_def)
  have "map_of (associations s1) ''1'' \<noteq> None"
    using policy_update_in_sync[OF demo_pcf_assoc same_refl demo_pcf_wf u1] by simp
  then obtain d2 s2 where u2: "update_sm_policy s1 ?u ''1'' = (Some d2, s2)"
    by (auto simp: update_sm_policy_def Let_def)
  have "\<not> same_decision empty_decision (decide_for demo_pcf ?u (fst (the (map_of (associations demo_pcf) ''1''))))"
    by (simp add: same_decision_def decide_for_def apply_group_influences_def apply_influences_def base_decision_for_def decide_def
        demo_pcf_def empty_decision_def session_rules_for_def fun_eq_iff)
  then show ?thesis using lost_policy_update[OF demo_pcf_assoc same_refl demo_pcf_wf _ u1 u2] u1 u2
    by (simp add: demo_pcf_assoc)
qed

subsection \<open>Flows\<close>

lemma show_word_inj: "show_word a = show_word b \<longleftrightarrow> a = (b :: 'a::len word)"
  by (metis option.inject parse_show_word)

lemma ids_inj [simp]: "qos_id a = qos_id b \<longleftrightarrow> a = b" "pcc_id a = pcc_id b \<longleftrightarrow> a = b"
  by (simp_all add: qos_id_def pcc_id_def show_word_inj)

definition qos_of :: "QosFlowPolicy \<Rightarrow> string \<times> QosData" where
  "qos_of f = (qos_id (qf_qfi f), \<lparr>qd_qfi = qf_qfi f, qd_five_qi = qf_five_qi f, qd_arp_priority = qf_arp_priority f,
     qd_pre_empt_cap = qf_pre_empt_cap f, qd_pre_empt_vuln = qf_pre_empt_vuln f, qd_gbr = qf_gbr f\<rparr>)"

definition rule_of :: "QosFlowPolicy \<Rightarrow> string \<times> PccRule" where
  "rule_of f = (pcc_id (qf_qfi f), \<lparr>precedence = ucast (qf_qfi f), flow_info = qf_filter f,
     ref_qos_data = Some (qos_id (qf_qfi f)), ref_chg_data = qf_ref_chg_data f, flow_status = qf_flow_status f\<rparr>)"

lemma set_flows_fresh:
  assumes "distinct (map qf_qfi fs)" "qos_descs d = []" "pcc_rules d = []"
  shows "qos_descs (set_flows d fs) = map qos_of fs \<and> pcc_rules (set_flows d fs) = map rule_of fs"
  using assms(1)
proof (induction fs rule: rev_induct)
  case Nil
  then show ?case using assms by (simp add: set_flows_def)
next
  case (snoc f fs)
  have n: "map_of (map qos_of fs) (qos_id (qf_qfi f)) = None" "map_of (map rule_of fs) (pcc_id (qf_qfi f)) = None"
    using snoc.prems by (auto simp: map_of_eq_None_iff qos_of_def rule_of_def)
  have "qos_descs (set_flows d fs) = map qos_of fs" "pcc_rules (set_flows d fs) = map rule_of fs" using snoc by auto
  then have "qos_descs (set_flow (set_flows d fs) f) = map qos_of fs @ [qos_of f]"
      "pcc_rules (set_flow (set_flows d fs) f) = map rule_of fs @ [rule_of f]"
    using n by (simp_all add: set_flow_def hm_insert_def qos_of_def rule_of_def)
  then show ?case by (simp add: set_flows_def)
qed

lemma filter_unique: "distinct (map g xs) \<Longrightarrow> x \<in> set xs \<Longrightarrow> filter (\<lambda>y. g y = g x) xs = [x]"
proof (induction xs)
  case (Cons y ys)
  show ?case
  proof (cases "x = y")
    case True
    then have "filter (\<lambda>z. g z = g x) ys = []" using Cons.prems by (auto simp: filter_empty_conv image_iff)
    then show ?thesis using True by simp
  next
    case False
    then show ?thesis using Cons by auto
  qed
qed simp

lemma qos_flows_of_fresh:
  assumes "distinct (map qf_qfi fs)" "qos_descs d = map qos_of fs" "pcc_rules d = map rule_of fs"
  shows "qos_flows d = sort_key qf_qfi fs"
proof -
  have b: "bound_rules d (qos_id (qf_qfi f)) = [snd (rule_of f)]" if "f \<in> set fs" for f
  proof -
    have "bound_rules d (qos_id (qf_qfi f)) = map (snd \<circ> rule_of) (filter (\<lambda>g. qf_qfi g = qf_qfi f) fs)"
      by (simp add: bound_rules_def assms(3) filter_map comp_def rule_of_def)
    then show ?thesis using filter_unique[OF assms(1) that] by simp
  qed
  have "List.map_filter (\<lambda>(i, q). map_option (bind_flow q) (min_by_key precedence (bound_rules d i))) (map qos_of fs) = map (\<lambda>f. f) fs"
    by (rule map_filter_map_Some) (auto simp: qos_of_def b[unfolded qos_of_def] bind_flow_def rule_of_def)
  then show ?thesis by (simp add: qos_flows_def assms(2))
qed

text \<open>C32: QoS-flow binding undoes the flow bridge. Populating a decision from flows with distinct QFIs and
  reading its flows back gives the same flows, every attribute included, in the order of their QFIs.\<close>

theorem flow_binding_roundtrip:
  assumes "distinct (map qf_qfi fs)"
  shows "qos_flows (set_flows empty_decision fs) = sort_key qf_qfi fs"
  using set_flows_fresh[OF assms, of empty_decision] qos_flows_of_fresh[OF assms] by (simp add: empty_decision_def)

theorem flow_binding_roundtrip_witness:
  "qos_flows (set_flows empty_decision [\<lparr>qf_qfi = 2, qf_five_qi = 1, qf_arp_priority = 5, qf_pre_empt_cap = True,
      qf_pre_empt_vuln = False, qf_gbr = None, qf_filter = None, qf_ref_chg_data = None, qf_flow_status = Enabled\<rparr>])
   = [\<lparr>qf_qfi = 2, qf_five_qi = 1, qf_arp_priority = 5, qf_pre_empt_cap = True,
      qf_pre_empt_vuln = False, qf_gbr = None, qf_filter = None, qf_ref_chg_data = None, qf_flow_status = Enabled\<rparr>]"
  using flow_binding_roundtrip[of "[\<lparr>qf_qfi = 2, qf_five_qi = 1, qf_arp_priority = 5, qf_pre_empt_cap = True,
      qf_pre_empt_vuln = False, qf_gbr = None, qf_filter = None, qf_ref_chg_data = None, qf_flow_status = Enabled\<rparr>]"] by simp

end
