(* ===== verification/Smf_Flows.thy ===== *)
theory Smf_Flows
  imports Pcf_Policy Pfcp_N4_Session
begin

section \<open>From a policy decision to the user plane\<close>

text \<open>
  The pure part of \<open>nf/nf-smf/src/pdu_session.rs\<close> between the PCF and the UPF: the flows, rates and
  guaranteed bit rates of a decision, the difference of two sets of flows, the charging container of
  a usage volume, and the negotiation of the PDU session type.
\<close>

subsection \<open>Definitions\<close>

definition gbr_sum :: "u64 \<times> u64 \<Rightarrow> GbrPolicy \<Rightarrow> u64 \<times> u64" where
  "gbr_sum acc g = (saturating_add (fst acc) (case bitrate_to_bps (gfbr_dl g) of Some v \<Rightarrow> v | None \<Rightarrow> 0),
     saturating_add (snd acc) (case bitrate_to_bps (gfbr_ul g) of Some v \<Rightarrow> v | None \<Rightarrow> 0))"

definition decision_gfbr :: "SmPolicyDecision \<Rightarrow> u64 \<times> u64" where
  "decision_gfbr d = foldl gbr_sum (0, 0) (List.map_filter qf_gbr (qos_flows d))"

definition flow_qer_of :: "QosFlowPolicy \<Rightarrow> flow_qer option" where
  "flow_qer_of f = (case qf_gbr f of None \<Rightarrow> None | Some g \<Rightarrow>
    (case qf_filter f of None \<Rightarrow> None | Some flt \<Rightarrow>
      (case bitrate_to_bps (mfbr_dl g) of None \<Rightarrow> None | Some dl \<Rightarrow>
        (case bitrate_to_bps (mfbr_ul g) of None \<Rightarrow> None | Some ul \<Rightarrow>
          Some \<lparr>fq_qfi = qf_qfi f, fq_filter = transport (pf_protocol flt) (port_low flt) (port_high flt),
            fq_mfbr_dl_bps = dl, fq_mfbr_ul_bps = ul,
            fq_gate = \<lparr>gt_uplink = fst (flow_gate (qf_flow_status f)), gt_downlink = snd (flow_gate (qf_flow_status f))\<rparr>\<rparr>))))"

definition decision_flow_qers :: "SmPolicyDecision \<Rightarrow> flow_qer list" where
  "decision_flow_qers d = List.map_filter flow_qer_of (qos_flows d)"

text \<open>The three lists of \<open>diff_flows\<close>: the flows to create, to update, and the QFIs to remove.\<close>

definition needs_create :: "flow_qer list \<Rightarrow> flow_qer \<Rightarrow> bool" where
  "needs_create old n = (case find (\<lambda>x. fq_qfi x = fq_qfi n) old of
     None \<Rightarrow> True | Some x \<Rightarrow> fq_filter x \<noteq> fq_filter n)"

definition needs_update :: "flow_qer list \<Rightarrow> flow_qer \<Rightarrow> bool" where
  "needs_update old n = (case find (\<lambda>x. fq_qfi x = fq_qfi n) old of
     None \<Rightarrow> False
   | Some x \<Rightarrow> fq_filter x = fq_filter n
       \<and> (fq_mfbr_dl_bps x, fq_mfbr_ul_bps x, fq_gate x) \<noteq> (fq_mfbr_dl_bps n, fq_mfbr_ul_bps n, fq_gate n))"

definition diff_flows :: "flow_qer list \<Rightarrow> flow_qer list \<Rightarrow> flow_qer list \<times> flow_qer list \<times> u8 list" where
  "diff_flows old new = (filter (needs_create old) new, filter (needs_update old) new,
     map fq_qfi (filter (\<lambda>x. \<not> list_ex (\<lambda>n. fq_qfi n = fq_qfi x \<and> fq_filter n = fq_filter x) new) old))"

definition ambr_bps :: "SmPolicyDecision \<Rightarrow> session_ambr option" where
  "ambr_bps d = map_option (\<lambda>(u, dl). \<lparr>sa_uplink_bps = u, sa_downlink_bps = dl\<rparr>) (Option.bind (session_ambr d) ambr_to_bps)"

record UsedUnitContainer =
  uc_rating_group :: u32
  uc_uplink_volume :: u64
  uc_downlink_volume :: u64
  uc_total_volume :: u64
  uc_uplink_packets :: u64
  uc_downlink_packets :: u64
  uc_total_packets :: u64

definition container_for :: "usage_volume \<Rightarrow> SmPolicyDecision \<Rightarrow> UsedUnitContainer" where
  "container_for u d =
    \<lparr>uc_rating_group = (if urr_id u < PER_FLOW_URR_BASE then 0
        else (case rating_group_for d (ucast (urr_id u - PER_FLOW_URR_BASE)) of
            Some g \<Rightarrow> g | None \<Rightarrow> urr_id u - PER_FLOW_URR_BASE)),
     uc_uplink_volume = uv_uplink u, uc_downlink_volume = uv_downlink u, uc_total_volume = total u,
     uc_uplink_packets = uplink_pkts u, uc_downlink_packets = downlink_pkts u, uc_total_packets = total_pkts u\<rparr>"

subsection \<open>PDU session types\<close>

datatype PduSessionType = Ipv4 | Ipv6 | Ipv4v6

fun pst_value :: "PduSessionType \<Rightarrow> u8" where
  "pst_value Ipv4 = 1" | "pst_value Ipv6 = 2" | "pst_value Ipv4v6 = 3"

definition pst_from_value :: "u8 \<Rightarrow> PduSessionType option" where
  "pst_from_value v = (if v AND 7 = 1 then Some Ipv4 else if v AND 7 = 2 then Some Ipv6 else if v AND 7 = 3 then Some Ipv4v6 else None)"

fun has_ipv4 :: "PduSessionType \<Rightarrow> bool" where
  "has_ipv4 Ipv6 = False" | "has_ipv4 _ = True"

fun has_ipv6 :: "PduSessionType \<Rightarrow> bool" where
  "has_ipv6 Ipv4 = False" | "has_ipv6 _ = True"

fun pst_as_str :: "PduSessionType \<Rightarrow> string" where
  "pst_as_str Ipv4 = ''IPV4''" | "pst_as_str Ipv6 = ''IPV6''" | "pst_as_str Ipv4v6 = ''IPV4V6''"

definition to_ascii_uppercase :: "string \<Rightarrow> string" where
  "to_ascii_uppercase = map (\<lambda>c. if 97 \<le> (of_char c :: nat) \<and> (of_char c :: nat) \<le> 122 then char_of (of_char c - 32 :: nat) else c)"

definition pst_from_name :: "string \<Rightarrow> PduSessionType option" where
  "pst_from_name s = (let u = to_ascii_uppercase s in
     if u = ''IPV4'' then Some Ipv4 else if u = ''IPV6'' then Some Ipv6
     else if u = ''IPV4V6'' \<or> u = ''IPV4_V6'' then Some Ipv4v6 else None)"

definition V4_ONLY :: u8 where "V4_ONLY = 50"
definition V6_ONLY :: u8 where "V6_ONLY = 51"

fun negotiate_pdu_type :: "PduSessionType \<Rightarrow> bool \<Rightarrow> bool \<Rightarrow> PduSessionType \<times> u8 option" where
  "negotiate_pdu_type Ipv4v6 v4 v6 =
    (if v4 \<and> v6 then (Ipv4v6, None) else if v4 then (Ipv4, Some V4_ONLY) else if v6 then (Ipv6, Some V6_ONLY) else (Ipv4, Some V4_ONLY))"
| "negotiate_pdu_type Ipv4 v4 v6 = (if v4 then (Ipv4, None) else (Ipv6, Some V6_ONLY))"
| "negotiate_pdu_type Ipv6 v4 v6 = (if v6 then (Ipv6, None) else (Ipv4, Some V4_ONLY))"

text \<open>The allowed families from the default type and the listed ones, the JSON document being read by
  the caller.\<close>

definition parse_pdu_session_types :: "string option \<Rightarrow> string list \<Rightarrow> bool \<times> bool \<times> PduSessionType" where
  "parse_pdu_session_types dflt allowed =
    (let d = (case Option.bind dflt pst_from_name of Some t \<Rightarrow> t | None \<Rightarrow> Ipv4);
         ts = d # List.map_filter pst_from_name allowed
     in (list_ex has_ipv4 ts, list_ex has_ipv6 ts, d))"

definition valid_gnb_target :: "u32 \<Rightarrow> u32 \<Rightarrow> bool" where
  "valid_gnb_target teid ip = (teid \<noteq> 0 \<and> ip \<noteq> 0 \<and> ip \<noteq> 0xFFFFFFFF \<and> drop_bit 28 ip \<noteq> 0xE)"

subsection \<open>Flow differences at the UPF\<close>

text \<open>What the UPF enforces for a flow, as the request for it.\<close>

definition enforced :: "flow_enforcer \<Rightarrow> flow_qer" where
  "enforced e = \<lparr>fq_qfi = fe_qfi e, fq_filter = fe_filter e, fq_mfbr_dl_bps = rate_bps (fe_dl_bucket e),
     fq_mfbr_ul_bps = rate_bps (fe_ul_bucket e), fq_gate = fe_gate e\<rparr>"

definition enforces :: "flow_enforcer list \<Rightarrow> u8 \<Rightarrow> flow_qer option" where
  "enforces fs q = map_option enforced (find (\<lambda>e. fe_qfi e = q) fs)"

definition flow_for :: "flow_qer list \<Rightarrow> u8 \<Rightarrow> flow_qer option" where
  "flow_for fs q = find (\<lambda>f. fq_qfi f = q) fs"

lemma enforced_enforcer_of [simp]: "enforced (enforcer_of f now) = f"
  by (simp add: enforced_def enforcer_of_def bucket_new_def Let_def)

lemma enforces_fresh: "enforces (map (\<lambda>f. enforcer_of f now) fs) = flow_for fs"
proof
  fix q show "enforces (map (\<lambda>f. enforcer_of f now) fs) q = flow_for fs q"
    unfolding enforces_def flow_for_def by (induction fs) (simp_all add: enforcer_of_def[of _ now, THEN arg_cong[of _ _ fe_qfi]])
qed

lemma enforces_remove: "enforces (filter (\<lambda>e. fe_qfi e \<noteq> r) fs) q = (if q = r then None else enforces fs q)"
  unfolding enforces_def by (induction fs) auto

lemma enforces_add:
  "enforces (filter (\<lambda>e. fe_qfi e \<noteq> fq_qfi f) fs @ [enforcer_of f now]) q = (if q = fq_qfi f then Some f else enforces fs q)"
proof -
  have q: "fe_qfi (enforcer_of f now) = fq_qfi f" by (simp add: enforcer_of_def)
  show ?thesis unfolding enforces_def by (induction fs) (auto simp: q)
qed

lemma rate_set_rate [simp]: "rate_bps (set_rate b r now) = r"
  by (simp add: set_rate_def Let_def bucket_new_def)

definition reconfigure :: "flow_qer \<Rightarrow> u64 \<Rightarrow> flow_enforcer \<Rightarrow> flow_enforcer" where
  "reconfigure f now e = e\<lparr>fe_ul_bucket := set_rate (fe_ul_bucket e) (fq_mfbr_ul_bps f) now,
     fe_dl_bucket := set_rate (fe_dl_bucket e) (fq_mfbr_dl_bps f) now, fe_gate := fq_gate f\<rparr>"

lemma reconfigure_qfi [simp]: "fe_qfi (reconfigure f now e) = fe_qfi e"
  by (simp add: reconfigure_def)

lemma enforced_reconfigure: "fe_qfi e = fq_qfi f \<Longrightarrow> enforced (reconfigure f now e) = f\<lparr>fq_filter := fq_filter (enforced e)\<rparr>"
  by (simp add: enforced_def reconfigure_def)

lemma enforces_update:
  "enforces (map_first (\<lambda>e. fe_qfi e = fq_qfi f) (reconfigure f now) fs) q =
    (if q = fq_qfi f then map_option (\<lambda>v. f\<lparr>fq_filter := fq_filter v\<rparr>) (enforces fs q) else enforces fs q)"
  unfolding enforces_def by (induction fs) (auto simp: enforced_reconfigure)

text \<open>The three phases of a flow modification on the flows of a session.\<close>

definition flow_phases :: "u64 \<Rightarrow> flow_qer list \<Rightarrow> flow_qer list \<Rightarrow> u8 list \<Rightarrow> flow_enforcer list \<Rightarrow> flow_enforcer list" where
  "flow_phases now create update gone fs =
    foldl (\<lambda>fs f. map_first (\<lambda>e. fe_qfi e = fq_qfi f) (reconfigure f now) fs)
     (foldl (\<lambda>fs f. filter (\<lambda>e. fe_qfi e \<noteq> fq_qfi f) fs @ [enforcer_of f now])
      (foldl (\<lambda>fs r. filter (\<lambda>e. fe_qfi e \<noteq> r) fs) fs gone) create) update"

lemma enforces_gone: "enforces (foldl (\<lambda>fs r. filter (\<lambda>e. fe_qfi e \<noteq> r) fs) fs gone) q = (if q \<in> set gone then None else enforces fs q)"
  by (induction gone arbitrary: fs) (auto simp: enforces_remove)

lemma flow_for_None: "flow_for fs q = None \<longleftrightarrow> q \<notin> fq_qfi ` set fs"
  by (auto simp: flow_for_def find_None_all)

lemma enforces_create:
  assumes "distinct (map fq_qfi create)"
  shows "enforces (foldl (\<lambda>fs f. filter (\<lambda>e. fe_qfi e \<noteq> fq_qfi f) fs @ [enforcer_of f now]) fs create) q
    = (case flow_for create q of Some f \<Rightarrow> Some f | None \<Rightarrow> enforces fs q)"
  using assms
proof (induction create arbitrary: fs)
  case Nil
  then show ?case by (simp add: flow_for_def)
next
  case (Cons f create)
  then have "q = fq_qfi f \<Longrightarrow> flow_for create q = None" by (auto simp: flow_for_None)
  then show ?case using Cons by (auto simp: enforces_add flow_for_def split: option.split)
qed

lemma enforces_updates:
  assumes "distinct (map fq_qfi update)"
  shows "enforces (foldl (\<lambda>fs f. map_first (\<lambda>e. fe_qfi e = fq_qfi f) (reconfigure f now) fs) fs update) q
    = (case flow_for update q of Some f \<Rightarrow> map_option (\<lambda>v. f\<lparr>fq_filter := fq_filter v\<rparr>) (enforces fs q) | None \<Rightarrow> enforces fs q)"
  using assms
proof (induction update arbitrary: fs)
  case Nil
  then show ?case by (simp add: flow_for_def)
next
  case (Cons f update)
  then have "q = fq_qfi f \<Longrightarrow> flow_for update q = None" by (auto simp: flow_for_None)
  then show ?case using Cons by (auto simp: enforces_update flow_for_def split: option.split)
qed

lemma flow_for_Cons: "flow_for (f # fs) q = (if fq_qfi f = q then Some f else flow_for fs q)"
  by (simp add: flow_for_def)

lemma flow_for_filter:
  "distinct (map fq_qfi fs) \<Longrightarrow> flow_for (filter P fs) q = (case flow_for fs q of Some f \<Rightarrow> if P f then Some f else None | None \<Rightarrow> None)"
proof (induction fs)
  case Nil
  then show ?case by (simp add: flow_for_def)
next
  case (Cons f fs)
  then have "q = fq_qfi f \<Longrightarrow> flow_for fs q = None" by (auto simp: flow_for_None)
  then show ?case using Cons by (auto simp: flow_for_Cons)
qed

lemma flow_for_qfi: "flow_for fs q = Some f \<Longrightarrow> fq_qfi f = q \<and> f \<in> set fs"
  by (auto simp: flow_for_def dest: find_Some_in)

lemma flow_for_unique: "distinct (map fq_qfi fs) \<Longrightarrow> f \<in> set fs \<Longrightarrow> flow_for fs (fq_qfi f) = Some f"
  unfolding flow_for_def by (rule find_unique) (auto simp: distinct_map inj_on_def)

text \<open>Applying the difference of two sets of flows to the first gives the second.\<close>

lemma diff_flows_phases:
  assumes old: "distinct (map fq_qfi old)" and new: "distinct (map fq_qfi new)"
    and d: "diff_flows old new = (create, update, gone)" and e: "enforces fs = flow_for old"
  shows "enforces (flow_phases now create update gone fs) = flow_for new"
proof
  fix q
  have c: "create = filter (needs_create old) new" and u: "update = filter (needs_update old) new"
    and g: "gone = map fq_qfi (filter (\<lambda>x. \<not> list_ex (\<lambda>n. fq_qfi n = fq_qfi x \<and> fq_filter n = fq_filter x) new) old)"
    using d by (auto simp: diff_flows_def)
  have dc: "distinct (map fq_qfi create)" "distinct (map fq_qfi update)" using new c u by (simp_all add: distinct_map_filter)
  have gone: "q \<in> set gone \<longleftrightarrow> (case flow_for old q of None \<Rightarrow> False
      | Some x \<Rightarrow> (case flow_for new q of None \<Rightarrow> True | Some n \<Rightarrow> fq_filter n \<noteq> fq_filter x))"
    using flow_for_unique[OF old] flow_for_unique[OF new]
    by (auto simp: g list_ex_iff flow_for_None image_iff split: option.splits dest!: flow_for_qfi) (metis option.inject)+
  have nc: "needs_create old n = (case flow_for old q of None \<Rightarrow> True | Some x \<Rightarrow> fq_filter x \<noteq> fq_filter n)"
    "needs_update old n = (case flow_for old q of None \<Rightarrow> False | Some x \<Rightarrow> fq_filter x = fq_filter n
       \<and> (fq_mfbr_dl_bps x, fq_mfbr_ul_bps x, fq_gate x) \<noteq> (fq_mfbr_dl_bps n, fq_mfbr_ul_bps n, fq_gate n))"
    if "flow_for new q = Some n" for n
    using flow_for_qfi[OF that] by (simp_all add: needs_create_def needs_update_def flow_for_def)
  have "enforces (flow_phases now create update gone fs) q =
     (case (case flow_for new q of Some f \<Rightarrow> if needs_update old f then Some f else None | None \<Rightarrow> None) of
        None \<Rightarrow> mid | Some f \<Rightarrow> map_option (\<lambda>v. f\<lparr>fq_filter := fq_filter v\<rparr>) mid)"
    if "mid = (case (case flow_for new q of Some f \<Rightarrow> if needs_create old f then Some f else None | None \<Rightarrow> None) of
        None \<Rightarrow> if q \<in> set gone then None else flow_for old q | Some f \<Rightarrow> Some f)" for mid
    using that unfolding flow_phases_def enforces_updates[OF dc(2)] enforces_create[OF dc(1)] enforces_gone e
    unfolding c u flow_for_filter[OF new] by (auto split: option.split)
  note step = this[OF refl]
  show "enforces (flow_phases now create update gone fs) q = flow_for new q"
  proof (cases "flow_for new q")
    case None
    then show ?thesis unfolding step gone by (cases "flow_for old q") simp_all
  next
    case n: (Some n)
    show ?thesis
    proof (cases "flow_for old q")
      case None
      then show ?thesis unfolding step gone using n nc[OF n] by simp
    next
      case x: (Some x)
      have "fq_qfi n = fq_qfi x" using flow_for_qfi[OF n] flow_for_qfi[OF x] by simp
      then show ?thesis unfolding step gone using n x nc[OF n] by (cases n; cases x) auto
    qed
  qed
qed

text \<open>A sequence of flow operations on one session is the same sequence on its flows.\<close>

lemma get_session_flow_ops:
  assumes "\<And>st x. h st x = update_session k (\<lambda>s. s\<lparr>flow_qers := g (flow_qers s) x\<rparr>) st"
    and "get_session st k = Some s"
  shows "get_session (foldl h st xs) k = Some (s\<lparr>flow_qers := foldl g (flow_qers s) xs\<rparr>)"
  using assms(2) by (induction xs arbitrary: st s) (simp_all add: assms(1) get_session_update)

lemma map_first_fuse: "(\<And>e. P (g e) = P e) \<Longrightarrow> map_first P h (map_first P g fs) = map_first P (\<lambda>e. h (g e)) fs"
  by (induction fs) auto

lemma update_qer_reconfigures:
  "apply_update_qer k now st \<lparr>uq_qer_id = PER_FLOW_QER_BASE + ucast (fq_qfi f),
      uq_mbr = Some \<lparr>mbr_uplink = fq_mfbr_ul_bps f, mbr_downlink = fq_mfbr_dl_bps f\<rparr>, uq_gate = Some (to_gate_status (fq_gate f))\<rparr>
   = update_session k (\<lambda>s. s\<lparr>flow_qers := map_first (\<lambda>e. fe_qfi e = fq_qfi f) (reconfigure f now) (flow_qers s)\<rparr>) st"
proof -
  have "update_session k h (update_session k g st) = update_session k (\<lambda>s. h (g s)) st" for g h
    by (simp add: update_session_def table_update_def comp_def case_prod_beta map_first_fuse)
  then show ?thesis using flow_qer_id_not_ambr[of "fq_qfi f"]
    by (simp add: apply_update_qer_def Let_def update_flow_rate_def set_flow_gate_def map_first_fuse reconfigure_def[abs_def])
qed

lemma flow_modification_handled:
  assumes "lib_ok L" "distinct (map fq_qfi create)" "get_session st k = Some s" "\<not> foreign_peer peer st k"
  shows "\<exists>r st'. handle_msg L (session_flow_modification_request_msg L k seq create update gone) node_ip st now peer = (Some r, st')
    \<and> ie_cause r = [RequestAccepted] \<and> get_session st' k = Some (s\<lparr>flow_qers := flow_phases now create update gone (flow_qers s)\<rparr>)"
proof -
  let ?m = "session_flow_modification_request_msg L k seq create update gone"
  note d = session_flow_modification_request_msg_def bare_msg_def Let_def
  have flows: "parse_created_flows ?m = create"
    by (rule parse_created_flows_request[OF assms(1,2), where Q = "[]" and P = "[]"]) (simp_all add: d case_prod_beta comp_def)
  have "filter (\<lambda>pdr. ULCL_PDR_BASE \<le> cp_pdr_id pdr) (decoded (ie_create_pdr ?m)) = []"
    using flow_pdr_id_bounds(2)
    by (auto simp: d filter_empty_conv case_prod_beta comp_def flow_create_ies_def)
  then have br: "parse_branches ?m = []" by (simp add: parse_branches_def List.map_filter_def)
  have pdr: "filter (\<lambda>i. ULCL_PDR_BASE \<le> i) (decoded (ie_remove_pdr ?m)) = []"
    using flow_pdr_id_bounds(2) by (auto simp: d filter_empty_conv)
  have far: "apply_update_far ?m k st = st" by (simp add: apply_update_far_def d)
  let ?st1 = "foldl (apply_remove_qer k) st (decoded (ie_remove_qer ?m))"
  have 1: "get_session ?st1 k = Some (s\<lparr>flow_qers := foldl (\<lambda>fs r. filter (\<lambda>e. fe_qfi e \<noteq> r) fs) (flow_qers s) gone\<rparr>)"
    using get_session_flow_ops[of "\<lambda>st r. remove_flow st k r" k "\<lambda>fs r. filter (\<lambda>e. fe_qfi e \<noteq> r) fs", OF remove_flow_def assms(3)]
      flow_qer_id_not_ambr by (simp add: d apply_remove_qer_def foldl_map)
  let ?st2 = "foldl (\<lambda>st f. add_flow st k f now) ?st1 create"
  note 2 = get_session_flow_ops[of "\<lambda>st f. add_flow st k f now" k
      "\<lambda>fs f. filter (\<lambda>e. fe_qfi e \<noteq> fq_qfi f) fs @ [enforcer_of f now]" ?st1, OF add_flow_def 1, of create]
  have "get_session (foldl (apply_update_qer k now) ?st2 (decoded (ie_update_qer ?m))) k
      = Some (s\<lparr>flow_qers := flow_phases now create update gone (flow_qers s)\<rparr>)"
    using get_session_flow_ops[OF update_qer_reconfigures 2, where xs = update]
    by (simp add: flow_phases_def) (simp add: d foldl_map)
  then have "get_session (apply_modification ?m k now st) k = Some (s\<lparr>flow_qers := flow_phases now create update gone (flow_qers s)\<rparr>)"
    unfolding apply_modification_def Let_def flows br pdr far by simp
  moreover have "m_type ?m = SessionModificationRequest" "m_seid ?m = Some k" by (simp_all add: d)
  ultimately show ?thesis using assms(4) by (simp add: handle_msg_def handle_modification_def bare_msg_def Let_def)
qed

text \<open>C27: a policy refresh converges. When the UPF enforces exactly the flows of the old policy, the
  SMF sends the difference of the old and the new flows and the UPF accepts it, then the UPF
  enforces exactly the flows of the new policy, with their filters, rates and gates, and nothing
  else of the session changes.\<close>

theorem flow_refresh_converges:
  assumes "lib_ok L" "distinct (map fq_qfi old)" "distinct (map fq_qfi new)"
    and "get_session st k = Some s" "\<not> foreign_peer peer st k" "enforces (flow_qers s) = flow_for old"
    and "diff_flows old new = (create, update, gone)"
  shows "\<exists>r st' fs. handle_msg L (session_flow_modification_request_msg L k seq create update gone) node_ip st now peer = (Some r, st')
    \<and> ie_cause r = [RequestAccepted] \<and> get_session st' k = Some (s\<lparr>flow_qers := fs\<rparr>) \<and> enforces fs = flow_for new"
proof -
  have "distinct (map fq_qfi create)" using assms(3,7) by (auto simp: diff_flows_def distinct_map_filter)
  from flow_modification_handled[OF assms(1) this assms(4,5), of seq update gone node_ip now]
  show ?thesis using diff_flows_phases[OF assms(2,3,7,6), of now] by blast
qed

theorem flow_refresh_converges_witness:
  "\<exists>r st' fs. handle_msg plain_lib (session_flow_modification_request_msg plain_lib 1 3
        [] [\<lparr>fq_qfi = 5, fq_filter = transport 17 5000 5010, fq_mfbr_dl_bps = 9, fq_mfbr_ul_bps = 8, fq_gate = OPEN\<rparr>] []) 42
      (with_recovery_time 0\<lparr>sessions := [(1, demo_session)]\<rparr>) 7 None = (Some r, st')
    \<and> ie_cause r = [RequestAccepted] \<and> get_session st' 1 = Some (demo_session\<lparr>flow_qers := fs\<rparr>)
    \<and> enforces fs 5 = Some \<lparr>fq_qfi = 5, fq_filter = transport 17 5000 5010, fq_mfbr_dl_bps = 9, fq_mfbr_ul_bps = 8, fq_gate = OPEN\<rparr>"
proof -
  let ?old = "[enforced demo_flow]"
  let ?new = "[\<lparr>fq_qfi = 5, fq_filter = transport 17 5000 5010, fq_mfbr_dl_bps = 9, fq_mfbr_ul_bps = 8, fq_gate = OPEN\<rparr>]"
  have "get_session (with_recovery_time 0\<lparr>sessions := [(1, demo_session)]\<rparr>) 1 = Some demo_session"
    by (simp add: get_session_def table_get_def)
  moreover have "lib_ok plain_lib" by (simp add: lib_ok_def plain_lib_def plain_pdi_def)
  moreover have "enforces (flow_qers demo_session) = flow_for ?old"
    by (rule ext) (simp add: enforces_def flow_for_def demo_session_def enforced_def)
  moreover have "diff_flows ?old ?new = ([], ?new, [])"
    by (simp add: diff_flows_def needs_create_def needs_update_def enforced_def demo_flow_def bucket_new_def)
  ultimately obtain r st' fs where "handle_msg plain_lib (session_flow_modification_request_msg plain_lib 1 3 [] ?new []) 42
        (with_recovery_time 0\<lparr>sessions := [(1, demo_session)]\<rparr>) 7 None = (Some r, st')" "ie_cause r = [RequestAccepted]"
      "get_session st' 1 = Some (demo_session\<lparr>flow_qers := fs\<rparr>)" "enforces fs = flow_for ?new"
    using flow_refresh_converges[of plain_lib ?old ?new "with_recovery_time 0\<lparr>sessions := [(1, demo_session)]\<rparr>" 1 demo_session
        None "[]" ?new "[]" 3 42 7]
    by (auto simp: foreign_peer_def)
  then show ?thesis by (intro exI[of _ r] exI[of _ st'] exI[of _ fs] conjI) (simp_all only: flow_for_Cons, simp)
qed

end
