(* ===== verification/Smf_Session.thy ===== *)
theory Smf_Session
  imports Smf_Path Smf_Pool Smf_Flows
begin

section \<open>The session handlers of the SMF\<close>

text \<open>
  The asynchronous handlers of \<open>nf/nf-smf/src/pdu_session.rs\<close> as processes. A process alternates
  atomic actions on the shared state (one per lock acquisition or atomic counter) with the points at
  which the source awaits: a PFCP transaction, a call of another network function, a notice that is
  spawned off the path. Processes interleave at every such point. Requests are the messages of
  \<open>Pfcp_Msg\<close>; the octets of an answer, or that none came in time, are the environment's choice. The
  panic of a request builder whose message does not marshal is left out here (see \<open>Pfcp_Msg\<close>).
\<close>

subsection \<open>State\<close>

record Snssai =
  sst :: u8
  sd :: "string option"

record ChainedLeg =
  leg_up_seid :: u64
  leg_dl_ingress :: "u32 \<times> u32"
  leg_breakout_seid :: "u64 option"

record SmContext =
  sc_up_seid :: u64
  sc_cp_seid :: u64
  sc_n3_teid :: u32
  sc_n3_addr :: u32
  sc_chain :: "ChainedLeg option"
  sc_path :: SessionPath
  sc_ue_ip :: "u32 option"
  sc_pdu_type :: PduSessionType
  sc_ue_ipv6 :: "(128 word \<times> bytes) option"
  sc_dnn :: string
  sc_snssai :: Snssai
  sc_gnb :: "(u32 \<times> u32) option"
  sc_indirect_fwd :: "u64 option"
  sc_supi :: string
  sc_pdu_session_id :: u8
  sc_sm_policy :: "(string \<times> string) option"
  sc_policy :: SmPolicyDecision
  sc_reserved_gfbr :: rates
  sc_policy_breakout :: bool
  sc_charging :: "(string \<times> string) option"

record N4Peer =
  peer_seq :: u32
  peer_recovery :: "nat option"

record SmfState =
  smf_ip :: u32
  smf_peers :: "N4Peer hmap"
  smf_routing :: Routing
  smf_cp_seid :: u64
  next_ref :: u64
  ue_ipv4_pool :: U32Pool
  ue_ipv6_pool :: U32Pool
  contexts :: "SmContext hmap"
  gfbr_budget_bps :: rates
  reserved_gfbr_bps :: rates
  usage_threshold_bytes :: "u64 option"
  callback_base :: string

definition DEFAULT_CALLBACK_BASE :: string where
  "DEFAULT_CALLBACK_BASE = ''http://127.0.0.1:8002''"

definition new_peer :: N4Peer where
  "new_peer = \<lparr>peer_seq = 1, peer_recovery = None\<rparr>"

definition with_peers :: "string list \<Rightarrow> Routing \<Rightarrow> u32 \<Rightarrow> SmfState" where
  "with_peers names routing ip = \<lparr>smf_ip = ip, smf_peers = map (\<lambda>n. (n, new_peer)) names, smf_routing = routing,
     smf_cp_seid = 1, next_ref = 1, ue_ipv4_pool = pool_new UE_IP_POOL_START UE_IP_POOL_END,
     ue_ipv6_pool = pool_new 1 (- 1), contexts = [], gfbr_budget_bps = (- 1, - 1), reserved_gfbr_bps = (0, 0),
     usage_threshold_bytes = None, callback_base = DEFAULT_CALLBACK_BASE\<rparr>"

subsection \<open>Requests and answers\<close>

record SmContextCreateData =
  cr_supi :: string
  cr_pdu_session_id :: u8
  cr_dnn :: string
  cr_serving_network :: "(string \<times> string) option"
  cr_s_nssai :: "Snssai option"
  cr_pdu_session_type :: "string option"

record SmContextCreatedData =
  cd_sm_context_ref :: string
  cd_up_n3_teid :: string
  cd_up_n3_addr :: u32
  cd_selected_pdu_session_type :: string
  cd_ue_ipv4_addr :: "u32 option"
  cd_ue_ipv6_prefix :: "string option"
  cd_ue_ipv6_iid :: "string option"
  cd_cause5gsm :: "u8 option"
  cd_dns_ipv6 :: "string option"
  cd_s_nssai :: Snssai
  cd_session_ambr :: "SessionAmbrPolicy option"
  cd_qos_flows :: "QosFlowPolicy list"

record SessionSubscription =
  sub_snssai :: Snssai
  sub_ambr :: "SessionAmbrPolicy option"
  sub_qos_flows :: "QosFlowPolicy list"
  sub_allow_v4 :: bool
  sub_allow_v6 :: bool
  sub_default_type :: PduSessionType
  sub_dns_ipv6 :: "128 word option"

record SmContextUpdateData =
  ud_gnb_n3_teid :: "string option"
  ud_gnb_n3_addr :: "u32 option"
  ud_up_cnx_state :: "string option"

record IndirectForwardingReq =
  if_target_n3_teid :: "string option"
  if_target_n3_addr :: "u32 option"
  if_release :: bool

record BreakoutReq =
  bo_supi :: string
  bo_pdu_session_id :: "u8 option"
  bo_dnn :: "string option"
  bo_prefix :: "string option"
  bo_via :: "string option"
  bo_dnai :: "string option"
  bo_remove :: bool

datatype response =
    Created SmContextCreatedData
  | ActivationInfo SmContextCreatedData
  | ForwardingUp string u32
  | PolicyRefreshed SmPolicyDecision
  | Status nat
  | Problem nat string
  | Ended

text \<open>Calls spawned off the path, none of whose answers is used.\<close>

datatype notice =
    UecmRegister string u8 string
  | UecmPurge string u8
  | PolicyDelete string string
  | ChargingRelease string string string "UsedUnitContainer list"
  | AmfModify string u8 SmPolicyDecision "u8 list"
  | AmfPage string

subsection \<open>Processes\<close>

text \<open>\<open>Act f k\<close> updates the state by \<open>f\<close> and goes on with \<open>k\<close> of the state before. The other
  constructors hand a request to the environment and go on with its answer.\<close>

datatype proc =
    Done response
  | Act "SmfState \<Rightarrow> SmfState" "SmfState \<Rightarrow> proc"
  | Transact string pfcp_msg "bytes option \<Rightarrow> proc"
  | SendN4 string pfcp_msg proc
  | AskSubscription string string string "Snssai option" "(nat \<times> string) + SessionSubscription \<Rightarrow> proc"
  | AskPolicy SmPolicyContextData "(string \<times> string \<times> SmPolicyDecision) option \<Rightarrow> proc"
  | AskPolicyUpdate string string "SmPolicyUpdate option \<Rightarrow> proc"
  | AskCharging string u8 string "(string \<times> string) option \<Rightarrow> proc"
  | AskChargingUpdate string string string UsedUnitContainer "bool option \<Rightarrow> proc"
  | Notify notice proc

definition atomic :: "(SmfState \<Rightarrow> 'a \<times> SmfState) \<Rightarrow> ('a \<Rightarrow> proc) \<Rightarrow> proc" where
  "atomic f k = Act (\<lambda>s. snd (f s)) (\<lambda>s. k (fst (f s)))"

definition effect :: "(SmfState \<Rightarrow> SmfState) \<Rightarrow> proc \<Rightarrow> proc" where
  "effect f p = Act f (\<lambda>_. p)"

definition look :: "(SmfState \<Rightarrow> 'a) \<Rightarrow> ('a \<Rightarrow> proc) \<Rightarrow> proc" where
  "look f k = Act (\<lambda>s. s) (\<lambda>s. k (f s))"

subsection \<open>Atomic actions\<close>

definition get_context :: "string \<Rightarrow> SmfState \<Rightarrow> SmContext option" where
  "get_context r s = map_of (contexts s) r"

definition update_context :: "string \<Rightarrow> (SmContext \<Rightarrow> SmContext) \<Rightarrow> SmfState \<Rightarrow> SmfState" where
  "update_context r f s = s\<lparr>contexts := hm_update r f (contexts s)\<rparr>"

definition insert_context :: "string \<Rightarrow> SmContext \<Rightarrow> SmfState \<Rightarrow> SmfState" where
  "insert_context r c s = s\<lparr>contexts := hm_insert r c (contexts s)\<rparr>"

definition remove_context :: "string \<Rightarrow> SmfState \<Rightarrow> SmfState" where
  "remove_context r s = s\<lparr>contexts := hm_remove r (contexts s)\<rparr>"

definition next_seq :: "string \<Rightarrow> SmfState \<Rightarrow> u32 \<times> SmfState" where
  "next_seq n s = ((case map_of (smf_peers s) n of Some p \<Rightarrow> peer_seq p | None \<Rightarrow> 0),
     s\<lparr>smf_peers := hm_update n (\<lambda>p. p\<lparr>peer_seq := peer_seq p + 1\<rparr>) (smf_peers s)\<rparr>)"

definition take_cp_seid :: "SmfState \<Rightarrow> u64 \<times> SmfState" where
  "take_cp_seid s = (smf_cp_seid s, s\<lparr>smf_cp_seid := smf_cp_seid s + 1\<rparr>)"

definition take_ref :: "SmfState \<Rightarrow> string \<times> SmfState" where
  "take_ref s = (show_word (next_ref s), s\<lparr>next_ref := next_ref s + 1\<rparr>)"

definition alloc_ip :: "SmfState \<Rightarrow> u32 option \<times> SmfState" where
  "alloc_ip s = (fst (pool_alloc (ue_ipv4_pool s)), s\<lparr>ue_ipv4_pool := snd (pool_alloc (ue_ipv4_pool s))\<rparr>)"

definition release_ip :: "u32 \<Rightarrow> SmfState \<Rightarrow> SmfState" where
  "release_ip a s = s\<lparr>ue_ipv4_pool := pool_release (ue_ipv4_pool s) a\<rparr>"

definition alloc_ip6 :: "SmfState \<Rightarrow> (128 word \<times> bytes) option \<times> SmfState" where
  "alloc_ip6 s = (fst (alloc_ue_ipv6 (ue_ipv6_pool s)), s\<lparr>ue_ipv6_pool := snd (alloc_ue_ipv6 (ue_ipv6_pool s))\<rparr>)"

definition release_ip6 :: "128 word \<Rightarrow> SmfState \<Rightarrow> SmfState" where
  "release_ip6 p s = s\<lparr>ue_ipv6_pool := release_ue_ipv6 (ue_ipv6_pool s) p\<rparr>"

definition reserve :: "rates \<Rightarrow> SmfState \<Rightarrow> bool \<times> SmfState" where
  "reserve r s = (fst (try_reserve_gfbr (gfbr_budget_bps s) (reserved_gfbr_bps s) r),
     s\<lparr>reserved_gfbr_bps := snd (try_reserve_gfbr (gfbr_budget_bps s) (reserved_gfbr_bps s) r)\<rparr>)"

definition unreserve :: "rates \<Rightarrow> SmfState \<Rightarrow> SmfState" where
  "unreserve r s = s\<lparr>reserved_gfbr_bps := release_gfbr (reserved_gfbr_bps s) r\<rparr>"

text \<open>\<open>IpLease\<close>: what an early return gives back when the lease is dropped uncommitted.\<close>

definition release_addresses :: "u32 option \<Rightarrow> 128 word option \<Rightarrow> proc \<Rightarrow> proc" where
  "release_addresses v4 v6 p =
    (let q = (case v6 of Some x \<Rightarrow> effect (release_ip6 x) p | None \<Rightarrow> p)
     in (case v4 of Some a \<Rightarrow> effect (release_ip a) q | None \<Rightarrow> q))"

definition transact :: "string \<Rightarrow> (u32 \<Rightarrow> pfcp_msg) \<Rightarrow> (bytes option \<Rightarrow> proc) \<Rightarrow> proc" where
  "transact peer req k = atomic (next_seq peer) (\<lambda>seq. Transact peer (req seq) k)"

definition accepted :: "pfcp_lib \<Rightarrow> bytes option \<Rightarrow> bool" where
  "accepted L r = (case r of Some b \<Rightarrow> response_accepted L b | None \<Rightarrow> False)"

definition established :: "pfcp_lib \<Rightarrow> bytes option \<Rightarrow> established_session option" where
  "established L r = Option.bind r (parse_session_establishment_response L)"

text \<open>Numbers in JSON: \<open>{:08x}\<close>, \<open>hex::encode\<close> and \<open>u32::from_str_radix\<close> after stripping \<open>0x\<close>.\<close>

definition hex08 :: "u32 \<Rightarrow> string" where
  "hex08 w = (let t = show_radix 16 (unat w) in replicate (8 - length t) (CHR ''0'') @ t)"

definition hex_encode :: "bytes \<Rightarrow> string" where
  "hex_encode bs = concat (map (\<lambda>b. [digit_char (unat b div 16), digit_char (unat b mod 16)]) bs)"

fun strip_0x :: "string \<Rightarrow> string" where
  "strip_0x (a # b # t) = (if a = CHR ''0'' \<and> b = CHR ''x'' then strip_0x t else a # b # t)"
| "strip_0x t = t"

definition parse_hex_u32 :: "string \<Rightarrow> u32 option" where
  "parse_hex_u32 s =
    (let t = strip_0x s; ds = (case t of c # cs \<Rightarrow> if c = CHR ''+'' then cs else t | [] \<Rightarrow> [])
     in if ds \<noteq> [] \<and> list_all (is_digit 16) ds \<and> digits_value 16 ds < 2 ^ 32
        then Some (of_nat (digits_value 16 ds)) else None)"

definition FAR_ID :: u32 where "FAR_ID = 2"

definition MID_SESSION_BREAKOUT_INDEX :: nat where "MID_SESSION_BREAKOUT_INDEX = 0"

subsection \<open>N4 associations\<close>

definition next_cp_seid :: "(u64 \<Rightarrow> u32 \<Rightarrow> u64 option \<Rightarrow> proc) \<Rightarrow> proc" where
  "next_cp_seid k = Act (\<lambda>s. snd (take_cp_seid s)) (\<lambda>s. k (fst (take_cp_seid s)) (smf_ip s) (usage_threshold_bytes s))"

text \<open>\<open>N4Peer::note_recovery\<close>: whether the UPF restarted since the last time stamp.\<close>

definition note_recovery :: "string \<Rightarrow> nat \<Rightarrow> SmfState \<Rightarrow> bool \<times> SmfState" where
  "note_recovery n ts s =
    (let known = Option.bind (map_of (smf_peers s) n) peer_recovery
     in ((case known of Some old \<Rightarrow> ts > old | None \<Rightarrow> False),
         if (case known of Some old \<Rightarrow> ts \<ge> old | None \<Rightarrow> True)
         then s\<lparr>smf_peers := hm_update n (\<lambda>p. p\<lparr>peer_recovery := Some ts\<rparr>) (smf_peers s)\<rparr> else s))"

definition associate :: "pfcp_lib \<Rightarrow> nat \<Rightarrow> string \<Rightarrow> (bool \<Rightarrow> proc) \<Rightarrow> proc" where
  "associate L now peer k = look smf_ip (\<lambda>ip. transact peer (\<lambda>seq. association_setup_request_msg ip seq now) (\<lambda>r.
    case r of None \<Rightarrow> k False
    | Some b \<Rightarrow> if response_accepted L b
        then (case parse_recovery_timestamp L b of Some ts \<Rightarrow> atomic (note_recovery peer ts) (\<lambda>_. k True) | None \<Rightarrow> k True)
        else k False))"

definition heartbeat :: "pfcp_lib \<Rightarrow> nat \<Rightarrow> string \<Rightarrow> (bool option \<Rightarrow> proc) \<Rightarrow> proc" where
  "heartbeat L now peer k = transact peer (\<lambda>seq. heartbeat_request_msg seq now) (\<lambda>r.
    case Option.bind r (parse_recovery_timestamp L) of
      None \<Rightarrow> k None
    | Some ts \<Rightarrow> atomic (note_recovery peer ts) (\<lambda>restarted. k (Some restarted)))"

definition drop_contexts :: "string \<Rightarrow> SmfState \<Rightarrow> SmContext list \<times> SmfState" where
  "drop_contexts peer s = (map snd (filter (\<lambda>(_, c). path_uses (sc_path c) peer) (contexts s)),
     s\<lparr>contexts := filter (\<lambda>(_, c). \<not> path_uses (sc_path c) peer) (contexts s)\<rparr>)"

definition context_v6 :: "SmContext \<Rightarrow> 128 word option" where
  "context_v6 c = map_option fst (sc_ue_ipv6 c)"

fun release_dropped :: "SmContext list \<Rightarrow> proc \<Rightarrow> proc" where
  "release_dropped [] p = p"
| "release_dropped (c # cs) p = release_addresses (sc_ue_ip c) (context_v6 c)
     (effect (unreserve (sc_reserved_gfbr c)) (Notify (UecmPurge (sc_supi c) (sc_pdu_session_id c)) (release_dropped cs p)))"

definition recover_from_upf_restart :: "pfcp_lib \<Rightarrow> nat \<Rightarrow> string \<Rightarrow> proc \<Rightarrow> proc" where
  "recover_from_upf_restart L now peer p =
    associate L now peer (\<lambda>_. atomic (drop_contexts peer) (\<lambda>dropped. release_dropped dropped p))"

fun heartbeat_round :: "pfcp_lib \<Rightarrow> nat \<Rightarrow> string list \<Rightarrow> proc" where
  "heartbeat_round L now [] = Done Ended"
| "heartbeat_round L now (peer # peers) = heartbeat L now peer (\<lambda>r.
     if r = Some True then recover_from_upf_restart L now peer (heartbeat_round L now peers) else heartbeat_round L now peers)"

fun smf_associate :: "pfcp_lib \<Rightarrow> nat \<Rightarrow> string list \<Rightarrow> proc" where
  "smf_associate L now [] = Done Ended"
| "smf_associate L now (peer # peers) = associate L now peer (\<lambda>ok. if ok then smf_associate L now peers else Done (Status 500))"

subsection \<open>User-plane legs\<close>

definition point_downlink_at :: "pfcp_lib \<Rightarrow> string \<Rightarrow> u64 \<Rightarrow> u32 \<times> u32 \<Rightarrow> string \<Rightarrow> (bool \<Rightarrow> proc) \<Rightarrow> proc" where
  "point_downlink_at L peer up_seid target dnn k = transact peer
     (\<lambda>seq. session_modification_request_msg L up_seid seq FAR_ID (fst target) (snd target) dnn False) (\<lambda>r. k (accepted L r))"

definition bare_leg :: "pfcp_lib \<Rightarrow> u64 \<Rightarrow> u32 \<Rightarrow> u32 \<Rightarrow> ue_addr \<Rightarrow> string \<Rightarrow> pfcp_msg" where
  "bare_leg L cp seq ip ue dnn = session_establishment_request_msg L \<lparr>ep_cp_seid = cp, ep_seq = seq, ep_smf_ip = ip,
     ep_ue = ue, ep_dnn = dnn, ep_ambr = None, ep_flows = [], ep_threshold = None\<rparr>"

definition chain_breakout :: "pfcp_lib \<Rightarrow> SessionPath \<Rightarrow> ue_addr \<Rightarrow> string \<Rightarrow>
    proc \<Rightarrow> ((established_session \<times> ip_prefix) option \<Rightarrow> proc) \<Rightarrow> proc" where
  "chain_breakout L path ue dnn failed k = (case sp_breakout path of
     None \<Rightarrow> k None
   | Some (psa2, pre) \<Rightarrow> next_cp_seid (\<lambda>cp ip _. transact psa2 (\<lambda>seq. bare_leg L cp seq ip ue dnn) (\<lambda>r.
       case established L r of None \<Rightarrow> failed | Some est \<Rightarrow> k (Some (est, pre)))))"

definition branch_to :: "established_session \<Rightarrow> ip_prefix \<Rightarrow> flow_filter \<times> egress" where
  "branch_to est pre = (to_prefix pre, ToPeer (es_n3_teid est) (es_n3_addr est))"

definition splice_downlink :: "pfcp_lib \<Rightarrow> SessionPath \<Rightarrow> established_session \<Rightarrow> (established_session \<times> ip_prefix) option \<Rightarrow>
    u32 \<times> u32 \<Rightarrow> string \<Rightarrow> (bool \<Rightarrow> proc) \<Rightarrow> proc" where
  "splice_downlink L path anchor breakout dl dnn k =
    point_downlink_at L (sp_anchor path) (es_up_seid anchor) dl dnn (\<lambda>ok.
      if \<not> ok then k False
      else (case (sp_breakout path, breakout) of
          (Some (psa2, _), Some (est2, _)) \<Rightarrow> point_downlink_at L psa2 (es_up_seid est2) dl dnn k
        | _ \<Rightarrow> k True))"

definition establish_chain :: "pfcp_lib \<Rightarrow> SessionPath \<Rightarrow> established_session \<Rightarrow> ue_addr \<Rightarrow> string \<Rightarrow>
    ((ChainedLeg \<times> u32 \<times> u32) option \<Rightarrow> proc) \<Rightarrow> proc" where
  "establish_chain L path anchor ue dnn k = (case sp_intermediate path of
     None \<Rightarrow> k None
   | Some iupf \<Rightarrow> chain_breakout L path ue dnn (k None) (\<lambda>breakout.
       next_cp_seid (\<lambda>cp ip _. transact iupf (\<lambda>seq. session_establishment_request_via_peer_msg L cp seq ip ue dnn
           (es_n3_teid anchor) (es_n3_addr anchor) (case breakout of None \<Rightarrow> [] | Some (e, pre) \<Rightarrow> [branch_to e pre])) (\<lambda>r.
         case established L r of
           None \<Rightarrow> k None
         | Some est \<Rightarrow> (case es_dl_ingress est of
             None \<Rightarrow> k None
           | Some dl \<Rightarrow> splice_downlink L path anchor breakout dl dnn (\<lambda>ok.
               if ok then k (Some (\<lparr>leg_up_seid = es_up_seid est, leg_dl_ingress = dl,
                   leg_breakout_seid = map_option (\<lambda>(e, _). es_up_seid e) breakout\<rparr>, es_n3_teid est, es_n3_addr est))
               else k None))))))"

end
