(* ===== verification/Smf_Handlers.thy ===== *)
theory Smf_Handlers
  imports Smf_Session
begin

section \<open>The service operations of the SMF\<close>

text \<open>
  Creation, update, release and refresh of an SM context, the mid-session breakouts, indirect
  forwarding and the reports of the UPF, as processes over \<open>Smf_Session\<close>. Status codes are numbers;
  the texts of problem details and log lines are left out.
\<close>

subsection \<open>Mid-session breakouts\<close>

definition set_breakout :: "(u64 \<times> string \<times> ip_prefix) option \<Rightarrow> SmContext \<Rightarrow> SmContext" where
  "set_breakout b c = c\<lparr>sc_chain := map_option (\<lambda>l. l\<lparr>leg_breakout_seid := map_option fst b\<rparr>) (sc_chain c),
     sc_path := (sc_path c)\<lparr>sp_breakout := map_option snd b\<rparr>\<rparr>"

definition delete_at :: "string \<Rightarrow> u64 \<Rightarrow> (bytes option \<Rightarrow> proc) \<Rightarrow> proc" where
  "delete_at peer seid k = transact peer (\<lambda>seq. session_deletion_request_msg seid seq) k"

definition insert_breakout :: "pfcp_lib \<Rightarrow> string \<Rightarrow> ChainedLeg \<Rightarrow> string \<Rightarrow> ue_addr \<Rightarrow> string \<Rightarrow> string \<Rightarrow> string \<Rightarrow>
    (nat \<Rightarrow> proc) \<Rightarrow> proc" where
  "insert_breakout L sm_ref leg iupf ue dnn prefix_text via k =
    (if leg_breakout_seid leg \<noteq> None then k 409
     else (case parse_prefix prefix_text of
       None \<Rightarrow> k 400
     | Some pre \<Rightarrow> look (\<lambda>s. map_of (smf_peers s) via) (\<lambda>psa2.
         if psa2 = None then k 404
         else next_cp_seid (\<lambda>cp ip _. transact via (\<lambda>seq. bare_leg L cp seq ip ue dnn) (\<lambda>r.
           case established L r of
             None \<Rightarrow> k 502
           | Some est \<Rightarrow> point_downlink_at L via (es_up_seid est) (leg_dl_ingress leg) dnn (\<lambda>ok.
               if \<not> ok then delete_at via (es_up_seid est) (\<lambda>_. k 502)
               else transact iupf (\<lambda>seq. session_modification_add_branch_msg L (leg_up_seid leg) seq MID_SESSION_BREAKOUT_INDEX
                     (fst (branch_to est pre)) (snd (branch_to est pre)) dnn) (\<lambda>r.
                 if accepted L r then effect (update_context sm_ref (set_breakout (Some (es_up_seid est, via, pre)))) (k 200)
                 else delete_at via (es_up_seid est) (\<lambda>_. k 502))))))))"

definition remove_breakout :: "pfcp_lib \<Rightarrow> string \<Rightarrow> ChainedLeg \<Rightarrow> string \<Rightarrow> SessionPath \<Rightarrow> (nat \<Rightarrow> proc) \<Rightarrow> proc" where
  "remove_breakout L sm_ref leg iupf path k = (case (leg_breakout_seid leg, sp_breakout path) of
     (Some seid, Some (psa2, _)) \<Rightarrow>
       transact iupf (\<lambda>seq. session_modification_remove_branch_msg (leg_up_seid leg) seq MID_SESSION_BREAKOUT_INDEX) (\<lambda>r.
         if \<not> accepted L r then k 502
         else delete_at psa2 seid (\<lambda>_. effect (update_context sm_ref (set_breakout None)) (k 200)))
   | _ \<Rightarrow> k 409)"

definition is_success :: "nat \<Rightarrow> bool" where
  "is_success st = (200 \<le> st \<and> st < 300)"

definition context_ue :: "SmContext \<Rightarrow> ue_addr" where
  "context_ue c = \<lparr>ua_v4 = sc_ue_ip c, ua_v6 = context_v6 c\<rparr>"

definition mark_policy_breakout :: "string \<Rightarrow> bool \<Rightarrow> nat \<Rightarrow> proc \<Rightarrow> proc" where
  "mark_policy_breakout sm_ref b st p =
    (if is_success st then effect (update_context sm_ref (\<lambda>c. c\<lparr>sc_policy_breakout := b\<rparr>)) p else p)"

definition reconcile_influence_breakout :: "pfcp_lib \<Rightarrow> string \<Rightarrow> proc \<Rightarrow> proc" where
  "reconcile_influence_breakout L sm_ref p = look (\<lambda>s. (get_context sm_ref s, smf_routing s)) (\<lambda>(ctx, routing).
    case ctx of
      None \<Rightarrow> p
    | Some c \<Rightarrow> (case (sc_chain c, sp_intermediate (sc_path c)) of
        (Some leg, Some iupf) \<Rightarrow>
          if dnn_has_config_route routing (sc_dnn c) then p
          else (case (influence_route (sc_policy c), leg_breakout_seid leg) of
              (Some (prefix_text, dnai), None) \<Rightarrow> (case routing_node_for_dnai routing dnai of
                  Some via \<Rightarrow> insert_breakout L sm_ref leg iupf (context_ue c) (sc_dnn c) prefix_text via
                    (\<lambda>st. mark_policy_breakout sm_ref True st p)
                | None \<Rightarrow> p)
            | (None, Some _) \<Rightarrow> if sc_policy_breakout c
                then remove_breakout L sm_ref leg iupf (sc_path c) (\<lambda>st. mark_policy_breakout sm_ref False st p) else p
            | _ \<Rightarrow> p)
      | _ \<Rightarrow> p))"

definition breakout_selects :: "BreakoutReq \<Rightarrow> SmContext \<Rightarrow> bool" where
  "breakout_selects req c = (sc_supi c = bo_supi req
     \<and> (case bo_pdu_session_id req of None \<Rightarrow> True | Some psi \<Rightarrow> sc_pdu_session_id c = psi)
     \<and> (case bo_dnn req of None \<Rightarrow> True | Some d \<Rightarrow> sc_dnn c = d))"

definition oam_breakout :: "pfcp_lib \<Rightarrow> BreakoutReq \<Rightarrow> proc" where
  "oam_breakout L req =
    (if bo_pdu_session_id req = None \<and> bo_dnn req = None then Done (Status 400)
     else look (\<lambda>s. (find (\<lambda>(_, c). breakout_selects req c) (contexts s), smf_routing s)) (\<lambda>(found, routing).
       case found of
         None \<Rightarrow> Done (Status 404)
       | Some (sm_ref, c) \<Rightarrow> (case (sc_chain c, sp_intermediate (sc_path c)) of
           (Some leg, Some iupf) \<Rightarrow>
             if bo_remove req then remove_breakout L sm_ref leg iupf (sc_path c) (\<lambda>st. Done (Status st))
             else (case (bo_prefix req, case bo_via req of Some v \<Rightarrow> Some v
                         | None \<Rightarrow> Option.bind (bo_dnai req) (routing_node_for_dnai routing)) of
                 (Some prefix_text, Some via) \<Rightarrow>
                   insert_breakout L sm_ref leg iupf (context_ue c) (sc_dnn c) prefix_text via (\<lambda>st. Done (Status st))
               | _ \<Rightarrow> Done (Status 400))
         | _ \<Rightarrow> Done (Status 409))))"

subsection \<open>Creation\<close>

definition created_data :: "string \<Rightarrow> SmContext \<Rightarrow> u8 option \<Rightarrow> 128 word option \<Rightarrow> SmContextCreatedData" where
  "created_data sm_ref c cause dns = \<lparr>cd_sm_context_ref = sm_ref, cd_up_n3_teid = hex08 (sc_n3_teid c), cd_up_n3_addr = sc_n3_addr c,
     cd_selected_pdu_session_type = pst_as_str (sc_pdu_type c), cd_ue_ipv4_addr = sc_ue_ip c,
     cd_ue_ipv6_prefix = map_option (\<lambda>(p, _). show_ipv6 p @ ''/64'') (sc_ue_ipv6 c),
     cd_ue_ipv6_iid = map_option (\<lambda>(_, iid). hex_encode iid) (sc_ue_ipv6 c), cd_cause5gsm = cause,
     cd_dns_ipv6 = map_option show_ipv6 dns, cd_s_nssai = sc_snssai c, cd_session_ambr = Pcf_Policy.session_ambr (sc_policy c),
     cd_qos_flows = qos_flows (sc_policy c)\<rparr>"

text \<open>The policy of a session: the PCF's, or the one built from the subscription.\<close>

definition session_policy :: "SessionSubscription \<Rightarrow> (string \<times> string \<times> SmPolicyDecision) option \<Rightarrow>
    SmPolicyDecision \<times> (string \<times> string) option" where
  "session_policy sub answer = (case answer of
     Some (pcf, policy_id, d) \<Rightarrow> (d, Some (pcf, policy_id))
   | None \<Rightarrow> (set_flows (empty_decision\<lparr>session_rules := session_rules_for (sub_ambr sub)\<rparr>) (sub_qos_flows sub), None))"

definition alloc_v4 :: "bool \<Rightarrow> proc \<Rightarrow> (u32 option \<Rightarrow> proc) \<Rightarrow> proc" where
  "alloc_v4 wanted refused k = (if wanted then atomic alloc_ip (\<lambda>a. case a of Some ip \<Rightarrow> k (Some ip) | None \<Rightarrow> refused) else k None)"

definition alloc_v6 :: "bool \<Rightarrow> proc \<Rightarrow> ((128 word \<times> bytes) option \<Rightarrow> proc) \<Rightarrow> proc" where
  "alloc_v6 wanted refused k = (if wanted then atomic alloc_ip6 (\<lambda>a. case a of Some ip \<Rightarrow> k (Some ip) | None \<Rightarrow> refused) else k None)"

text \<open>The end of a successful creation: open charging, store the context, apply an influence already in
  the policy, announce the session.\<close>

definition store_context :: "pfcp_lib \<Rightarrow> string \<Rightarrow> ((string \<times> string) option \<Rightarrow> SmContext) \<Rightarrow> u8 option \<Rightarrow> 128 word option \<Rightarrow> proc" where
  "store_context L sm_ref ctx cause dns =
    (let c0 = ctx None in AskCharging (sc_supi c0) (sc_pdu_session_id c0) (sc_dnn c0) (\<lambda>charging.
       effect (insert_context sm_ref (ctx charging))
         (reconcile_influence_breakout L sm_ref
           (Notify (UecmRegister (sc_supi c0) (sc_pdu_session_id c0) (sc_dnn c0)) (Done (Created (created_data sm_ref c0 cause dns)))))))"

definition chain_session :: "pfcp_lib \<Rightarrow> SessionPath \<Rightarrow> established_session \<Rightarrow> ue_addr \<Rightarrow> string \<Rightarrow>
    proc \<Rightarrow> (ChainedLeg option \<Rightarrow> u32 \<Rightarrow> u32 \<Rightarrow> proc) \<Rightarrow> proc" where
  "chain_session L path est ue dnn failed k =
    (if sp_intermediate path \<noteq> None
     then establish_chain L path est ue dnn (\<lambda>c. case c of
         Some (leg, an_teid, an_addr) \<Rightarrow> k (Some leg) an_teid an_addr
       | None \<Rightarrow> delete_at (sp_anchor path) (es_up_seid est) (\<lambda>_. failed))
     else k None (es_n3_teid est) (es_n3_addr est))"

definition establish_session :: "pfcp_lib \<Rightarrow> SmContextCreateData \<Rightarrow> SessionSubscription \<Rightarrow> PduSessionType \<Rightarrow> u8 option \<Rightarrow>
    string \<Rightarrow> SmPolicyDecision \<Rightarrow> (string \<times> string) option \<Rightarrow> SessionPath \<Rightarrow> proc" where
  "establish_session L req sub selected cause sm_ref decision sm_policy path =
    (let gfbr = decision_gfbr decision; dnn = cr_dnn req in
     next_cp_seid (\<lambda>cp ip threshold. atomic (next_seq (sp_anchor path)) (\<lambda>seq.
     alloc_v4 (has_ipv4 selected) (effect (unreserve gfbr) (Done (Problem 503 ''INSUFFICIENT_RESOURCES''))) (\<lambda>v4.
     alloc_v6 (has_ipv6 selected)
       (effect (unreserve gfbr) (release_addresses v4 None (Done (Problem 503 ''INSUFFICIENT_RESOURCES'')))) (\<lambda>v6.
     let ue = \<lparr>ua_v4 = v4, ua_v6 = map_option fst v6\<rparr>;
         failed = effect (unreserve gfbr) (release_addresses v4 (map_option fst v6) (Done (Problem 502 ''UPF_NOT_RESPONDING'')))
     in Transact (sp_anchor path) (session_establishment_request_msg L \<lparr>ep_cp_seid = cp, ep_seq = seq, ep_smf_ip = ip, ep_ue = ue,
            ep_dnn = dnn, ep_ambr = ambr_bps decision, ep_flows = decision_flow_qers decision, ep_threshold = threshold\<rparr>) (\<lambda>r.
        case established L r of
          None \<Rightarrow> failed
        | Some est \<Rightarrow> chain_session L path est ue dnn failed (\<lambda>chain teid addr.
            store_context L sm_ref (\<lambda>charging. \<lparr>sc_up_seid = es_up_seid est, sc_cp_seid = cp, sc_n3_teid = teid, sc_n3_addr = addr,
              sc_chain = chain, sc_path = path, sc_ue_ip = v4, sc_pdu_type = selected, sc_ue_ipv6 = v6, sc_dnn = dnn,
              sc_snssai = sub_snssai sub, sc_gnb = None, sc_indirect_fwd = None, sc_supi = cr_supi req,
              sc_pdu_session_id = cr_pdu_session_id req, sc_sm_policy = sm_policy, sc_policy = decision,
              sc_reserved_gfbr = gfbr, sc_policy_breakout = False, sc_charging = charging\<rparr>) cause (sub_dns_ipv6 sub))))))))"

definition policy_context :: "SmContextCreateData \<Rightarrow> Snssai \<Rightarrow> string \<Rightarrow> string \<Rightarrow> SmPolicyContextData" where
  "policy_context req snssai base sm_ref = \<lparr>pcx_supi = cr_supi req, pcx_pdu_session_id = cr_pdu_session_id req,
     pcx_dnn = cr_dnn req, pcx_snssai_sst = Some (sst snssai), pcx_snssai_sd = sd snssai,
     pcx_notification_uri = Some (base @ ''/nsmf-callback/v1/sm-policies/'' @ sm_ref @ ''/update'')\<rparr>"

definition create_sm_context :: "pfcp_lib \<Rightarrow> SmContextCreateData \<Rightarrow> proc" where
  "create_sm_context L req =
    (if cr_dnn req = [] then Done (Problem 400 ''MANDATORY_IE_MISSING'')
     else (case cr_serving_network req of
       None \<Rightarrow> Done (Problem 400 ''MANDATORY_IE_MISSING'')
     | Some (mcc, mnc) \<Rightarrow> AskSubscription (cr_supi req) (mcc @ mnc) (cr_dnn req) (cr_s_nssai req) (\<lambda>a.
         case a of
           Inl (status, cause) \<Rightarrow> Done (Problem status cause)
         | Inr sub \<Rightarrow>
             (case negotiate_pdu_type (case Option.bind (cr_pdu_session_type req) pst_from_name of Some t \<Rightarrow> t | None \<Rightarrow> sub_default_type sub)
                 (sub_allow_v4 sub) (sub_allow_v6 sub) of (selected, cause) \<Rightarrow>
              atomic (\<lambda>s. ((fst (take_ref s), callback_base s), snd (take_ref s))) (\<lambda>(sm_ref, base).
              AskPolicy (policy_context req (sub_snssai sub) base sm_ref) (\<lambda>answer.
                case session_policy sub answer of (decision, sm_policy) \<Rightarrow>
                atomic (reserve (decision_gfbr decision)) (\<lambda>admitted.
                if \<not> admitted then Done (Problem 503 ''INSUFFICIENT_RESOURCES'')
                else look (\<lambda>s. resolve_path (map fst (smf_peers s)) (smf_routing s) (cr_dnn req)) (\<lambda>p. case p of
                    Some (Inr path) \<Rightarrow> establish_session L req sub selected cause sm_ref decision sm_policy path
                  | _ \<Rightarrow> effect (unreserve (decision_gfbr decision)) (Done (Problem 502 ''DNN_DENIED'')))))))))) "

subsection \<open>Update\<close>

definition deactivate_up :: "pfcp_lib \<Rightarrow> string \<Rightarrow> proc" where
  "deactivate_up L sm_ref = look (get_context sm_ref) (\<lambda>ctx. case ctx of
     None \<Rightarrow> Done (Status 404)
   | Some c \<Rightarrow> transact (sp_anchor (sc_path c)) (\<lambda>seq. session_deactivate_request_msg (sc_up_seid c) seq FAR_ID) (\<lambda>r.
       if \<not> accepted L r then Done (Status 502)
       else (let finish = effect (update_context sm_ref (\<lambda>c. c\<lparr>sc_gnb := None\<rparr>)) (Done (Status 200))
         in case (Option.bind (sc_chain c) leg_breakout_seid, sp_breakout (sc_path c)) of
           (Some seid, Some (psa2, _)) \<Rightarrow> transact psa2 (\<lambda>seq. session_deactivate_request_msg seid seq FAR_ID) (\<lambda>_. finish)
         | _ \<Rightarrow> finish)))"

text \<open>The three hops of an activation: the RAN-facing one of a chained session, the anchor, and the
  breakout anchor.\<close>

definition activate_ran_hop :: "pfcp_lib \<Rightarrow> SmContext \<Rightarrow> u32 \<times> u32 \<Rightarrow> bool \<Rightarrow> proc \<Rightarrow> proc" where
  "activate_ran_hop L c gnb end_marker p = (case sc_chain c of
     None \<Rightarrow> p
   | Some leg \<Rightarrow> (case sp_intermediate (sc_path c) of
       None \<Rightarrow> Done (Status 500)
     | Some iupf \<Rightarrow> transact iupf (\<lambda>seq. session_modification_request_msg L (leg_up_seid leg) seq FAR_ID (fst gnb) (snd gnb)
           (sc_dnn c) end_marker) (\<lambda>r. if accepted L r then p else Done (Status 502))))"

definition activate_breakout :: "pfcp_lib \<Rightarrow> SmContext \<Rightarrow> proc \<Rightarrow> proc" where
  "activate_breakout L c p = (case sc_chain c of
     Some leg \<Rightarrow> (case (leg_breakout_seid leg, sp_breakout (sc_path c)) of
         (Some seid, Some (psa2, _)) \<Rightarrow> point_downlink_at L psa2 seid (leg_dl_ingress leg) (sc_dnn c)
           (\<lambda>ok. if ok then p else Done (Status 502))
       | _ \<Rightarrow> p)
   | None \<Rightarrow> p)"

definition activate :: "pfcp_lib \<Rightarrow> string \<Rightarrow> SmContext \<Rightarrow> u32 \<times> u32 \<Rightarrow> proc" where
  "activate L sm_ref c gnb =
    (let end_marker = (case sc_gnb c of Some g \<Rightarrow> g \<noteq> gnb | None \<Rightarrow> False);
         target = (case sc_chain c of Some leg \<Rightarrow> leg_dl_ingress leg | None \<Rightarrow> gnb)
     in activate_ran_hop L c gnb end_marker
         (transact (sp_anchor (sc_path c)) (\<lambda>seq. session_modification_request_msg L (sc_up_seid c) seq FAR_ID (fst target) (snd target)
             (sc_dnn c) (end_marker \<and> sc_chain c = None)) (\<lambda>r.
           if \<not> accepted L r then Done (Status 502)
           else activate_breakout L c (effect (update_context sm_ref (\<lambda>c. c\<lparr>sc_gnb := Some gnb\<rparr>)) (Done (Status 200))))))"

definition update_sm_context :: "pfcp_lib \<Rightarrow> string \<Rightarrow> SmContextUpdateData \<Rightarrow> proc" where
  "update_sm_context L sm_ref req =
    (if ud_up_cnx_state req = Some ''DEACTIVATED'' then deactivate_up L sm_ref
     else if ud_up_cnx_state req = Some ''ACTIVATING'' then
       look (get_context sm_ref) (\<lambda>ctx. case ctx of
         Some c \<Rightarrow> Done (ActivationInfo (created_data sm_ref c None None)) | None \<Rightarrow> Done (Status 404))
     else (case (ud_gnb_n3_teid req, ud_gnb_n3_addr req) of
         (Some teid_hex, Some gnb_addr) \<Rightarrow> (case parse_hex_u32 teid_hex of
             None \<Rightarrow> Done (Status 400)
           | Some gnb_teid \<Rightarrow> if \<not> valid_gnb_target gnb_teid gnb_addr then Done (Status 400)
               else look (get_context sm_ref) (\<lambda>ctx. case ctx of
                   Some c \<Rightarrow> activate L sm_ref c (gnb_teid, gnb_addr) | None \<Rightarrow> Done (Status 404)))
       | _ \<Rightarrow> Done (Status 400)))"

subsection \<open>Indirect forwarding\<close>

definition take_indirect_fwd :: "string \<Rightarrow> SmfState \<Rightarrow> (u64 \<times> string) option \<times> SmfState" where
  "take_indirect_fwd sm_ref s =
    (Option.bind (get_context sm_ref s) (\<lambda>c. map_option (\<lambda>seid. (seid, sp_anchor (sc_path c))) (sc_indirect_fwd c)),
     update_context sm_ref (\<lambda>c. c\<lparr>sc_indirect_fwd := None\<rparr>) s)"

definition indirect_forwarding :: "pfcp_lib \<Rightarrow> string \<Rightarrow> IndirectForwardingReq \<Rightarrow> proc" where
  "indirect_forwarding L sm_ref req =
    (if if_release req then
       atomic (take_indirect_fwd sm_ref) (\<lambda>taken. case taken of
         None \<Rightarrow> Done (Status 204)
       | Some (seid, anchor) \<Rightarrow> delete_at anchor seid (\<lambda>r. Done (Status (if accepted L r then 204 else 502))))
     else (case (Option.bind (if_target_n3_teid req) parse_hex_u32, if_target_n3_addr req) of
         (Some target_teid, Some target_addr) \<Rightarrow>
           look (get_context sm_ref) (\<lambda>ctx. case ctx of
             None \<Rightarrow> Done (Status 404)
           | Some c \<Rightarrow> next_cp_seid (\<lambda>cp ip _. transact (sp_anchor (sc_path c))
               (\<lambda>seq. session_establishment_request_indirect_forwarding_msg L cp seq ip target_teid target_addr) (\<lambda>r.
                 case established L r of
                   None \<Rightarrow> Done (Status 502)
                 | Some e \<Rightarrow> effect (update_context sm_ref (\<lambda>c. c\<lparr>sc_indirect_fwd := Some (es_up_seid e)\<rparr>))
                     (Done (ForwardingUp (hex08 (es_n3_teid e)) (es_n3_addr e))))))
       | _ \<Rightarrow> Done (Status 400)))"

subsection \<open>Release\<close>

definition delete_legs :: "SmContext \<Rightarrow> proc \<Rightarrow> proc" where
  "delete_legs c p = (case (sc_chain c, sp_intermediate (sc_path c)) of
     (Some leg, Some iupf) \<Rightarrow> delete_at iupf (leg_up_seid leg) (\<lambda>_.
       case (leg_breakout_seid leg, sp_breakout (sc_path c)) of
         (Some seid, Some (psa2, _)) \<Rightarrow> delete_at psa2 seid (\<lambda>_. p)
       | _ \<Rightarrow> p)
   | _ \<Rightarrow> p)"

definition release_charging :: "SmContext \<Rightarrow> usage_volume list \<Rightarrow> proc \<Rightarrow> proc" where
  "release_charging c usages p = (case sc_charging c of
     Some (chf, charging_ref) \<Rightarrow> Notify (ChargingRelease chf charging_ref (sc_supi c) (map (\<lambda>u. container_for u (sc_policy c)) usages)) p
   | None \<Rightarrow> p)"

definition delete_policy :: "SmContext \<Rightarrow> proc \<Rightarrow> proc" where
  "delete_policy c p = (case sc_sm_policy c of Some (pcf, policy_id) \<Rightarrow> Notify (PolicyDelete pcf policy_id) p | None \<Rightarrow> p)"

definition teardown_sm_context :: "pfcp_lib \<Rightarrow> string \<Rightarrow> (response \<Rightarrow> proc) \<Rightarrow> proc" where
  "teardown_sm_context L sm_ref k = look (get_context sm_ref) (\<lambda>ctx. case ctx of
     None \<Rightarrow> k (Problem 404 ''CONTEXT_NOT_FOUND'')
   | Some c \<Rightarrow> delete_at (sp_anchor (sc_path c)) (sc_up_seid c) (\<lambda>r. case r of
       None \<Rightarrow> k (Problem 502 ''UPF_NOT_RESPONDING'')
     | Some resp \<Rightarrow> delete_legs c (release_charging c (usages_from_deletion_response L resp)
         (effect (remove_context sm_ref)
           (release_addresses (sc_ue_ip c) (context_v6 c)
             (effect (unreserve (sc_reserved_gfbr c))
               (Notify (UecmPurge (sc_supi c) (sc_pdu_session_id c)) (delete_policy c (k (Status 204))))))))))"

definition release_sm_context :: "pfcp_lib \<Rightarrow> string \<Rightarrow> proc" where
  "release_sm_context L sm_ref = teardown_sm_context L sm_ref Done"

subsection \<open>Reports of the UPF\<close>

definition handle_dl_data_report :: "u64 \<Rightarrow> u32 \<Rightarrow> proc" where
  "handle_dl_data_report cp seq = look (\<lambda>s. find (\<lambda>c. sc_cp_seid c = cp) (map snd (contexts s))) (\<lambda>ctx. case ctx of
     None \<Rightarrow> Done Ended
   | Some c \<Rightarrow> SendN4 (sp_anchor (sc_path c)) (session_report_response_msg (sc_up_seid c) seq)
       (Notify (AmfPage (sc_supi c)) (Done Ended)))"

text \<open>One turn of \<open>handle_usage_reports\<close>.\<close>

definition handle_usage_report :: "pfcp_lib \<Rightarrow> bytes \<Rightarrow> proc" where
  "handle_usage_report L report = (case parse_dl_data_report L report of
     Some (cp, seq) \<Rightarrow> handle_dl_data_report cp seq
   | None \<Rightarrow> (case parse_session_report_request L report of
       None \<Rightarrow> Done Ended
     | Some (cp, seq, usage) \<Rightarrow> look (\<lambda>s. find (\<lambda>(_, c). sc_cp_seid c = cp) (contexts s)) (\<lambda>ctx. case ctx of
         None \<Rightarrow> Done Ended
       | Some (sm_ref, c) \<Rightarrow> SendN4 (sp_anchor (sc_path c)) (session_report_response_msg (sc_up_seid c) seq)
           (case sc_charging c of
              None \<Rightarrow> Done Ended
            | Some (chf, charging_ref) \<Rightarrow> AskChargingUpdate chf charging_ref (sc_supi c) (container_for usage (sc_policy c)) (\<lambda>r.
                if r = Some True then teardown_sm_context L sm_ref (\<lambda>_. Done Ended) else Done Ended)))))"

subsection \<open>Policy refresh\<close>

definition rerate_session :: "pfcp_lib \<Rightarrow> SmContext \<Rightarrow> SmPolicyDecision \<Rightarrow> proc \<Rightarrow> proc" where
  "rerate_session L c decision p = (case ambr_bps decision of
     Some a \<Rightarrow> if ambr_bps (sc_policy c) \<noteq> Some a
       then transact (sp_anchor (sc_path c)) (\<lambda>seq. session_qer_update_request_msg (sc_up_seid c) seq a) (\<lambda>_. p) else p
   | None \<Rightarrow> p)"

definition reflow_session :: "pfcp_lib \<Rightarrow> SmContext \<Rightarrow> SmPolicyDecision \<Rightarrow> proc \<Rightarrow> proc" where
  "reflow_session L c decision p =
    (case diff_flows (decision_flow_qers (sc_policy c)) (decision_flow_qers decision) of (create, update, gone) \<Rightarrow>
      if create \<noteq> [] \<or> update \<noteq> [] \<or> gone \<noteq> []
      then transact (sp_anchor (sc_path c)) (\<lambda>seq. session_flow_modification_request_msg L (sc_up_seid c) seq create update gone) (\<lambda>_. p)
      else p)"

definition released_qfis :: "SmPolicyDecision \<Rightarrow> SmPolicyDecision \<Rightarrow> u8 list" where
  "released_qfis old new = map fq_qfi (filter (\<lambda>x. \<not> list_ex (\<lambda>n. fq_qfi n = fq_qfi x) (decision_flow_qers new)) (decision_flow_qers old))"

definition record_policy :: "string \<Rightarrow> SmPolicyDecision \<Rightarrow> SmfState \<Rightarrow> SmfState" where
  "record_policy sm_ref decision s = (case get_context sm_ref s of
     None \<Rightarrow> s
   | Some c \<Rightarrow>
       (let g = decision_gfbr decision;
            s' = (if sc_reserved_gfbr c \<noteq> g then s\<lparr>reserved_gfbr_bps := adjust_gfbr (reserved_gfbr_bps s) (sc_reserved_gfbr c) g\<rparr> else s)
        in update_context sm_ref (\<lambda>c. c\<lparr>sc_reserved_gfbr := g, sc_policy := decision\<rparr>) s'))"

text \<open>Equality of hash maps: as many entries, each of them found in the other.\<close>

definition hm_eq :: "'a hmap \<Rightarrow> 'a hmap \<Rightarrow> bool" where
  "hm_eq a b = (length a = length b \<and> list_all (\<lambda>(k, v). map_of b k = Some v) a)"

definition decision_eq :: "SmPolicyDecision \<Rightarrow> SmPolicyDecision \<Rightarrow> bool" where
  "decision_eq a b = (hm_eq (session_rules a) (session_rules b) \<and> hm_eq (pcc_rules a) (pcc_rules b)
     \<and> hm_eq (qos_descs a) (qos_descs b) \<and> hm_eq (charging_descs a) (charging_descs b)
     \<and> hm_eq (traffic_control_data a) (traffic_control_data b))"

definition refresh_sm_policy :: "pfcp_lib \<Rightarrow> string \<Rightarrow> proc" where
  "refresh_sm_policy L sm_ref = look (get_context sm_ref) (\<lambda>ctx. case ctx of
     None \<Rightarrow> Done (Problem 404 ''CONTEXT_NOT_FOUND'')
   | Some c \<Rightarrow> (case sc_sm_policy c of
       None \<Rightarrow> Done (Status 204)
     | Some (pcf, policy_id) \<Rightarrow> AskPolicyUpdate pcf policy_id (\<lambda>a. case a of
         None \<Rightarrow> Done (Problem 502 ''PCF_UNREACHABLE'')
       | Some u \<Rightarrow> (let decision = apply_update (sc_policy c) u in
           rerate_session L c decision (reflow_session L c decision
             (effect (record_policy sm_ref decision)
               (reconcile_influence_breakout L sm_ref
                 (if \<not> decision_eq (sc_policy c) decision
                  then Notify (AmfModify (sc_supi c) (sc_pdu_session_id c) decision (released_qfis (sc_policy c) decision))
                    (Done (PolicyRefreshed decision))
                  else Done (PolicyRefreshed decision)))))))))"

end
