(* ===== verification/Smf_Leases.thy ===== *)
theory Smf_Leases
  imports Smf_Handlers "HOL-Library.Multiset"
begin

section \<open>Address leases under interleaving\<close>

text \<open>
  Who owns a UE address. Every address a pool has handed out belongs to exactly one SM context or to
  exactly one running handler. A handler is \<open>safe\<close> with the things it owns when each of its atomic
  actions keeps that balance whatever the other handlers own, and it ends owning no address; safe
  handlers keep the balance in every interleaving.
\<close>

subsection \<open>Executions\<close>

text \<open>One step of a process: an atomic action, or an answer of the environment.\<close>

inductive pstep :: "SmfState \<Rightarrow> proc \<Rightarrow> SmfState \<Rightarrow> proc \<Rightarrow> bool" where
  act: "next_ref s \<noteq> - 1 \<Longrightarrow> pstep s (Act f k) (f s) (k s)"
| transact: "pstep s (Transact n m k) s (k r)"
| send: "pstep s (SendN4 n m p) s p"
| subscription: "pstep s (AskSubscription a b c d k) s (k r1)"
| policy: "pstep s (AskPolicy x k) s (k r2)"
| policy_update: "pstep s (AskPolicyUpdate a b k) s (k r3)"
| charging: "pstep s (AskCharging a psi b k) s (k r4)"
| charging_update: "pstep s (AskChargingUpdate a b c u k) s (k r5)"
| notify: "pstep s (Notify n p) s p"

inductive_cases pstepE: "pstep s p s' p'"

text \<open>A run of one process without interference.\<close>

inductive solo :: "SmfState \<Rightarrow> proc \<Rightarrow> SmfState \<Rightarrow> proc \<Rightarrow> bool" where
  solo_refl: "solo s p s p"
| solo_step: "pstep s p s' p' \<Longrightarrow> solo s' p' s'' p'' \<Longrightarrow> solo s p s'' p''"

subsection \<open>Ownership\<close>

datatype token = V4 u32 | V6 u32 | Ref string

definition context_tokens :: "string \<times> SmContext \<Rightarrow> token multiset" where
  "context_tokens e = {#Ref (fst e)#} + (case sc_ue_ip (snd e) of Some a \<Rightarrow> {#V4 a#} | None \<Rightarrow> {#})
     + (case sc_ue_ipv6 (snd e) of Some (p, _) \<Rightarrow> {#V6 (index_of_ipv6 p)#} | None \<Rightarrow> {#})"

definition owned :: "SmfState \<Rightarrow> token multiset \<Rightarrow> token multiset" where
  "owned s A = sum_list (map context_tokens (contexts s)) + A"

definition balanced :: "SmfState \<Rightarrow> token multiset \<Rightarrow> bool" where
  "balanced s A = (pool_inv UE_IP_POOL_START (ue_ipv4_pool s) \<and> pool_inv 1 (ue_ipv6_pool s)
     \<and> (\<forall>t. count (owned s A) t \<le> 1)
     \<and> {a. V4 a \<in># owned s A} = pool_live UE_IP_POOL_START (ue_ipv4_pool s)
     \<and> {n. V6 n \<in># owned s A} = pool_live 1 (ue_ipv6_pool s)
     \<and> (\<forall>r. Ref r \<in># owned s A \<longrightarrow> (\<exists>n < next_ref s. r = show_word n)))"

fun is_ref :: "token \<Rightarrow> bool" where
  "is_ref (Ref _) = True" | "is_ref _ = False"

text \<open>An atomic action may turn what its handler owns from \<open>A\<close> into \<open>A'\<close> in front of every frame.\<close>

definition exchanges :: "(SmfState \<Rightarrow> SmfState) \<Rightarrow> SmfState \<Rightarrow> token multiset \<Rightarrow> token multiset \<Rightarrow> bool" where
  "exchanges f s A A' = (\<forall>F. next_ref s \<noteq> - 1 \<longrightarrow> balanced s (A + F) \<longrightarrow> balanced (f s) (A' + F))"

primrec safe :: "proc \<Rightarrow> token multiset \<Rightarrow> bool" where
  "safe (Done r) A = (\<forall>t\<in>#A. is_ref t)"
| "safe (Act f k) A = (\<forall>s. \<exists>A'. exchanges f s A A' \<and> safe (k s) A')"
| "safe (Transact n m k) A = (\<forall>r. safe (k r) A)"
| "safe (SendN4 n m p) A = safe p A"
| "safe (AskSubscription a b c d k) A = (\<forall>r. safe (k r) A)"
| "safe (AskPolicy x k) A = (\<forall>r. safe (k r) A)"
| "safe (AskPolicyUpdate a b k) A = (\<forall>r. safe (k r) A)"
| "safe (AskCharging a psi b k) A = (\<forall>r. safe (k r) A)"
| "safe (AskChargingUpdate a b c u k) A = (\<forall>r. safe (k r) A)"
| "safe (Notify n p) A = safe p A"

lemma safe_step:
  assumes "pstep s p s' p'" "safe p A" "balanced s (A + F)"
  shows "\<exists>A'. safe p' A' \<and> balanced s' (A' + F)"
  using assms by (cases rule: pstep.cases) (fastforce simp: exchanges_def)+

subsection \<open>Exchanges\<close>

text \<open>Actions that touch neither pool, no reference and no address of a context.\<close>

definition neutral :: "(SmfState \<Rightarrow> SmfState) \<Rightarrow> bool" where
  "neutral f = (\<forall>s. ue_ipv4_pool (f s) = ue_ipv4_pool s \<and> ue_ipv6_pool (f s) = ue_ipv6_pool s \<and> next_ref (f s) = next_ref s
     \<and> map context_tokens (contexts (f s)) = map context_tokens (contexts s))"

lemma neutral_exchanges: "neutral f \<Longrightarrow> exchanges f s A A"
  by (simp add: neutral_def exchanges_def balanced_def owned_def)

named_theorems neutral_rules

lemma neutral_id [neutral_rules]: "neutral (\<lambda>s. s)"
  by (simp add: neutral_def)

lemma neutral_update_context [neutral_rules]:
  assumes "\<And>c. sc_ue_ip (g c) = sc_ue_ip c" "\<And>c. sc_ue_ipv6 (g c) = sc_ue_ipv6 c"
  shows "neutral (update_context r g)"
  using assms by (auto simp: neutral_def update_context_def hm_update_def context_tokens_def intro!: map_map_first)

lemma neutral_plain [neutral_rules]:
  "neutral (\<lambda>s. snd (next_seq n s))" "neutral (\<lambda>s. snd (take_cp_seid s))" "neutral (\<lambda>s. snd (reserve g s))"
  "neutral (unreserve g)" "neutral (\<lambda>s. snd (note_recovery n ts s))"
  by (simp_all add: neutral_def next_seq_def take_cp_seid_def reserve_def unreserve_def note_recovery_def Let_def)

lemma neutral_record_policy [neutral_rules]: "neutral (record_policy r d)"
proof -
  have n: "neutral (update_context r (\<lambda>c. c\<lparr>sc_reserved_gfbr := g, sc_policy := d\<rparr>))" for g
    by (rule neutral_update_context) simp_all
  then show ?thesis by (simp add: neutral_def record_policy_def Let_def split: option.split)
qed

lemma neutral_take_indirect [neutral_rules]: "neutral (\<lambda>s. snd (take_indirect_fwd r s))"
  using neutral_update_context[of "\<lambda>c. c\<lparr>sc_indirect_fwd := None\<rparr>" r] by (simp add: take_indirect_fwd_def)

lemma count_owned_add: "owned s (A + F) = owned s F + A"
  by (simp add: owned_def ac_simps)

lemma exchanges_take_ref: "exchanges (\<lambda>s. snd (take_ref s)) s A (A + {#Ref (show_word (next_ref s))#})"
  unfolding exchanges_def
proof (intro allI impI)
  fix F assume r: "next_ref s \<noteq> - 1" and b: "balanced s (A + F)"
  let ?r = "show_word (next_ref s)"
  have o: "owned (snd (take_ref s)) (A + {#Ref ?r#} + F) = add_mset (Ref ?r) (owned s (A + F))"
    by (simp add: take_ref_def owned_def)
  have inj: "show_word n = show_word m \<Longrightarrow> n = m" for n m :: u64 by (metis parse_show_word option.inject)
  have "Ref ?r \<notin># owned s (A + F)"
  proof
    assume "Ref ?r \<in># owned s (A + F)"
    then obtain n where "n < next_ref s" "?r = show_word n" using b unfolding balanced_def by blast
    then show False using inj[of "next_ref s" n] by simp
  qed
  then have "\<forall>t. count (add_mset (Ref ?r) (owned s (A + F))) t \<le> 1"
    using b by (auto simp: balanced_def not_in_iff)
  moreover have "unat (next_ref s + 1) = Suc (unat (next_ref s))"
    using r unsigned_less[of "next_ref s", where ?'a = nat] unat_minus_one_word_eq[where 'a = 64]
    by (simp add: unat_word_ariths word_unat_eq_iff)
  then have "n < next_ref s \<Longrightarrow> n < next_ref s + 1" "next_ref s < next_ref s + 1" for n
    by (simp_all add: word_less_nat_alt)
  moreover from this have "\<exists>n < next_ref s + 1. q = show_word n" if "Ref q \<in># add_mset (Ref ?r) (owned s (A + F))" for q
    using that b unfolding balanced_def by (cases "q = ?r") (auto, blast)
  ultimately show "balanced (snd (take_ref s)) (A + {#Ref ?r#} + F)"
    using b unfolding balanced_def o by (simp add: take_ref_def)
qed

text \<open>Taking one token that is nowhere yet, and giving one up.\<close>

lemma balanced_gain:
  assumes "balanced s X" "owned s' Y = add_mset t (owned s X)" "t \<notin># owned s X" "\<not> is_ref t" "next_ref s' = next_ref s"
    and "pool_inv UE_IP_POOL_START (ue_ipv4_pool s')" "pool_inv 1 (ue_ipv6_pool s')"
    and "pool_live UE_IP_POOL_START (ue_ipv4_pool s') = {a. V4 a = t} \<union> pool_live UE_IP_POOL_START (ue_ipv4_pool s)"
    and "pool_live 1 (ue_ipv6_pool s') = {a. V6 a = t} \<union> pool_live 1 (ue_ipv6_pool s)"
  shows "balanced s' Y"
proof -
  have "\<forall>u. count (add_mset t (owned s X)) u \<le> 1" using assms(1,3) by (auto simp: balanced_def not_in_iff)
  moreover have "{a. V4 a \<in># add_mset t (owned s X)} = {a. V4 a = t} \<union> {a. V4 a \<in># owned s X}"
      "{a. V6 a \<in># add_mset t (owned s X)} = {a. V6 a = t} \<union> {a. V6 a \<in># owned s X}" by auto
  moreover have "Ref r \<in># add_mset t (owned s X) \<longleftrightarrow> Ref r \<in># owned s X" for r using assms(4) by auto
  ultimately show ?thesis using assms(1) unfolding balanced_def assms(2,5,8,9) using assms(6,7) by simp
qed

lemma balanced_give:
  assumes "balanced s X" "owned s X = add_mset t (owned s' Y)" "next_ref s' = next_ref s" "\<not> is_ref t"
    and "pool_inv UE_IP_POOL_START (ue_ipv4_pool s')" "pool_inv 1 (ue_ipv6_pool s')"
    and "pool_live UE_IP_POOL_START (ue_ipv4_pool s') = pool_live UE_IP_POOL_START (ue_ipv4_pool s) - {a. V4 a = t}"
    and "pool_live 1 (ue_ipv6_pool s') = pool_live 1 (ue_ipv6_pool s) - {a. V6 a = t}"
  shows "balanced s' Y"
proof -
  have c: "count (add_mset t (owned s' Y)) u \<le> 1" for u using assms(1,2) by (simp add: balanced_def)
  have "t \<notin># owned s' Y" using c[of t] by (simp add: not_in_iff)
  then have "{a. V4 a \<in># owned s' Y} = {a. V4 a \<in># add_mset t (owned s' Y)} - {a. V4 a = t}"
      "{a. V6 a \<in># owned s' Y} = {a. V6 a \<in># add_mset t (owned s' Y)} - {a. V6 a = t}" by auto
  moreover have "count (owned s' Y) u \<le> 1" for u using c[of u] by (simp split: if_splits)
  moreover have "Ref r \<in># owned s' Y \<Longrightarrow> \<exists>n < next_ref s. r = show_word n" for r
    using assms(1) unfolding balanced_def assms(2) by auto
  ultimately show ?thesis using assms(1) unfolding balanced_def assms(2,3,7,8) using assms(5,6) by simp
qed

lemma exchanges_alloc_ip:
  "exchanges (\<lambda>s. snd (alloc_ip s)) s A (case fst (alloc_ip s) of Some a \<Rightarrow> add_mset (V4 a) A | None \<Rightarrow> A)"
  unfolding exchanges_def
proof (intro allI impI)
  fix F assume b: "balanced s (A + F)"
  let ?p = "ue_ipv4_pool s"
  have i: "pool_inv UE_IP_POOL_START ?p" and l: "{a. V4 a \<in># owned s (A + F)} = pool_live UE_IP_POOL_START ?p"
    using b by (simp_all add: balanced_def)
  show "balanced (snd (alloc_ip s)) ((case fst (alloc_ip s) of Some a \<Rightarrow> add_mset (V4 a) A | None \<Rightarrow> A) + F)"
  proof (cases "fst (pool_alloc ?p)")
    case None
    then have "snd (pool_alloc ?p) = ?p" using pool.alloc_None[OF i, of "snd (pool_alloc ?p)"] by (metis prod.collapse)
    then show ?thesis using None b by (simp add: alloc_ip_def)
  next
    case (Some a)
    then have "pool_alloc ?p = (Some a, snd (pool_alloc ?p))" by (metis prod.collapse)
    note n = pool_alloc_Some[OF i this]
    have "V4 a \<notin># owned s (A + F)" using n l by blast
    then show ?thesis
      by (rule balanced_gain[OF b, rotated]) (use n Some b in \<open>auto simp: alloc_ip_def owned_def balanced_def\<close>)
  qed
qed

lemma exchanges_alloc_ip6:
  "exchanges (\<lambda>s. snd (alloc_ip6 s)) s A (case fst (alloc_ip6 s) of Some x \<Rightarrow> add_mset (V6 (index_of_ipv6 (fst x))) A | None \<Rightarrow> A)"
  unfolding exchanges_def
proof (intro allI impI)
  fix F assume b: "balanced s (A + F)"
  let ?p = "ue_ipv6_pool s"
  have i: "pool_inv 1 ?p" and l: "{a. V6 a \<in># owned s (A + F)} = pool_live 1 ?p"
    using b by (simp_all add: balanced_def)
  show "balanced (snd (alloc_ip6 s)) ((case fst (alloc_ip6 s) of Some x \<Rightarrow> add_mset (V6 (index_of_ipv6 (fst x))) A | None \<Rightarrow> A) + F)"
  proof (cases "fst (pool_alloc ?p)")
    case None
    then have "snd (pool_alloc ?p) = ?p" using pool.alloc_None[OF i, of "snd (pool_alloc ?p)"] by (metis prod.collapse)
    then show ?thesis using None b by (simp add: alloc_ip6_def alloc_ue_ipv6_def case_prod_beta)
  next
    case (Some a)
    then have "pool_alloc ?p = (Some a, snd (pool_alloc ?p))" by (metis prod.collapse)
    note n = pool_alloc_Some[OF i this]
    have "V6 a \<notin># owned s (A + F)" using n l by blast
    then show ?thesis
      by (rule balanced_gain[OF b, rotated])
        (use n Some b in \<open>auto simp: alloc_ip6_def alloc_ue_ipv6_def case_prod_beta owned_def balanced_def\<close>)
  qed
qed

lemma exchanges_release_ip: "exchanges (release_ip a) s (add_mset (V4 a) A) A"
  unfolding exchanges_def
proof (intro allI impI)
  fix F assume b: "balanced s (add_mset (V4 a) A + F)"
  have "V4 a \<in># owned s (add_mset (V4 a) A + F)" by (simp add: owned_def)
  then have i: "pool_inv UE_IP_POOL_START (ue_ipv4_pool s)" and "a \<in> pool_live UE_IP_POOL_START (ue_ipv4_pool s)"
    using b unfolding balanced_def by blast+
  then have n: "a \<in> {UE_IP_POOL_START..<pool_end (ue_ipv4_pool s)}" using pool.live_range by blast
  show "balanced (release_ip a s) (A + F)"
    by (rule balanced_give[OF b]) (use pool_release_live[OF i n] b in \<open>auto simp: release_ip_def owned_def balanced_def\<close>)
qed

lemma exchanges_release_ip6: "exchanges (release_ip6 x) s (add_mset (V6 (index_of_ipv6 x)) A) A"
  unfolding exchanges_def
proof (intro allI impI)
  fix F assume b: "balanced s (add_mset (V6 (index_of_ipv6 x)) A + F)"
  have "V6 (index_of_ipv6 x) \<in># owned s (add_mset (V6 (index_of_ipv6 x)) A + F)" by (simp add: owned_def)
  then have i: "pool_inv 1 (ue_ipv6_pool s)" and "index_of_ipv6 x \<in> pool_live 1 (ue_ipv6_pool s)"
    using b unfolding balanced_def by blast+
  then have n: "index_of_ipv6 x \<in> {1..<pool_end (ue_ipv6_pool s)}" using pool.live_range by blast
  show "balanced (release_ip6 x s) (A + F)"
    by (rule balanced_give[OF b])
      (use pool_release_live[OF i n] b in \<open>auto simp: release_ip6_def release_ue_ipv6_def owned_def balanced_def\<close>)
qed

lemma balanced_same_pools:
  assumes "balanced s X" "owned s' Y = owned s X" "ue_ipv4_pool s' = ue_ipv4_pool s" "ue_ipv6_pool s' = ue_ipv6_pool s"
    "next_ref s' = next_ref s"
  shows "balanced s' Y"
  using assms by (simp add: balanced_def)

lemma exchanges_insert_context: "exchanges (insert_context r c) s (context_tokens (r, c) + A) A"
  unfolding exchanges_def
proof (intro allI impI)
  fix F assume b: "balanced s (context_tokens (r, c) + A + F)"
  let ?o = "owned s (context_tokens (r, c) + A + F)"
  have "r \<notin> fst ` set (contexts s)"
  proof
    assume "r \<in> fst ` set (contexts s)"
    then obtain e xs ys where e: "contexts s = xs @ e # ys" "fst e = r" by (metis imageE split_list)
    then have "count (sum_list (map context_tokens (contexts s))) (Ref r) \<ge> 1" by (simp add: context_tokens_def)
    moreover have "count (context_tokens (r, c)) (Ref r) \<ge> 1" by (simp add: context_tokens_def)
    moreover have "count ?o (Ref r) \<ge> count (sum_list (map context_tokens (contexts s))) (Ref r) + count (context_tokens (r, c)) (Ref r)"
      by (simp add: owned_def)
    moreover have "count ?o (Ref r) \<le> 1" using b by (simp add: balanced_def)
    ultimately show False by linarith
  qed
  then have "contexts (insert_context r c s) = contexts s @ [(r, c)]"
    by (simp add: insert_context_def hm_insert_def map_of_eq_None_iff)
  then show "balanced (insert_context r c s) (A + F)"
    by (intro balanced_same_pools[OF b]) (auto simp: owned_def insert_context_def ac_simps)
qed

definition addresses :: "SmContext \<Rightarrow> token multiset" where
  "addresses c = (case sc_ue_ip c of Some a \<Rightarrow> {#V4 a#} | None \<Rightarrow> {#})
     + (case context_v6 c of Some p \<Rightarrow> {#V6 (index_of_ipv6 p)#} | None \<Rightarrow> {#})"

lemma context_tokens_addresses: "context_tokens e = add_mset (Ref (fst e)) (addresses (snd e))"
  by (auto simp: context_tokens_def addresses_def context_v6_def split: option.split)

lemma exchanges_drop_contexts:
  "exchanges (\<lambda>s. snd (drop_contexts peer s)) s A
     (sum_list (map context_tokens (filter (\<lambda>(_, c). path_uses (sc_path c) peer) (contexts s))) + A)"
proof -
  have "sum_list (map context_tokens (filter P cs)) + sum_list (map context_tokens (filter (\<lambda>e. \<not> P e) cs))
      = sum_list (map context_tokens cs)" for P cs by (induction cs) auto
  from this[of "\<lambda>(_, c). path_uses (sc_path c) peer" "contexts s"] show ?thesis
    unfolding exchanges_def
    by (intro allI impI, elim balanced_same_pools) (simp_all add: owned_def drop_contexts_def split_def ac_simps)
qed

subsection \<open>Safe processes\<close>

named_theorems safe_rules

lemma safe_act: "neutral f \<Longrightarrow> (\<And>s. safe (k s) A) \<Longrightarrow> safe (Act f k) A"
  by (auto intro!: exI[of _ A] neutral_exchanges)

lemma safe_atomic: "neutral (\<lambda>s. snd (f s)) \<Longrightarrow> (\<And>x. safe (k x) A) \<Longrightarrow> safe (atomic f k) A"
  unfolding atomic_def by (rule safe_act)

lemma safe_effect: "neutral f \<Longrightarrow> safe p A \<Longrightarrow> safe (effect f p) A"
  unfolding effect_def by (rule safe_act)

lemma safe_look [safe_rules]: "(\<And>x. safe (k x) A) \<Longrightarrow> safe (look f k) A"
  unfolding look_def by (intro safe_act neutral_rules)

lemma safe_transact [safe_rules]: "(\<And>r. safe (k r) A) \<Longrightarrow> safe (transact peer req k) A"
  unfolding transact_def by (intro safe_atomic neutral_rules) simp

lemma safe_next_cp_seid [safe_rules]: "(\<And>a b c. safe (k a b c) A) \<Longrightarrow> safe (next_cp_seid k) A"
  unfolding next_cp_seid_def by (intro safe_act neutral_rules)

lemma safe_unreserve [safe_rules]: "safe p A \<Longrightarrow> safe (effect (unreserve g) p) A"
  by (intro safe_effect neutral_rules)

lemma safe_update_context [safe_rules]:
  "(\<And>c. sc_ue_ip (g c) = sc_ue_ip c) \<Longrightarrow> (\<And>c. sc_ue_ipv6 (g c) = sc_ue_ipv6 c) \<Longrightarrow> safe p A \<Longrightarrow> safe (effect (update_context r g) p) A"
  by (intro safe_effect neutral_update_context)

lemma safe_delete_at [safe_rules]: "(\<And>r. safe (k r) A) \<Longrightarrow> safe (delete_at peer seid k) A"
  unfolding delete_at_def by (rule safe_transact)

lemma safe_point_downlink_at [safe_rules]: "(\<And>b. safe (k b) A) \<Longrightarrow> safe (point_downlink_at L peer seid t dnn k) A"
  unfolding point_downlink_at_def by (rule safe_transact)

lemma safe_associate [safe_rules]: "(\<And>b. safe (k b) A) \<Longrightarrow> safe (associate L now peer k) A"
  unfolding associate_def by (intro safe_rules) (auto intro!: safe_atomic neutral_rules split: option.split)

lemma safe_heartbeat [safe_rules]: "(\<And>b. safe (k b) A) \<Longrightarrow> safe (heartbeat L now peer k) A"
  unfolding heartbeat_def by (intro safe_rules) (auto intro!: safe_atomic neutral_rules split: option.split)

lemma safe_release_addresses:
  "safe p A \<Longrightarrow> safe (release_addresses v4 v6 p) ((case v4 of Some a \<Rightarrow> {#V4 a#} | None \<Rightarrow> {#})
     + (case v6 of Some x \<Rightarrow> {#V6 (index_of_ipv6 x)#} | None \<Rightarrow> {#}) + A)"
  by (auto simp: release_addresses_def effect_def Let_def split: option.split
      intro!: exI exchanges_release_ip exchanges_release_ip6)

lemma safe_release_context: "safe p A \<Longrightarrow> safe (release_addresses (sc_ue_ip c) (context_v6 c) p) (addresses c + A)"
  unfolding addresses_def by (rule safe_release_addresses)

lemma safe_release_dropped: "safe p A \<Longrightarrow> safe (release_dropped cs p) (sum_list (map addresses cs) + A)"
  by (induction cs) (auto simp: add.assoc intro!: safe_release_context safe_rules)

text \<open>Processes that own no address may keep references they never used.\<close>

definition no_address :: "token multiset \<Rightarrow> bool" where
  "no_address A = (\<forall>t\<in>#A. is_ref t)"

lemma safe_Done: "no_address A \<Longrightarrow> safe (Done r) A"
  by (simp add: no_address_def)

lemma safe_recover:
  assumes "\<And>B. no_address B \<Longrightarrow> safe p B" "no_address A"
  shows "safe (recover_from_upf_restart L now peer p) A"
proof -
  have "safe (release_dropped (fst (drop_contexts peer s)) p)
      (sum_list (map context_tokens (filter (\<lambda>(_, c). path_uses (sc_path c) peer) (contexts s))) + A)" for s
  proof -
    let ?es = "filter (\<lambda>(_, c). path_uses (sc_path c) peer) (contexts s)"
    have "sum_list (map context_tokens es) = sum_list (map addresses (map snd es)) + mset (map (\<lambda>e. Ref (fst e)) es)" for es
      by (induction es) (auto simp: context_tokens_addresses)
    moreover have "no_address (mset (map (\<lambda>e. Ref (fst e)) ?es) + A)" using assms(2) by (auto simp: no_address_def)
    ultimately show ?thesis
      using safe_release_dropped[OF assms(1), of "mset (map (\<lambda>e. Ref (fst e)) ?es) + A" "map snd ?es"]
      by (simp add: drop_contexts_def add.assoc)
  qed
  then show ?thesis
    unfolding recover_from_upf_restart_def atomic_def
    by (intro safe_associate) (auto intro!: exI exchanges_drop_contexts)
qed

lemma safe_heartbeat_round: "no_address A \<Longrightarrow> safe (heartbeat_round L now peers) A"
  by (induction peers arbitrary: A) (auto intro!: safe_rules safe_recover simp: no_address_def)

lemma safe_insert_breakout [safe_rules]:
  "(\<And>st. safe (k st) A) \<Longrightarrow> safe (insert_breakout L r leg iupf ue dnn pre via k) A"
  unfolding insert_breakout_def
  by (auto intro!: safe_rules simp: set_breakout_def split: option.split)

lemma safe_remove_breakout [safe_rules]: "(\<And>st. safe (k st) A) \<Longrightarrow> safe (remove_breakout L r leg iupf path k) A"
  unfolding remove_breakout_def
  by (auto intro!: safe_rules simp: set_breakout_def split: option.split)

lemma safe_mark [safe_rules]: "safe p A \<Longrightarrow> safe (mark_policy_breakout r b st p) A"
  by (auto simp: mark_policy_breakout_def intro!: safe_rules)

lemma safe_reconcile [safe_rules]: "safe p A \<Longrightarrow> safe (reconcile_influence_breakout L r p) A"
  unfolding reconcile_influence_breakout_def
  by (auto intro!: safe_rules split: option.split)

lemma safe_chain_breakout:
  "safe failed A \<Longrightarrow> (\<And>b. safe (k b) A) \<Longrightarrow> safe (chain_breakout L path ue dnn failed k) A"
  unfolding chain_breakout_def by (auto intro!: safe_rules split: option.split)

lemma safe_splice: "(\<And>b. safe (k b) A) \<Longrightarrow> safe (splice_downlink L path anchor br dl dnn k) A"
  unfolding splice_downlink_def by (auto intro!: safe_rules split: option.split)

lemma safe_establish_chain [safe_rules]: "(\<And>c. safe (k c) A) \<Longrightarrow> safe (establish_chain L path est ue dnn k) A"
  unfolding establish_chain_def by (auto intro!: safe_rules safe_chain_breakout safe_splice split: option.split)

lemma safe_chain_session:
  "safe failed A \<Longrightarrow> (\<And>c t a. safe (k c t a) A) \<Longrightarrow> safe (chain_session L path est ue dnn failed k) A"
  unfolding chain_session_def by (auto intro!: safe_rules split: option.split)

abbreviation tok4 :: "u32 option \<Rightarrow> token multiset" where
  "tok4 v \<equiv> (case v of Some a \<Rightarrow> {#V4 a#} | None \<Rightarrow> {#})"

abbreviation tok6 :: "128 word option \<Rightarrow> token multiset" where
  "tok6 v \<equiv> (case v of Some x \<Rightarrow> {#V6 (index_of_ipv6 x)#} | None \<Rightarrow> {#})"

lemma safe_alloc_v4:
  assumes "safe refused A" "\<And>v. safe (k v) (tok4 v + A)"
  shows "safe (alloc_v4 wanted refused k) A"
proof -
  have "exchanges (\<lambda>s. snd (alloc_ip s)) s A (tok4 (fst (alloc_ip s)) + A)" for s
    using exchanges_alloc_ip[of s A] by (simp split: option.splits)
  moreover have "safe (case v of Some ip \<Rightarrow> k (Some ip) | None \<Rightarrow> refused) (tok4 v + A)" for v
    using assms(1) assms(2)[of v] by (cases v) simp_all
  moreover have "safe (k None) A" using assms(2)[of None] by simp
  ultimately show ?thesis by (auto simp: alloc_v4_def atomic_def)
qed

lemma safe_alloc_v6:
  assumes "safe refused A" "\<And>v. safe (k v) (tok6 (map_option fst v) + A)"
  shows "safe (alloc_v6 wanted refused k) A"
proof -
  have "exchanges (\<lambda>s. snd (alloc_ip6 s)) s A (tok6 (map_option fst (fst (alloc_ip6 s))) + A)" for s
    using exchanges_alloc_ip6[of s A] by (cases "fst (alloc_ip6 s)") simp_all
  moreover have "safe (case v of Some ip \<Rightarrow> k (Some ip) | None \<Rightarrow> refused) (tok6 (map_option fst v) + A)" for v
    using assms(1) assms(2)[of v] by (cases v) simp_all
  moreover have "safe (k None) A" using assms(2)[of None] by simp
  ultimately show ?thesis by (auto simp: alloc_v6_def atomic_def)
qed

lemma safe_store_context:
  assumes "\<And>ch. context_tokens (r, ctx ch) = X" "no_address B"
  shows "safe (store_context L r ctx cause dns) (X + B)"
  using assms exchanges_insert_context[of r "ctx ch" s B for s ch]
  by (auto simp: store_context_def Let_def effect_def no_address_def intro!: exI[of _ B] safe_rules)

lemma safe_Transact: "(\<And>r. safe (k r) A) \<Longrightarrow> safe (Transact n m k) A"
  by simp

lemma safe_case_option: "safe a A \<Longrightarrow> (\<And>x. safe (f x) A) \<Longrightarrow> safe (case v of None \<Rightarrow> a | Some x \<Rightarrow> f x) A"
  by (cases v) simp_all

lemma safe_establish_session:
  assumes "no_address B"
  shows "safe (establish_session L req sub selected cause r decision sm_policy path) (add_mset (Ref r) B)"
proof -
  have n: "no_address (add_mset (Ref r) B)" using assms by (simp add: no_address_def)
  have drop: "safe (effect (unreserve g) (release_addresses v4 v6 (Done x))) (tok6 v6 + (tok4 v4 + add_mset (Ref r) B))" for g v4 v6 x
    using safe_release_addresses[OF safe_Done[OF n], of v4 v6] by (auto intro!: safe_rules simp: ac_simps)
  have drop4: "safe (effect (unreserve g) (release_addresses v4 None (Done x))) (tok4 v4 + add_mset (Ref r) B)" for g v4 x
    using drop[of g v4 None] by simp
  have store: "safe (store_context L r ctx cause dns) (tok6 (map_option fst v6) + (tok4 v4 + add_mset (Ref r) B))"
    if "\<And>ch. sc_ue_ip (ctx ch) = v4" "\<And>ch. sc_ue_ipv6 (ctx ch) = v6" for ctx v4 v6 dns
    using safe_store_context[of r ctx "tok6 (map_option fst v6) + (tok4 v4 + {#Ref r#})" B L cause dns] assms that
    by (simp add: context_tokens_addresses addresses_def context_v6_def ac_simps)
  show ?thesis
    unfolding establish_session_def Let_def
    by (intro safe_next_cp_seid safe_atomic neutral_rules safe_alloc_v4 safe_alloc_v6 drop4 safe_unreserve[OF safe_Done[OF n]]
        safe_Transact safe_case_option drop safe_chain_session store) simp_all
qed

lemma safe_create_sm_context: "safe (create_sm_context L req) {#}"
proof -
  have n: "no_address {#}" "no_address {#Ref r#}" for r by (simp_all add: no_address_def)
  have "exchanges (\<lambda>s. snd (take_ref s)) s {#} {#Ref (fst (take_ref s))#}" for s
    using exchanges_take_ref[of s "{#}"] by (simp add: take_ref_def)
  then have take: "safe (atomic (\<lambda>s. ((fst (take_ref s), callback_base s), snd (take_ref s))) (\<lambda>(r, base). k r base)) {#}"
    if "\<And>r base. safe (k r base) {#Ref r#}" for k
    using that by (auto simp: atomic_def)
  have est: "safe (establish_session L req sub selected cause r decision sm_policy path) {#Ref r#}"
    for sub selected cause r decision sm_policy path
    using safe_establish_session[of "{#}" L req sub selected cause r decision sm_policy path] n by simp
  show ?thesis
    unfolding create_sm_context_def
    by (auto split: option.split sum.split prod.split intro!: take est safe_rules safe_atomic neutral_rules)
qed

lemma safe_deactivate_up: "safe (deactivate_up L r) {#}"
  unfolding deactivate_up_def Let_def by (auto intro!: safe_rules split: option.split)

lemma safe_update_sm_context: "safe (update_sm_context L r req) {#}"
  unfolding update_sm_context_def activate_def activate_ran_hop_def activate_breakout_def Let_def
  by (auto intro!: safe_rules safe_deactivate_up split: option.split)

lemma safe_indirect_forwarding: "safe (indirect_forwarding L r req) {#}"
  unfolding indirect_forwarding_def
  by (auto intro!: safe_rules safe_atomic neutral_rules split: option.split)

lemma safe_oam_breakout: "safe (oam_breakout L req) {#}"
  unfolding oam_breakout_def by (auto intro!: safe_rules split: option.split)

lemma safe_refresh_sm_policy: "safe (refresh_sm_policy L r) {#}"
  unfolding refresh_sm_policy_def rerate_session_def reflow_session_def Let_def
  by (auto intro!: safe_rules safe_effect neutral_rules split: option.split prod.split)

lemma safe_smf_associate: "safe (smf_associate L now peers) {#}"
  by (induction peers) (auto intro!: safe_rules)

lemma safe_dl_data_report: "safe (handle_dl_data_report cp seq) {#}"
  unfolding handle_dl_data_report_def by (auto intro!: safe_rules split: option.split)

subsection \<open>Release without interference\<close>

text \<open>\<open>teardown_sm_context\<close> reads the context, awaits, and only then removes it. It keeps the balance when
  no other handler runs in between.\<close>

primrec quiet :: "proc \<Rightarrow> SmfState \<Rightarrow> token multiset \<Rightarrow> bool" where
  "quiet (Done r) s A = no_address A"
| "quiet (Act f k) s A = (\<exists>A'. exchanges f s A A' \<and> quiet (k s) (f s) A')"
| "quiet (Transact n m k) s A = (\<forall>r. quiet (k r) s A)"
| "quiet (SendN4 n m p) s A = quiet p s A"
| "quiet (AskSubscription a b c d k) s A = (\<forall>r. quiet (k r) s A)"
| "quiet (AskPolicy x k) s A = (\<forall>r. quiet (k r) s A)"
| "quiet (AskPolicyUpdate a b k) s A = (\<forall>r. quiet (k r) s A)"
| "quiet (AskCharging a psi b k) s A = (\<forall>r. quiet (k r) s A)"
| "quiet (AskChargingUpdate a b c u k) s A = (\<forall>r. quiet (k r) s A)"
| "quiet (Notify n p) s A = quiet p s A"

lemma quiet_run:
  assumes "solo s p s' p'" "quiet p s A" "balanced s (A + F)"
  shows "\<exists>A'. quiet p' s' A' \<and> balanced s' (A' + F)"
  using assms
proof (induction arbitrary: A)
  case (solo_step s p s' p' s'' p'')
  have "\<exists>A'. quiet p' s' A' \<and> balanced s' (A' + F)"
    using solo_step.hyps(1) solo_step.prems by (cases rule: pstep.cases) (fastforce simp: exchanges_def)+
  then show ?case using solo_step.IH by blast
qed blast

lemma quiet_safe: "safe p A \<Longrightarrow> quiet p s A"
  by (induction p arbitrary: A s) (fastforce simp: no_address_def)+

lemma quiet_transact:
  assumes "\<And>s' r. contexts s' = contexts s \<Longrightarrow> quiet (k r) s' A"
  shows "quiet (transact peer req k) s A"
proof -
  have "exchanges (\<lambda>s. snd (next_seq peer s)) s A A" by (intro neutral_exchanges neutral_rules)
  then show ?thesis using assms by (auto simp: transact_def atomic_def next_seq_def)
qed

lemma exchanges_remove_context:
  assumes "get_context r s = Some c"
  shows "exchanges (remove_context r) s A (add_mset (Ref r) (addresses c) + A)"
  unfolding exchanges_def
proof (intro allI impI)
  fix F assume b: "balanced s (A + F)"
  obtain xs ys where e: "contexts s = xs @ (r, c) # ys"
    using assms by (metis get_context_def map_of_SomeD split_list)
  have c: "count (owned s (A + F)) (Ref r) \<le> 1" using b by (simp add: balanced_def)
  have "fst e' \<noteq> r" if m: "e' \<in> set (xs @ ys)" for e'
  proof
    assume "fst e' = r"
    obtain us vs where u: "xs @ ys = us @ e' # vs" using split_list[OF m] by blast
    have "sum_list (map context_tokens (xs @ (r, c) # ys)) = context_tokens (r, c) + sum_list (map context_tokens (xs @ ys))" by simp
    then have "sum_list (map context_tokens (contexts s)) = context_tokens (r, c) + (context_tokens e' + sum_list (map context_tokens (us @ vs)))"
      unfolding e u by simp
    then have "count (owned s (A + F)) (Ref r) \<ge> count (context_tokens (r, c)) (Ref r) + count (context_tokens e') (Ref r)"
      by (simp add: owned_def)
    moreover have "count (context_tokens e') (Ref r) \<ge> 1" "count (context_tokens (r, c)) (Ref r) \<ge> 1"
      using \<open>fst e' = r\<close> by (simp_all add: context_tokens_addresses)
    ultimately have "count (owned s (A + F)) (Ref r) \<ge> 2" by linarith
    then show False using c by simp
  qed
  then have "contexts (remove_context r s) = xs @ ys"
    by (simp add: remove_context_def hm_remove_def e)
  then show "balanced (remove_context r s) (add_mset (Ref r) (addresses c) + A + F)"
    by (intro balanced_same_pools[OF b]) (simp_all add: owned_def remove_context_def e context_tokens_addresses ac_simps)
qed

lemma quiet_delete_at:
  "(\<And>s' r. contexts s' = contexts s \<Longrightarrow> quiet (k r) s' A) \<Longrightarrow> quiet (delete_at peer seid k) s A"
  unfolding delete_at_def by (rule quiet_transact)

lemma quiet_delete_legs: "(\<And>s'. contexts s' = contexts s \<Longrightarrow> quiet p s' A) \<Longrightarrow> quiet (delete_legs c p) s A"
  unfolding delete_legs_def by (auto intro!: quiet_delete_at split: option.split)

lemma quiet_teardown:
  assumes k: "\<And>A r. no_address A \<Longrightarrow> safe (k r) A"
  shows "quiet (teardown_sm_context L r k) s {#}"
proof (cases "get_context r s")
  case None
  then show ?thesis using k by (auto simp: teardown_sm_context_def look_def no_address_def intro!: quiet_safe exI[of _ "{#}"] neutral_exchanges neutral_rules)
next
  case (Some c)
  have "quiet (effect (remove_context r) (release_addresses (sc_ue_ip c) (context_v6 c)
      (effect (unreserve (sc_reserved_gfbr c)) (Notify n (delete_policy c (k x)))))) s' {#}"
    if "contexts s' = contexts s" for s' n x
  proof -
    have "safe (effect (unreserve (sc_reserved_gfbr c)) (Notify n (delete_policy c (k x)))) {#Ref r#}"
      by (auto intro!: safe_rules k simp: delete_policy_def no_address_def split: option.split)
    from safe_release_context[OF this, of c] exchanges_remove_context[of r s' c "{#}"] Some that show ?thesis
      by (auto simp: effect_def get_context_def intro!: exI[of _ "addresses c + {#Ref r#}"] quiet_safe)
  qed
  then have "quiet (delete_legs c (release_charging c us (effect (remove_context r) (release_addresses (sc_ue_ip c) (context_v6 c)
      (effect (unreserve (sc_reserved_gfbr c)) (Notify n (delete_policy c (k x)))))))) s' {#}" if "contexts s' = contexts s" for s' n x us
    using that by (intro quiet_delete_legs) (auto simp: release_charging_def split: option.split)
  moreover have "quiet (k x) s' {#}" for s' x by (rule quiet_safe) (simp add: k no_address_def)
  ultimately show ?thesis using Some
    by (auto simp: teardown_sm_context_def look_def split: option.split
        intro!: exI[of _ "{#}"] neutral_exchanges neutral_rules quiet_delete_at)
qed

lemma quiet_usage_report: "quiet (handle_usage_report L report) s {#}"
proof -
  have "quiet (teardown_sm_context L r (\<lambda>_. Done Ended)) s {#}" for r s
    by (rule quiet_teardown) (simp add: no_address_def)
  then show ?thesis
    unfolding handle_usage_report_def look_def
    by (auto split: option.split prod.split intro!: exI[of _ "{#}"] neutral_exchanges neutral_rules quiet_safe[OF safe_dl_data_report] simp: no_address_def)
qed

subsection \<open>The SMF\<close>

text \<open>The handlers that run concurrently. A release, or a usage report, which may end in one, is a step
  of its own: it runs without interference.\<close>

inductive smf_handler :: "pfcp_lib \<Rightarrow> proc \<Rightarrow> bool" for L where
  "smf_handler L (create_sm_context L creq)"
| "smf_handler L (update_sm_context L r ureq)"
| "smf_handler L (indirect_forwarding L r freq)"
| "smf_handler L (oam_breakout L breq)"
| "smf_handler L (refresh_sm_policy L r)"
| "smf_handler L (smf_associate L now peers)"
| "smf_handler L (heartbeat_round L now peers)"

inductive smf_step :: "pfcp_lib \<Rightarrow> SmfState \<times> proc list \<Rightarrow> SmfState \<times> proc list \<Rightarrow> bool" for L where
  arrive: "smf_handler L p \<Longrightarrow> smf_step L (s, ps) (s, ps @ [p])"
| move: "i < length ps \<Longrightarrow> pstep s (ps ! i) s' p' \<Longrightarrow> smf_step L (s, ps) (s', ps[i := p'])"
| release: "solo s (release_sm_context L r) s' (Done x) \<Longrightarrow> smf_step L (s, ps) (s', ps)"
| report: "solo s (handle_usage_report L rep) s' (Done x) \<Longrightarrow> smf_step L (s, ps) (s', ps)"

definition smf_reachable :: "pfcp_lib \<Rightarrow> SmfState \<Rightarrow> SmfState \<times> proc list \<Rightarrow> bool" where
  "smf_reachable L s0 = (smf_step L)\<^sup>*\<^sup>* (s0, [])"

lemma handler_safe: "smf_handler L p \<Longrightarrow> safe p {#}"
  by (induction rule: smf_handler.induct)
    (simp_all add: safe_create_sm_context safe_update_sm_context safe_indirect_forwarding safe_oam_breakout
      safe_refresh_sm_policy safe_smf_associate safe_heartbeat_round no_address_def)

definition settled :: "SmfState \<times> proc list \<Rightarrow> bool" where
  "settled c = (\<exists>As. list_all2 safe (snd c) As \<and> balanced (fst c) (sum_list As))"

lemma sum_list_frame:
  fixes As :: "token multiset list"
  assumes "i < length As"
  shows "\<exists>F. sum_list As = As ! i + F \<and> (\<forall>x. sum_list (As[i := x]) = x + F)"
proof -
  have "sum_list (As[i := x]) = x + sum_list (take i As @ drop (Suc i) As)" for x
    using assms by (simp add: upd_conv_take_nth_drop)
  from this[of "As ! i"] this show ?thesis by auto
qed

lemma quiet_solo:
  assumes "solo s p s' (Done x)" "quiet p s {#}" "balanced s F"
  shows "balanced s' F"
proof -
  obtain A where "no_address A" "balanced s' (A + F)" using quiet_run[OF assms(1,2), of F] assms(3) by auto
  then show ?thesis
  proof (induction A)
    case (add t A)
    then obtain r where t: "t = Ref r" by (cases t) (auto simp: no_address_def)
    have o: "owned s' (add_mset t A + F) = add_mset t (owned s' (A + F))" by (simp add: owned_def)
    have "count (owned s' (A + F)) u \<le> 1" for u
      using add.prems(2) unfolding balanced_def o by (metis count_add_mset Suc_leD)
    then have "balanced s' (A + F)" using add.prems(2) unfolding balanced_def o unfolding t by simp
    then show ?case using add by (simp add: no_address_def)
  qed simp
qed

lemma settled_step: "smf_step L c c' \<Longrightarrow> settled c \<Longrightarrow> settled c'"
proof (induction rule: smf_step.induct)
  case (arrive p s ps)
  then obtain As where "list_all2 safe ps As" "balanced s (sum_list As)" by (auto simp: settled_def)
  then show ?case using handler_safe[OF arrive.hyps]
    by (auto simp: settled_def intro!: exI[of _ "As @ [{#}]"] list_all2_appendI)
next
  case (move i ps s s' p')
  then obtain As where A: "list_all2 safe ps As" "balanced s (sum_list As)" by (auto simp: settled_def)
  then have i: "i < length As" using move.hyps(1) by (simp add: list_all2_lengthD)
  then obtain F where F: "sum_list As = As ! i + F" "\<And>x. sum_list (As[i := x]) = x + F" using sum_list_frame by blast
  have "safe (ps ! i) (As ! i)" using A(1) move.hyps(1) by (rule list_all2_nthD)
  from safe_step[OF move.hyps(2) this, of F] A(2) F obtain A' where "safe p' A'" "balanced s' (sum_list (As[i := A']))" by auto
  then show ?case using list_all2_update_cong[OF A(1)] by (auto simp: settled_def)
next
  case (release s r s' x ps)
  have "quiet (release_sm_context L r) s {#}"
    unfolding release_sm_context_def by (rule quiet_teardown) (simp add: no_address_def)
  from quiet_solo[OF release.hyps this] release.prems show ?case by (auto simp: settled_def)
next
  case (report s rep s' x ps)
  from quiet_solo[OF report.hyps quiet_usage_report] report.prems show ?case by (auto simp: settled_def)
qed

lemma settled_reachable:
  assumes "smf_reachable L (with_peers names routing ip) c"
  shows "settled c"
proof -
  have "settled (with_peers names routing ip, [])"
    by (simp add: settled_def balanced_def owned_def with_peers_def pool_new_inv)
  with assms show ?thesis unfolding smf_reachable_def
    by (induction rule: rtranclp_induct) (auto intro: settled_step)
qed

lemma owned_two:
  assumes "e \<in> set cs" "e' \<in> set cs" "e \<noteq> e'"
  shows "context_tokens e + context_tokens e' \<subseteq># sum_list (map context_tokens cs)"
proof -
  obtain xs ys where x: "cs = xs @ e # ys" using assms(1) split_list by metis
  then have "e' \<in> set (xs @ ys)" using assms(2,3) by auto
  then obtain us vs where u: "xs @ ys = us @ e' # vs" using split_list by metis
  have "sum_list (map context_tokens cs) = context_tokens e + sum_list (map context_tokens (xs @ ys))" by (simp add: x)
  also have "\<dots> = (context_tokens e + context_tokens e') + sum_list (map context_tokens (us @ vs))" unfolding u by simp
  finally show ?thesis by simp
qed

lemma tokens_disjoint:
  assumes "balanced s X" "e \<in> set (contexts s)" "e' \<in> set (contexts s)" "e \<noteq> e'" "t \<in># context_tokens e"
  shows "t \<notin># context_tokens e'"
proof
  assume "t \<in># context_tokens e'"
  then have "count (context_tokens e + context_tokens e') t \<ge> 2"
    using assms(5) by (metis Suc_1 add_mono count_greater_eq_one_iff count_union one_add_one)
  then have "count (sum_list (map context_tokens (contexts s))) t \<ge> 2"
    using owned_two[OF assms(2-4)] by (metis le_trans mset_subset_eq_count)
  moreover have "count (owned s X) t \<le> 1" using assms(1) by (simp add: balanced_def)
  ultimately show False by (simp add: owned_def)
qed

subsection \<open>Schedules\<close>

text \<open>An executable run: at each entry the process at a position moves, with the answer given.\<close>

datatype answer =
    Go
  | Octets "bytes option"
  | Subscribed SessionSubscription
  | NoPolicy
  | Unbilled

fun resume :: "SmfState \<Rightarrow> proc \<Rightarrow> answer \<Rightarrow> (SmfState \<times> proc) option" where
  "resume s (Act f k) Go = (if next_ref s = - 1 then None else Some (f s, k s))"
| "resume s (Transact n m k) (Octets r) = Some (s, k r)"
| "resume s (SendN4 n m p) Go = Some (s, p)"
| "resume s (AskSubscription a b c d k) (Subscribed x) = Some (s, k (Inr x))"
| "resume s (AskPolicy x k) NoPolicy = Some (s, k None)"
| "resume s (AskCharging a psi b k) Unbilled = Some (s, k None)"
| "resume s (Notify n p) Go = Some (s, p)"
| "resume s p a = None"

fun play :: "answer list \<Rightarrow> SmfState \<Rightarrow> proc \<Rightarrow> (SmfState \<times> proc) option" where
  "play [] s p = Some (s, p)"
| "play (a # as) s p = (case resume s p a of None \<Rightarrow> None | Some (s', p') \<Rightarrow> play as s' p')"

fun schedule :: "(nat \<times> answer list) list \<Rightarrow> SmfState \<times> proc list \<Rightarrow> (SmfState \<times> proc list) option" where
  "schedule [] c = Some c"
| "schedule ((i, as) # sch) (s, ps) = (if i < length ps
     then (case play as s (ps ! i) of None \<Rightarrow> None | Some (s', p') \<Rightarrow> schedule sch (s', ps[i := p'])) else None)"

lemma play_append: "play (as @ bs) s p = (case play as s p of None \<Rightarrow> None | Some (s', p') \<Rightarrow> play bs s' p')"
  by (induction as s p rule: play.induct) (auto split: option.split)

lemma play_acts:
  "play (Go # as) s (atomic f k) = (if next_ref s = - 1 then None else play as (snd (f s)) (k (fst (f s))))"
  "play (Go # as) s (look g k') = (if next_ref s = - 1 then None else play as s (k' (g s)))"
  "play (Go # as) s (effect h p) = (if next_ref s = - 1 then None else play as (h s) p)"
  "play (Go # as) s (next_cp_seid k3) = (if next_ref s = - 1 then None
     else play as (snd (take_cp_seid s)) (k3 (fst (take_cp_seid s)) (smf_ip s) (usage_threshold_bytes s)))"
  "play (Go # Octets r # as) s (transact n m k4) = (if next_ref s = - 1 then None else play as (snd (next_seq n s)) (k4 r))"
  by (simp_all add: atomic_def look_def effect_def next_cp_seid_def transact_def)

lemma play_asks:
  "play (Octets r # as) s (Transact n m k) = play as s (k r)"
  "play (Go # as) s (SendN4 n m p) = play as s p"
  "play (Subscribed x # as) s (AskSubscription a b c d k1) = play as s (k1 (Inr x))"
  "play (NoPolicy # as) s (AskPolicy y k2) = play as s (k2 None)"
  "play (Unbilled # as) s (AskCharging a psi b k3) = play as s (k3 None)"
  "play (Go # as) s (Notify nt p) = play as s p"
  by simp_all

lemmas play_rules = play.simps(1) play_acts play_asks

declare play.simps(2) [simp del]

text \<open>Interleaved moves of a fixed set of processes.\<close>

inductive par_step :: "SmfState \<times> proc list \<Rightarrow> SmfState \<times> proc list \<Rightarrow> bool" where
  "i < length ps \<Longrightarrow> pstep s (ps ! i) s' p' \<Longrightarrow> par_step (s, ps) (s', ps[i := p'])"

lemma resume_pstep: "resume s p a = Some (s', p') \<Longrightarrow> pstep s p s' p'"
  by (induction s p a rule: resume.induct) (auto intro: pstep.intros split: if_splits)

lemma play_run:
  assumes "play as s p = Some (s', p')" "i < length ps" "ps ! i = p"
  shows "par_step\<^sup>*\<^sup>* (s, ps) (s', ps[i := p'])"
  using assms
proof (induction as s p arbitrary: ps rule: play.induct)
  case (2 a as s p)
  then obtain s1 p1 where r: "resume s p a = Some (s1, p1)" "play as s1 p1 = Some (s', p')"
    by (auto simp: play.simps(2) split: option.splits)
  have "par_step (s, ps) (s1, ps[i := p1])" using 2 r(1) by (auto intro: par_step.intros resume_pstep)
  moreover have "par_step\<^sup>*\<^sup>* (s1, ps[i := p1]) (s', ps[i := p1, i := p'])"
    using 2(1)[OF r(1) refl r(2), of "ps[i := p1]"] 2(3) by simp
  ultimately show ?case by (auto intro: converse_rtranclp_into_rtranclp)
next
  case (1 s p)
  then have "s' = s" "ps[i := p'] = ps" by auto
  then show ?case by simp
qed

lemma schedule_run: "schedule sch c = Some c' \<Longrightarrow> par_step\<^sup>*\<^sup>* c c'"
proof (induction sch c rule: schedule.induct)
  case (2 i as sch s ps)
  then obtain s1 p1 where r: "i < length ps" "play as s (ps ! i) = Some (s1, p1)" "schedule sch (s1, ps[i := p1]) = Some c'"
    by (auto split: if_splits option.splits)
  have "par_step\<^sup>*\<^sup>* (s1, ps[i := p1]) c'" using 2 r by simp
  with play_run[OF r(2,1) refl] show ?case by (rule rtranclp_trans)
qed simp

lemma par_smf: "par_step c c' \<Longrightarrow> smf_step L c c'"
  by (induction rule: par_step.induct) (rule smf_step.move)

lemma schedule_reachable:
  assumes "list_all (smf_handler L) ps" "schedule sch (s, ps) = Some c"
  shows "smf_reachable L s c"
proof -
  have "(smf_step L)\<^sup>*\<^sup>* (s, qs) (s, qs @ ps)" for qs using assms(1)
  proof (induction ps arbitrary: qs)
    case (Cons p ps)
    then have "smf_step L (s, qs) (s, qs @ [p])" by (auto intro: smf_step.arrive)
    then show ?case using Cons(1)[of "qs @ [p]"] Cons(2) by (auto intro: converse_rtranclp_into_rtranclp)
  qed simp
  moreover have "(smf_step L)\<^sup>*\<^sup>* (s, ps) c"
    using schedule_run[OF assms(2)] by (rule rtranclp_mono[THEN predicate2D, rotated]) (auto intro: par_smf)
  ultimately show ?thesis unfolding smf_reachable_def by (metis append_Nil rtranclp_trans)
qed

end
