(* ===== verification/Smf_Race.thy ===== *)
theory Smf_Race
  imports Smf_Leases
begin

section \<open>Runs of the SMF\<close>

text \<open>
  Concrete runs: a creation that goes through, and two releases of one context that overlap, as when
  the AMF releases a session while its charging quota runs out.
\<close>

definition accepting_lib :: pfcp_lib where
  "accepting_lib = plain_lib\<lparr>lib_parse := (\<lambda>_. Some (establishment_accepted plain_lib 1 1 7 9 5 None))\<rparr>"

definition demo_sub :: SessionSubscription where
  "demo_sub = \<lparr>sub_snssai = \<lparr>sst = 1, sd = None\<rparr>, sub_ambr = None, sub_qos_flows = [], sub_allow_v4 = True, sub_allow_v6 = False,
     sub_default_type = Ipv4, sub_dns_ipv6 = None\<rparr>"

definition demo_create :: SmContextCreateData where
  "demo_create = \<lparr>cr_supi = ''imsi-1'', cr_pdu_session_id = 5, cr_dnn = ''internet'', cr_serving_network = Some (''999'', ''70''),
     cr_s_nssai = None, cr_pdu_session_type = None\<rparr>"

definition demo_smf :: SmfState where
  "demo_smf = with_peers [''anchor''] (Fixed ''anchor'' None None) 7"

text \<open>A creation of an IPv4 session on the only anchor, with the subscription's policy and no charging.\<close>

definition creation :: "answer list" where
  "creation = [Subscribed demo_sub, Go, NoPolicy, Go, Go, Go, Go, Go, Octets (Some []), Unbilled, Go, Go, Go]"

definition demo_context :: "u32 \<Rightarrow> u64 \<Rightarrow> SmContext" where
  "demo_context a cp = \<lparr>sc_up_seid = 9, sc_cp_seid = cp, sc_n3_teid = 5, sc_n3_addr = 7, sc_chain = None,
     sc_path = \<lparr>sp_anchor = ''anchor'', sp_intermediate = None, sp_breakout = None\<rparr>, sc_ue_ip = Some a, sc_pdu_type = Ipv4,
     sc_ue_ipv6 = None, sc_dnn = ''internet'', sc_snssai = \<lparr>sst = 1, sd = None\<rparr>, sc_gnb = None, sc_indirect_fwd = None,
     sc_supi = ''imsi-1'', sc_pdu_session_id = 5, sc_sm_policy = None, sc_policy = empty_decision, sc_reserved_gfbr = (0, 0),
     sc_policy_breakout = False, sc_charging = None\<rparr>"

lemma demo_established: "established accepting_lib (Some []) = Some \<lparr>es_up_seid = 9, es_n3_teid = 5, es_n3_addr = 7, es_dl_ingress = None\<rparr>"
  by (simp add: established_def accepting_lib_def parse_session_establishment_response_def establishment_accepted_def bare_msg_def plain_lib_def DOWNLINK_PDR_ID_def)

lemma demo_policy: "session_policy demo_sub None = (empty_decision, None)" "decision_gfbr empty_decision = (0, 0)"
  by (simp_all add: session_policy_def demo_sub_def session_rules_for_def set_flows_def empty_decision_def
      decision_gfbr_def qos_flows_def List.map_filter_def)

lemma demo_fields:
  "sub_allow_v4 demo_sub" "\<not> sub_allow_v6 demo_sub" "sub_default_type demo_sub = Ipv4" "sub_snssai demo_sub = \<lparr>sst = 1, sd = None\<rparr>"
  "sub_dns_ipv6 demo_sub = None" "cr_supi demo_create = ''imsi-1''" "cr_pdu_session_id demo_create = 5" "cr_dnn demo_create = ''internet''"
  "cr_serving_network demo_create = Some (''999'', ''70'')" "cr_s_nssai demo_create = None" "cr_pdu_session_type demo_create = None"
  by (simp_all add: demo_sub_def demo_create_def)

lemma demo_reserve: "reserved_gfbr_bps s = (0, 0) \<Longrightarrow> gfbr_budget_bps s = (- 1, - 1) \<Longrightarrow> reserve (0, 0) s = (True, s)"
  by (cases s) (simp add: reserve_def try_reserve_gfbr_def saturating_add_def)

lemma demo_resolves: "''anchor'' \<in> set names \<Longrightarrow> resolve_path names (Fixed ''anchor'' None None) dnn
    = Some (Inr \<lparr>sp_anchor = ''anchor'', sp_intermediate = None, sp_breakout = None\<rparr>)"
  by (simp add: resolve_path_def peer_named_def opt_peer_def)

lemma demo_creation:
  assumes "next_ref s \<noteq> - 1" "next_ref s + 1 \<noteq> - 1" "''anchor'' \<in> set (map fst (smf_peers s))"
    "smf_routing s = Fixed ''anchor'' None None" "reserved_gfbr_bps s = (0, 0)" "gfbr_budget_bps s = (- 1, - 1)"
    "pool_alloc (ue_ipv4_pool s) = (Some a, p)" "map_of (contexts s) (show_word (next_ref s)) = None"
  shows "\<exists>x. play creation s (create_sm_context accepting_lib demo_create) =
     Some (s\<lparr>next_ref := next_ref s + 1, smf_cp_seid := smf_cp_seid s + 1, smf_peers := smf_peers (snd (next_seq ''anchor'' s)),
       ue_ipv4_pool := p, contexts := contexts s @ [(show_word (next_ref s), demo_context a (smf_cp_seid s))]\<rparr>, Done x)"
  using assms
  by (simp add: creation_def create_sm_context_def demo_fields play_rules demo_policy take_ref_def demo_reserve demo_resolves del: set_map,
      simp add: establish_session_def Let_def play_rules alloc_v4_def alloc_v6_def demo_policy take_cp_seid_def next_seq_def
        alloc_ip_def demo_established chain_session_def store_context_def insert_context_def hm_insert_def demo_fields,
      simp add: reconcile_influence_breakout_def get_context_def play_rules map_add_def demo_context_def)

text \<open>A release in two parts: up to the answer of the UPF, and from there to the end.\<close>

definition release_rest :: "string \<Rightarrow> SmContext \<Rightarrow> proc" where
  "release_rest r c = effect (remove_context r) (release_addresses (sc_ue_ip c) (context_v6 c)
     (effect (unreserve (sc_reserved_gfbr c)) (Notify (UecmPurge (sc_supi c) (sc_pdu_session_id c)) (delete_policy c (Done (Status 204))))))"

lemma demo_release_begin:
  assumes "next_ref s \<noteq> - 1" "get_context r s = Some (demo_context a cp)"
  shows "play [Go, Go, Octets (Some [])] s (release_sm_context L r) = Some (snd (next_seq ''anchor'' s), release_rest r (demo_context a cp))"
  using assms by (simp add: release_sm_context_def teardown_sm_context_def play_rules delete_at_def delete_legs_def
      release_charging_def release_rest_def demo_context_def)

lemma demo_release_end:
  assumes "next_ref s \<noteq> - 1" "reserved_gfbr_bps s = (0, 0)"
  shows "play [Go, Go, Go, Go] s (release_rest r (demo_context a cp))
    = Some (s\<lparr>contexts := hm_remove r (contexts s), ue_ipv4_pool := pool_release (ue_ipv4_pool s) a\<rparr>, Done (Status 204))"
  using assms by (cases s) (simp add: release_rest_def play_rules release_addresses_def demo_context_def context_v6_def remove_context_def
      release_ip_def unreserve_def release_gfbr_def saturating_sub_def delete_policy_def)

lemma refs: "show_word (1 :: u64) = ''1''" "show_word (2 :: u64) = ''2''" "show_word (3 :: u64) = ''3''"
  by (simp_all add: show_word_def show_radix.simps digit_char_def)

definition race :: "(nat \<times> answer list) list" where
  "race = [(0, creation), (1, [Go, Go, Octets (Some [])]), (2, [Go, Go, Octets (Some [])]), (1, [Go, Go, Go, Go]),
     (3, creation), (2, [Go, Go, Go, Go]), (4, creation)]"

definition racers :: "proc list" where
  "racers = [create_sm_context accepting_lib demo_create, release_sm_context accepting_lib ''1'', release_sm_context accepting_lib ''1'',
     create_sm_context accepting_lib demo_create, create_sm_context accepting_lib demo_create]"

definition demo_state :: "u64 \<Rightarrow> u64 \<Rightarrow> N4Peer \<Rightarrow> U32Pool \<Rightarrow> SmContext hmap \<Rightarrow> SmfState" where
  "demo_state n cp peer p cs = demo_smf\<lparr>next_ref := n, smf_cp_seid := cp, smf_peers := [(''anchor'', peer)], ue_ipv4_pool := p, contexts := cs\<rparr>"

definition next_peer :: "N4Peer \<Rightarrow> N4Peer" where
  "next_peer p = p\<lparr>peer_seq := peer_seq p + 1\<rparr>"

lemma state_creation:
  assumes "n \<noteq> - 1" "n + 1 \<noteq> - 1" "pool_alloc p = (Some a, p')" "map_of cs (show_word n) = None"
  shows "\<exists>x. play creation (demo_state n cp peer p cs) (create_sm_context accepting_lib demo_create)
    = Some (demo_state (n + 1) (cp + 1) (next_peer peer) p' (cs @ [(show_word n, demo_context a cp)]), Done x)"
  using demo_creation[of "demo_state n cp peer p cs" a p'] assms
  by (simp add: demo_state_def demo_smf_def with_peers_def next_seq_def hm_update_def next_peer_def)

lemma state_release_begin:
  assumes "n \<noteq> - 1" "map_of cs r = Some (demo_context a c)"
  shows "play [Go, Go, Octets (Some [])] (demo_state n cp peer p cs) (release_sm_context L r)
    = Some (demo_state n cp (next_peer peer) p cs, release_rest r (demo_context a c))"
  using demo_release_begin[of "demo_state n cp peer p cs" r a c L] assms
  by (simp add: demo_state_def demo_smf_def with_peers_def next_seq_def hm_update_def next_peer_def get_context_def)

lemma state_release_end:
  assumes "n \<noteq> - 1"
  shows "play [Go, Go, Go, Go] (demo_state n cp peer p cs) (release_rest r (demo_context a c))
    = Some (demo_state n cp peer (pool_release p a) (hm_remove r cs), Done (Status 204))"
  using demo_release_end[of "demo_state n cp peer p cs" r a c] assms
  by (simp add: demo_state_def demo_smf_def with_peers_def)

lemma race_outcome:
  "\<exists>s ps cp cp'. schedule race (demo_smf, racers) = Some (s, ps) \<and> list_all (\<lambda>p. \<exists>x. p = Done x) ps
     \<and> contexts s = [(''2'', demo_context UE_IP_POOL_START cp), (''3'', demo_context UE_IP_POOL_START cp')]"
proof -
  let ?a = "UE_IP_POOL_START"
  let ?p0 = "pool_new ?a UE_IP_POOL_END"
  let ?p1 = "\<lparr>pool_next = ?a + 1, pool_end = UE_IP_POOL_END, freed = []\<rparr>"
  let ?p2 = "\<lparr>pool_next = ?a + 1, pool_end = UE_IP_POOL_END, freed = [?a]\<rparr>"
  have d: "demo_smf = demo_state 1 1 new_peer ?p0 []" by (simp add: demo_state_def demo_smf_def with_peers_def)
  have pool: "pool_alloc ?p0 = (Some ?a, ?p1)" "pool_release ?p1 ?a = ?p2" "pool_alloc ?p2 = (Some ?a, ?p1)"
    by (simp_all add: pool_alloc_def pool_new_def pool_release_def UE_IP_POOL_START_def UE_IP_POOL_END_def)
  obtain x1 where 1: "play creation (demo_state 1 1 new_peer ?p0 []) (create_sm_context accepting_lib demo_create)
      = Some (demo_state 2 2 (next_peer new_peer) ?p1 [(''1'', demo_context ?a 1)], Done x1)"
    using state_creation[of 1 ?p0 ?a ?p1 "[]" 1 new_peer] pool(1) by (auto simp: refs)
  have 2: "\<exists>x. play creation (demo_state 2 2 peer ?p2 []) (create_sm_context accepting_lib demo_create)
      = Some (demo_state 3 3 (next_peer peer) ?p1 [(''2'', demo_context ?a 2)], Done x)" for peer
    using state_creation[of 2 ?p2 ?a ?p1 "[]" 2 peer] pool(3) by (auto simp: refs)
  have 3: "\<exists>x. play creation (demo_state 3 3 peer ?p2 [(''2'', demo_context ?a 2)]) (create_sm_context accepting_lib demo_create)
      = Some (demo_state 4 4 (next_peer peer) ?p1 [(''2'', demo_context ?a 2), (''3'', demo_context ?a 3)], Done x)" for peer
    using state_creation[of 3 ?p2 ?a ?p1 "[(''2'', demo_context ?a 2)]" 3 peer] pool(3) by (auto simp: refs)
  obtain f where 2: "\<And>peer. play creation (demo_state 2 2 peer ?p2 []) (create_sm_context accepting_lib demo_create)
      = Some (demo_state 3 3 (next_peer peer) ?p1 [(''2'', demo_context ?a 2)], Done (f peer))" using 2 by metis
  obtain g where 3: "\<And>peer. play creation (demo_state 3 3 peer ?p2 [(''2'', demo_context ?a 2)]) (create_sm_context accepting_lib demo_create)
      = Some (demo_state 4 4 (next_peer peer) ?p1 [(''2'', demo_context ?a 2), (''3'', demo_context ?a 3)], Done (g peer))" using 3 by metis
  show ?thesis
    unfolding race_def racers_def d
    by (simp add: 1 2 3 state_release_begin state_release_end pool hm_remove_def) (auto simp: demo_state_def)
qed

text \<open>C34: two releases of one SM context that overlap put its address into two live sessions. Each of
  them reads the context before the other removes it and returns the address to the pool; an address
  that was leased again in between is returned a second time and leased to a second session.\<close>

theorem overlapping_releases_duplicate_address:
  "\<exists>s ps r c r' c'. par_step\<^sup>*\<^sup>* (demo_smf, [create_sm_context accepting_lib demo_create, release_sm_context accepting_lib ''1'',
        release_sm_context accepting_lib ''1'', create_sm_context accepting_lib demo_create, create_sm_context accepting_lib demo_create]) (s, ps)
     \<and> list_all (\<lambda>p. \<exists>x. p = Done x) ps \<and> r \<noteq> r' \<and> get_context r s = Some c \<and> get_context r' s = Some c'
     \<and> sc_ue_ip c = Some UE_IP_POOL_START \<and> sc_ue_ip c' = Some UE_IP_POOL_START"
proof -
  obtain s ps cp cp' where r: "schedule race (demo_smf, racers) = Some (s, ps)" "list_all (\<lambda>p. \<exists>x. p = Done x) ps"
      "contexts s = [(''2'', demo_context UE_IP_POOL_START cp), (''3'', demo_context UE_IP_POOL_START cp')]"
    using race_outcome by blast
  moreover have "get_context ''2'' s = Some (demo_context UE_IP_POOL_START cp)"
      "get_context ''3'' s = Some (demo_context UE_IP_POOL_START cp')" by (simp_all add: r(3) get_context_def)
  moreover have "''2'' \<noteq> ''3''" "sc_ue_ip (demo_context a n) = Some a" for a n by (simp_all add: demo_context_def)
  ultimately show ?thesis using schedule_run[OF r(1)] unfolding racers_def
    by (intro exI[of _ s] exI[of _ ps] exI[of _ "''2''"] exI[of _ "demo_context UE_IP_POOL_START cp"]
        exI[of _ "''3''"] exI[of _ "demo_context UE_IP_POOL_START cp'"]) simp
qed



end
