(* ===== verification/Smf_Upf.thy ===== *)
theory Smf_Upf
  imports Smf_Race
begin

section \<open>SMF and UPF together\<close>

text \<open>
  A handler of the SMF run to its end against the UPFs themselves: every PFCP request is answered by
  \<open>handle_n4_from\<close> on the state of the UPF it is sent to, and the other network functions answer as
  the environment says. This composes \<open>Smf_Handlers\<close> with \<open>Pfcp_N4\<close>.
\<close>

record network =
  net_lib :: pfcp_lib
  net_ip :: "string \<Rightarrow> u32"
  net_now :: u64
  net_peer :: "ip_addr option"
  net_sub :: "(nat \<times> string) + SessionSubscription"
  net_policy :: "(string \<times> string \<times> SmPolicyDecision) option"
  net_update :: "SmPolicyUpdate option"
  net_charging :: "(string \<times> string) option"
  net_quota_spent :: "bool option"

type_synonym upfs = "string \<Rightarrow> upf_state"

definition n4_answer :: "network \<Rightarrow> upfs \<Rightarrow> string \<Rightarrow> pfcp_msg \<Rightarrow> bytes option \<times> upf_state" where
  "n4_answer N U n m = handle_n4_from (net_lib N) (lib_marshal (net_lib N) m) (net_ip N n) (U n) (net_now N) (net_peer N)"

primrec drive :: "proc \<Rightarrow> network \<Rightarrow> SmfState \<Rightarrow> upfs \<Rightarrow> response \<times> SmfState \<times> upfs \<times> notice list" where
  "drive (Done r) N s U = (r, s, U, [])"
| "drive (Act f k) N s U = drive (k s) N (f s) U"
| "drive (Transact n m k) N s U = drive (k (fst (n4_answer N U n m))) N s (U(n := snd (n4_answer N U n m)))"
| "drive (SendN4 n m p) N s U = drive p N s (U(n := snd (n4_answer N U n m)))"
| "drive (AskSubscription a b c d k) N s U = drive (k (net_sub N)) N s U"
| "drive (AskPolicy x k) N s U = drive (k (net_policy N)) N s U"
| "drive (AskPolicyUpdate a b k) N s U = drive (k (net_update N)) N s U"
| "drive (AskCharging a psi b k) N s U = drive (k (net_charging N)) N s U"
| "drive (AskChargingUpdate a b c u k) N s U = drive (k (net_quota_spent N)) N s U"
| "drive (Notify n p) N s U = (case drive p N s U of (r, s', U', ns) \<Rightarrow> (r, s', U', n # ns))"

lemma drive_steps:
  "drive (atomic f k) N s U = drive (k (fst (f s))) N (snd (f s)) U"
  "drive (look g k') N s U = drive (k' (g s)) N s U"
  "drive (effect h p) N s U = drive p N (h s) U"
  "drive (next_cp_seid k3) N s U = drive (k3 (smf_cp_seid s) (smf_ip s) (usage_threshold_bytes s)) N (snd (take_cp_seid s)) U"
  "drive (transact n m k4) N s U = drive (k4 (fst (n4_answer N U n (m (fst (next_seq n s))))) ) N (snd (next_seq n s))
     (U(n := snd (n4_answer N U n (m (fst (next_seq n s))))))"
  by (simp_all add: atomic_def look_def effect_def next_cp_seid_def transact_def take_cp_seid_def)

subsection \<open>Creation\<close>

definition single_path :: "string \<Rightarrow> SessionPath" where
  "single_path a = \<lparr>sp_anchor = a, sp_intermediate = None, sp_breakout = None\<rparr>"

text \<open>The type a request ends up with, the decision it is created under, and the addresses and the
  establishment request that follow.\<close>

definition selected_type :: "SmContextCreateData \<Rightarrow> SessionSubscription \<Rightarrow> PduSessionType \<times> u8 option" where
  "selected_type req sub = negotiate_pdu_type
     (case Option.bind (cr_pdu_session_type req) pst_from_name of Some t \<Rightarrow> t | None \<Rightarrow> sub_default_type sub)
     (sub_allow_v4 sub) (sub_allow_v6 sub)"

definition offered_v4 :: "PduSessionType \<Rightarrow> SmfState \<Rightarrow> u32 option" where
  "offered_v4 t s = (if has_ipv4 t then fst (alloc_ip s) else None)"

definition offered_v6 :: "PduSessionType \<Rightarrow> SmfState \<Rightarrow> (128 word \<times> bytes) option" where
  "offered_v6 t s = (if has_ipv6 t then fst (alloc_ip6 s) else None)"

definition create_params :: "SmContextCreateData \<Rightarrow> PduSessionType \<Rightarrow> SmPolicyDecision \<Rightarrow> string \<Rightarrow> SmfState \<Rightarrow> est_params" where
  "create_params req t d a s = \<lparr>ep_cp_seid = smf_cp_seid s, ep_seq = fst (next_seq a s), ep_smf_ip = smf_ip s,
     ep_ue = \<lparr>ua_v4 = offered_v4 t s, ua_v6 = map_option fst (offered_v6 t s)\<rparr>, ep_dnn = cr_dnn req,
     ep_ambr = ambr_bps d, ep_flows = decision_flow_qers d, ep_threshold = usage_threshold_bytes s\<rparr>"

lemma next_seq_fields [simp]:
  "smf_cp_seid (snd (next_seq n s)) = smf_cp_seid s" "smf_ip (snd (next_seq n s)) = smf_ip s"
  "ue_ipv4_pool (snd (next_seq n s)) = ue_ipv4_pool s" "ue_ipv6_pool (snd (next_seq n s)) = ue_ipv6_pool s"
  "contexts (snd (next_seq n s)) = contexts s" "usage_threshold_bytes (snd (next_seq n s)) = usage_threshold_bytes s"
  by (simp_all add: next_seq_def)

lemma next_seq_value: "smf_peers s' = smf_peers s \<Longrightarrow> fst (next_seq n s') = fst (next_seq n s)"
  by (simp add: next_seq_def)

definition agrees :: "network \<Rightarrow> string \<Rightarrow> SmContext \<Rightarrow> upf_state \<Rightarrow> bool" where
  "agrees N a c u = (\<exists>x. get_session u (sc_up_seid c) = Some x \<and> find_session (owns_teid (sc_n3_teid c)) u = Some x
     \<and> sc_n3_addr c = net_ip N a \<and> cp_seid x = sc_cp_seid c \<and> ue_ip x = sc_ue_ip c \<and> ue_ipv6 x = context_v6 c
     \<and> ambr x = ambr_bps (sc_policy c) \<and> enforces (flow_qers x) = flow_for (decision_flow_qers (sc_policy c)))"

lemma alloc_drives:
  "(wanted \<longrightarrow> fst (alloc_ip s) \<noteq> None) \<Longrightarrow> drive (alloc_v4 wanted refused k) N s U
     = drive (k (if wanted then fst (alloc_ip s) else None)) N (if wanted then snd (alloc_ip s) else s) U"
  "(wanted \<longrightarrow> fst (alloc_ip6 s) \<noteq> None) \<Longrightarrow> drive (alloc_v6 wanted refused k') N s U
     = drive (k' (if wanted then fst (alloc_ip6 s) else None)) N (if wanted then snd (alloc_ip6 s) else s) U"
  by (auto simp: alloc_v4_def alloc_v6_def drive_steps)

lemma reconcile_unchained:
  "Option.bind (get_context r s) sc_chain = None \<Longrightarrow> drive (reconcile_influence_breakout L r p) N s U = drive p N s U"
  by (auto simp: reconcile_influence_breakout_def drive_steps split: option.split)

lemma drive_establish_session:
  fixes N U req t d a s
  defines "L \<equiv> net_lib N" and "p \<equiv> create_params req t d a s"
  assumes ok: "lib_ok L" "upf_reachable (U a)" "room_for (U a)" "session_count (U a) < max_sessions (U a)"
    and flows: "distinct (map fq_qfi (decision_flow_qers d))"
    and addr: "has_ipv4 t \<longrightarrow> fst (alloc_ip s) \<noteq> None" "has_ipv6 t \<longrightarrow> fst (alloc_ip6 s) \<noteq> None"
    and wire: "travels L (session_establishment_request_msg L p)"
      "travels L (establishment_accepted L (smf_cp_seid s) (fst (next_seq a s)) (net_ip N a) (next_seid (U a)) (next_teid (U a)) None)"
  shows "\<exists>c s' U'. drive (establish_session L req sub t cause r d pol (single_path a)) N s U
      = (Created (created_data r c cause (sub_dns_ipv6 sub)), s', U', [UecmRegister (cr_supi req) (cr_pdu_session_id req) (cr_dnn req)])
    \<and> get_context r s' = Some c \<and> agrees N a c (U' a) \<and> (\<forall>n. n \<noteq> a \<longrightarrow> U' n = U n)
    \<and> sc_ue_ip c = offered_v4 t s \<and> sc_ue_ipv6 c = offered_v6 t s \<and> sc_policy c = d \<and> sc_sm_policy c = pol
    \<and> sc_charging c = net_charging N"
proof -
  obtain resp st' x where u: "handle_n4_from L (lib_marshal L (session_establishment_request_msg L p)) (net_ip N a) (U a) (net_now N) (net_peer N) = (Some resp, st')"
      "parse_session_establishment_response L resp = Some \<lparr>es_up_seid = next_seid (U a), es_n3_teid = next_teid (U a),
         es_n3_addr = net_ip N a, es_dl_ingress = None\<rparr>"
      "get_session st' (next_seid (U a)) = Some x" "find_session (owns_teid (next_teid (U a))) st' = Some x"
      "ue_ip x = ua_v4 (ep_ue p)" "ue_ipv6 x = ua_v6 (ep_ue p)" "ambr x = ep_ambr p"
      "flow_qers x = map (\<lambda>f. enforcer_of f (net_now N)) (ep_flows p)" "cp_seid x = ep_cp_seid p"
    using establishment_installs[OF ok, of p "net_ip N a" "net_now N" "net_peer N"] flows wire
    by (auto simp: p_def create_params_def session_establishment_request_def dest: expect_travels)
  let ?c = "\<lparr>sc_up_seid = next_seid (U a), sc_cp_seid = smf_cp_seid s, sc_n3_teid = next_teid (U a), sc_n3_addr = net_ip N a,
              sc_chain = None, sc_path = single_path a, sc_ue_ip = offered_v4 t s, sc_pdu_type = t, sc_ue_ipv6 = offered_v6 t s, sc_dnn = cr_dnn req,
              sc_snssai = sub_snssai sub, sc_gnb = None, sc_indirect_fwd = None, sc_supi = cr_supi req,
              sc_pdu_session_id = cr_pdu_session_id req, sc_sm_policy = pol, sc_policy = d,
              sc_reserved_gfbr = decision_gfbr d, sc_policy_breakout = False, sc_charging = net_charging N\<rparr>"
  have "agrees N a ?c st'"
    using u(3-9) enforces_fresh[of "net_now N" "decision_flow_qers d"]
    by (simp add: agrees_def context_v6_def p_def create_params_def)
  define s2 where "s2 = snd (next_seq a (snd (take_cp_seid s)))"
  define s3 where "s3 = (if has_ipv4 t then snd (alloc_ip s2) else s2)"
  define s4 where "s4 = (if has_ipv6 t then snd (alloc_ip6 s3) else s3)"
  have f: "fst (next_seq a (snd (take_cp_seid s))) = fst (next_seq a s)" "fst (alloc_ip s2) = fst (alloc_ip s)" "fst (alloc_ip6 s3) = fst (alloc_ip6 s)"
    by (simp_all add: s2_def s3_def alloc_ip_def alloc_ip6_def take_cp_seid_def next_seq_def)
  have e1: "drive (alloc_v4 (has_ipv4 t) refused k) N s2 U = drive (k (offered_v4 t s)) N s3 U" for refused k
    using alloc_drives(1)[of "has_ipv4 t" s2] addr f by (simp add: offered_v4_def s3_def)
  have e2: "drive (alloc_v6 (has_ipv6 t) refused k) N s3 U = drive (k (offered_v6 t s)) N s4 U" for refused k
    using alloc_drives(2)[of "has_ipv6 t" s3] addr f by (simp add: offered_v6_def s4_def)
  have fields: "sp_anchor (single_path a) = a" "sp_intermediate (single_path a) = None" by (simp_all add: single_path_def)
  have n4: "n4_answer N U a (session_establishment_request_msg L \<lparr>ep_cp_seid = smf_cp_seid s, ep_seq = fst (next_seq a s),
      ep_smf_ip = smf_ip s, ep_ue = \<lparr>ua_v4 = offered_v4 t s, ua_v6 = map_option fst (offered_v6 t s)\<rparr>, ep_dnn = cr_dnn req,
      ep_ambr = ambr_bps d, ep_flows = decision_flow_qers d, ep_threshold = usage_threshold_bytes s\<rparr>) = (Some resp, st')"
    using u(1) by (simp add: n4_answer_def L_def p_def create_params_def)
  have est: "established L (Some resp) = Some \<lparr>es_up_seid = next_seid (U a), es_n3_teid = next_teid (U a),
         es_n3_addr = net_ip N a, es_dl_ingress = None\<rparr>" using u(2) by (simp add: established_def)
  have get: "get_context r (insert_context r c s') = Some c" for c s' by (simp add: get_context_def insert_context_def hm.get_put)
  have "drive (establish_session L req sub t cause r d pol (single_path a)) N s U
      = (Created (created_data r (?c\<lparr>sc_charging := None\<rparr>) cause (sub_dns_ipv6 sub)), insert_context r ?c s4, U(a := st'),
         [UecmRegister (cr_supi req) (cr_pdu_session_id req) (cr_dnn req)])"
    by (simp add: establish_session_def Let_def drive_steps fields f(1) s2_def[symmetric] e1 e2 n4 est chain_session_def store_context_def
        reconcile_unchained get)
  then show ?thesis using \<open>agrees N a ?c st'\<close>
    by (intro exI[of _ ?c] exI[of _ "insert_context r ?c s4"] exI[of _ "U(a := st')"]) (simp add: get created_data_def)
qed

lemma create_params_state:
  "create_params req t d a (snd (reserve g (snd (take_ref s)))) = create_params req t d a s"
  "offered_v4 t (snd (reserve g (snd (take_ref s)))) = offered_v4 t s" "offered_v6 t (snd (reserve g (snd (take_ref s)))) = offered_v6 t s"
  by (simp_all add: create_params_def offered_v4_def offered_v6_def alloc_ip_def alloc_ip6_def reserve_def take_ref_def next_seq_def)

text \<open>C5: creation end to end. When the subscription allows the session, its guaranteed rates are
  admitted, its path is a single UPF with room and addresses are left, then the handler answers
  with a context it has stored, and the UPF holds the session of that context: the same
  SEIDs, tunnel endpoint and addresses, the session rate and exactly the flows of the policy the
  context records. No other UPF is touched.\<close>

theorem creation_end_to_end:
  fixes N U req t d a s
  defines "L \<equiv> net_lib N"
  assumes "lib_ok L" "upf_reachable (U a)" "room_for (U a)" "session_count (U a) < max_sessions (U a)"
    and "cr_dnn req \<noteq> []" "cr_serving_network req \<noteq> None" "net_sub N = Inr sub"
    and "session_policy sub (net_policy N) = (d, pol)" "selected_type req sub = (t, cause)"
    and "resolve_path (map fst (smf_peers s)) (smf_routing s) (cr_dnn req) = Some (Inr (single_path a))"
    and "fst (reserve (decision_gfbr d) s)" "distinct (map fq_qfi (decision_flow_qers d))"
    and "has_ipv4 t \<longrightarrow> fst (alloc_ip s) \<noteq> None" "has_ipv6 t \<longrightarrow> fst (alloc_ip6 s) \<noteq> None"
    and "travels L (session_establishment_request_msg L (create_params req t d a s))"
      "travels L (establishment_accepted L (smf_cp_seid s) (fst (next_seq a s)) (net_ip N a) (next_seid (U a)) (next_teid (U a)) None)"
  shows "\<exists>c s' U'. drive (create_sm_context L req) N s U
      = (Created (created_data (show_word (next_ref s)) c cause (sub_dns_ipv6 sub)), s', U',
         [UecmRegister (cr_supi req) (cr_pdu_session_id req) (cr_dnn req)])
    \<and> get_context (show_word (next_ref s)) s' = Some c \<and> agrees N a c (U' a) \<and> (\<forall>n. n \<noteq> a \<longrightarrow> U' n = U n)
    \<and> sc_ue_ip c = offered_v4 t s \<and> sc_ue_ipv6 c = offered_v6 t s \<and> sc_policy c = d \<and> sc_sm_policy c = pol
    \<and> sc_charging c = net_charging N"
proof -
  let ?s = "snd (reserve (decision_gfbr d) (snd (take_ref s)))"
  have st: "fst (reserve (decision_gfbr d) (snd (take_ref s)))" "smf_peers ?s = smf_peers s" "smf_routing ?s = smf_routing s"
      "fst (alloc_ip ?s) = fst (alloc_ip s)" "fst (alloc_ip6 ?s) = fst (alloc_ip6 s)" "smf_cp_seid ?s = smf_cp_seid s"
      "fst (next_seq a ?s) = fst (next_seq a s)" "fst (take_ref s) = show_word (next_ref s)"
    using assms(12) by (simp_all add: reserve_def take_ref_def alloc_ip_def alloc_ip6_def next_seq_def)
  obtain mcc mnc where "cr_serving_network req = Some (mcc, mnc)" using assms(7) by auto
  then have "drive (create_sm_context L req) N s U
      = drive (establish_session L req sub t cause (show_word (next_ref s)) d pol (single_path a)) N ?s U"
    using assms(6,8-11) st by (simp add: create_sm_context_def drive_steps selected_type_def)
  with drive_establish_session[of N U a d t ?s req sub cause "show_word (next_ref s)" pol] assms st show ?thesis
    by (simp add: create_params_state L_def)
qed

definition creation_exchange :: "pfcp_msg list" where
  "creation_exchange = [session_establishment_request_msg plain_lib (create_params demo_create Ipv4 empty_decision ''anchor'' demo_smf),
     establishment_accepted plain_lib 1 1 42 1 1 None]"

definition demo_network :: network where
  "demo_network = \<lparr>net_lib = numbered_lib creation_exchange, net_ip = (\<lambda>_. 42), net_now = 5, net_peer = None, net_sub = Inr demo_sub,
     net_policy = None, net_update = None, net_charging = None, net_quota_spent = None\<rparr>"

theorem creation_end_to_end_witness:
  "\<exists>c s' U' d. drive (create_sm_context (numbered_lib creation_exchange) demo_create) demo_network demo_smf (\<lambda>_. with_recovery_time 0)
      = (Created d, s', U', [UecmRegister ''imsi-1'' 5 ''internet'']) \<and> get_context ''1'' s' = Some c
    \<and> agrees demo_network ''anchor'' c (U' ''anchor'') \<and> sc_ue_ip c = Some UE_IP_POOL_START"
proof -
  let ?L = "numbered_lib creation_exchange" and ?st = "with_recovery_time 0"
  have n: "net_lib demo_network = ?L" "net_sub demo_network = Inr demo_sub" "net_policy demo_network = None" "net_ip demo_network a = 42" for a
    by (simp_all add: demo_network_def)
  have u: "room_for ?st" "session_count ?st < max_sessions ?st" "next_seid ?st = 1" "next_teid ?st = 1"
    by (simp_all add: with_recovery_time_def room_for_def session_count_def DEFAULT_MAX_SESSIONS_def)
  have s: "smf_cp_seid demo_smf = 1" "fst (next_seq ''anchor'' demo_smf) = 1" "next_ref demo_smf = 1" "fst (reserve (0, 0) demo_smf)"
      "fst (alloc_ip demo_smf) = Some UE_IP_POOL_START"
      "resolve_path (map fst (smf_peers demo_smf)) (smf_routing demo_smf) ''internet'' = Some (Inr (single_path ''anchor''))"
    by (simp_all add: demo_smf_def with_peers_def next_seq_def new_peer_def reserve_def try_reserve_gfbr_def saturating_add_def
        alloc_ip_def pool_alloc_def pool_new_def UE_IP_POOL_START_def UE_IP_POOL_END_def demo_resolves single_path_def)
  have t: "selected_type demo_create demo_sub = (Ipv4, None)" by (simp add: selected_type_def demo_fields)
  have f: "decision_flow_qers empty_decision = []"
    by (simp add: decision_flow_qers_def qos_flows_def empty_decision_def List.map_filter_def)
  have w: "travels ?L (session_establishment_request_msg ?L (create_params demo_create Ipv4 empty_decision ''anchor'' demo_smf))"
      "travels ?L (establishment_accepted ?L 1 1 42 1 1 None)"
    by (rule numbered_travels; simp add: creation_exchange_def)+
  have o: "offered_v4 Ipv4 demo_smf = Some UE_IP_POOL_START" using s(5) by (simp add: offered_v4_def)
  from creation_end_to_end[of demo_network "\<lambda>_. ?st" "''anchor''" demo_create demo_sub empty_decision None Ipv4 None demo_smf]
  show ?thesis
    using numbered_lib_ok upf_reachable.start u s t f w o by (simp add: n demo_policy demo_fields refs) blast
qed

subsection \<open>Policy refresh\<close>

lemma qer_update_handled:
  assumes "get_session st k = Some x" "\<not> foreign_peer peer st k"
  shows "\<exists>r st'. handle_msg L (session_qer_update_request_msg k seq a) ip st now peer = (Some r, st')
    \<and> get_session st' k = Some (x\<lparr>ul_bucket := rerate (ul_bucket x) (sa_uplink_bps a) now,
        dl_bucket := rerate (dl_bucket x) (sa_downlink_bps a) now, ambr := Some a\<rparr>)"
proof -
  let ?m = "session_qer_update_request_msg k seq a"
  note d = session_qer_update_request_msg_def bare_msg_def
  have "parse_created_flows ?m = [] \<and> parse_branches ?m = []" by (rule no_created) (simp add: d)
  then have "apply_modification ?m k now st = snd (set_ambr st k a now)"
    by (cases a, subst foldl_empty_modification) (simp_all add: d apply_update_qer_def)
  moreover have "m_type ?m = SessionModificationRequest" "m_seid ?m = Some k" by (simp_all add: d)
  ultimately show ?thesis using assms
    by (simp add: handle_msg_def handle_modification_def Let_def set_ambr_def get_session_update)
qed

text \<open>What a refresh leaves at the UPF of a session, in two requests.\<close>

lemma drive_rerate:
  assumes "get_session (U a) k = Some x" "\<not> foreign_peer (net_peer N) (U a) k" "sp_anchor (sc_path c) = a" "sc_up_seid c = k"
    and "\<And>b. ambr_bps d = Some b \<Longrightarrow> travels (net_lib N) (session_qer_update_request_msg k (fst (next_seq a s)) b)"
  shows "\<exists>s' U' x'. drive (rerate_session L c d p) N s U = drive p N s' U' \<and> (s' = s \<or> s' = snd (next_seq a s))
    \<and> get_session (U' a) k = Some x' \<and> (\<forall>n. n \<noteq> a \<longrightarrow> U' n = U n) \<and> flow_qers x' = flow_qers x \<and> peer_ip x' = peer_ip x
    \<and> ambr x' = (if ambr_bps d = None \<or> ambr_bps d = ambr_bps (sc_policy c) then ambr x else ambr_bps d)"
proof (cases "ambr_bps d = None \<or> ambr_bps d = ambr_bps (sc_policy c)")
  case True
  then have "drive (rerate_session L c d p) N s U = drive p N s U" by (auto simp: rerate_session_def split: option.split)
  then show ?thesis using True assms(1) by auto
next
  case False
  then obtain b where b: "ambr_bps d = Some b" "ambr_bps (sc_policy c) \<noteq> Some b" by auto
  let ?m = "session_qer_update_request_msg k (fst (next_seq a s)) b"
  obtain r st' where h: "handle_msg (net_lib N) ?m (net_ip N a) (U a) (net_now N) (net_peer N) = (Some r, st')"
      "get_session st' k = Some (x\<lparr>ul_bucket := rerate (ul_bucket x) (sa_uplink_bps b) (net_now N),
        dl_bucket := rerate (dl_bucket x) (sa_downlink_bps b) (net_now N), ambr := Some b\<rparr>)"
    using qer_update_handled[OF assms(1,2)] by blast
  from n4_travels[OF assms(5)[OF b(1)] h(1)] have "n4_answer N U a ?m = (Some (lib_marshal (net_lib N) r), st')"
    by (simp add: n4_answer_def)
  then have "drive (rerate_session L c d p) N s U = drive p N (snd (next_seq a s)) (U(a := st'))"
    using b assms(3,4) by (simp add: rerate_session_def drive_steps)
  then show ?thesis using h(2) b
    by (intro exI[of _ "snd (next_seq a s)"] exI[of _ "U(a := st')"]) simp
qed

lemma drive_reflow:
  assumes "lib_ok (net_lib N)" "get_session (U a) k = Some x" "\<not> foreign_peer (net_peer N) (U a) k"
    and "sp_anchor (sc_path c) = a" "sc_up_seid c = k" "enforces (flow_qers x) = flow_for (decision_flow_qers (sc_policy c))"
    and "distinct (map fq_qfi (decision_flow_qers (sc_policy c)))" "distinct (map fq_qfi (decision_flow_qers d))"
    and "diff_flows (decision_flow_qers (sc_policy c)) (decision_flow_qers d) = (create, update, gone)"
    and "travels (net_lib N) (session_flow_modification_request_msg (net_lib N) k (fst (next_seq a s)) create update gone)"
  shows "\<exists>s' U' x'. drive (reflow_session (net_lib N) c d p) N s U = drive p N s' U' \<and> (s' = s \<or> s' = snd (next_seq a s))
    \<and> get_session (U' a) k = Some x' \<and> (\<forall>n. n \<noteq> a \<longrightarrow> U' n = U n) \<and> ambr x' = ambr x
    \<and> enforces (flow_qers x') = flow_for (decision_flow_qers d)"
proof (cases "create \<noteq> [] \<or> update \<noteq> [] \<or> gone \<noteq> []")
  case False
  then have "drive (reflow_session (net_lib N) c d p) N s U = drive p N s U" using assms(9) by (simp add: reflow_session_def)
  moreover have "enforces (flow_qers x) = flow_for (decision_flow_qers d)"
    using diff_flows_phases[OF assms(7-9,6), of "net_now N"] False by (simp add: flow_phases_def)
  ultimately show ?thesis using assms(2) by auto
next
  case True
  let ?m = "session_flow_modification_request_msg (net_lib N) k (fst (next_seq a s)) create update gone"
  have "distinct (map fq_qfi create)" using assms(8,9) by (auto simp: diff_flows_def distinct_map_filter)
  from flow_modification_handled[OF assms(1) this assms(2,3)] obtain r st' where
    h: "handle_msg (net_lib N) ?m (net_ip N a) (U a) (net_now N) (net_peer N) = (Some r, st')"
      "get_session st' k = Some (x\<lparr>flow_qers := flow_phases (net_now N) create update gone (flow_qers x)\<rparr>)" by blast
  from n4_travels[OF assms(10) h(1)] have "n4_answer N U a ?m = (Some (lib_marshal (net_lib N) r), st')"
    by (simp add: n4_answer_def)
  then have "drive (reflow_session (net_lib N) c d p) N s U = drive p N (snd (next_seq a s)) (U(a := st'))"
    using True assms(4,5,9) by (simp add: reflow_session_def drive_steps)
  then show ?thesis using h(2) diff_flows_phases[OF assms(7-9,6), of "net_now N"]
    by (intro exI[of _ "snd (next_seq a s)"] exI[of _ "U(a := st')"]) simp
qed


definition rate_update :: SmPolicyUpdate where
  "rate_update = \<lparr>up_session_rules = [(''default'', Some \<lparr>auth_sess_ambr = Some \<lparr>amb_uplink = ''1 Mbps'', amb_downlink = ''2 Mbps''\<rparr>\<rparr>)],
     up_pcc_rules = [], up_qos_descs = [], up_charging_descs = [], up_traffic_control_data = []\<rparr>"

definition refresh_exchange :: "pfcp_msg list" where
  "refresh_exchange = [session_qer_update_request_msg 9 1 \<lparr>sa_uplink_bps = 1000000, sa_downlink_bps = 2000000\<rparr>,
     session_flow_modification_request_msg plain_lib 9 1 [] [] [], session_flow_modification_request_msg plain_lib 9 2 [] [] []]"

definition refreshed_context :: SmContext where
  "refreshed_context = (demo_context 0x0A2D0002 7)\<lparr>sc_n3_teid := 1, sc_sm_policy := Some (''pcf'', ''p1'')\<rparr>"

definition refreshed_upf :: upf_state where
  "refreshed_upf = with_recovery_time 0\<lparr>sessions := [(9, demo_session\<lparr>flow_qers := []\<rparr>)]\<rparr>"


end
