(* ===== verification/Nas_Ie.thy ===== *)
theory Nas_Ie
  imports Smf_Flows
begin

unbundle bit_operations_syntax

section \<open>NAS information elements and 5GSM containers\<close>

text \<open>
  The octet-level part of \<open>crates/nas/src/lib.rs\<close>: slice lists, session bitmaps, tracking-area lists,
  timers, bit rates, and the 5GSM messages the AMF and the UE exchange inside NAS transport, which
  the source encodes by hand. A slice is an SST with an optional three-octet SD.
\<close>

type_synonym sd3 = "u8 \<times> u8 \<times> u8"
type_synonym slice = "u8 \<times> sd3 option"
type_synonym tac3 = "u8 \<times> u8 \<times> u8"

fun octets3 :: "sd3 \<Rightarrow> bytes" where
  "octets3 (a, b, c) = [a, b, c]"

subsection \<open>Slice lists\<close>

fun nssai_entry :: "slice \<Rightarrow> bytes" where
  "nssai_entry (sst, Some sd) = 4 # sst # octets3 sd"
| "nssai_entry (sst, None) = [1, sst]"

definition nssai_value :: "slice list \<Rightarrow> bytes" where
  "nssai_value slices = concat (map nssai_entry slices)"

definition slice_of :: "nat \<Rightarrow> bytes \<Rightarrow> slice list" where
  "slice_of len r = (if len = 1 then [(r ! 0, None)] else if len = 4 then [(r ! 0, Some (r ! 1, r ! 2, r ! 3))] else [])"

fun parse_nssai_value :: "bytes \<Rightarrow> slice list" where
  "parse_nssai_value [] = []"
| "parse_nssai_value (h # r) = (let len = unat h in
     if len = 0 \<or> length r < len then [] else slice_of len r @ parse_nssai_value (drop len r))"

definition NOT_AVAILABLE_IN_PLMN :: u8 where "NOT_AVAILABLE_IN_PLMN = 0"

fun rejected_entry :: "u8 \<Rightarrow> slice \<Rightarrow> bytes" where
  "rejected_entry cause (sst, Some sd) = (push_bit 4 4 OR (cause AND 0x0F)) # sst # octets3 sd"
| "rejected_entry cause (sst, None) = [push_bit 4 1 OR (cause AND 0x0F), sst]"

definition rejected_nssai_value :: "slice list \<Rightarrow> u8 \<Rightarrow> bytes" where
  "rejected_nssai_value slices cause = concat (map (rejected_entry cause) slices)"

fun parse_rejected_nssai_value :: "bytes \<Rightarrow> (slice \<times> u8) list" where
  "parse_rejected_nssai_value [] = []"
| "parse_rejected_nssai_value (h # r) = (let len = unat (drop_bit 4 h); cause = h AND 0x0F in
     if len = 0 \<or> length r < len then []
     else map (\<lambda>s. (s, cause)) (slice_of len r) @ parse_rejected_nssai_value (drop len r))"

text \<open>Both lists are read entry by entry.\<close>

locale entry_list =
  fixes entry :: "'a \<Rightarrow> bytes" and reader :: "bytes \<Rightarrow> 'b list" and view :: "'a \<Rightarrow> 'b"
  assumes reader_Nil: "reader [] = []"
    and reader_entry: "reader (entry a @ rest) = view a # reader rest"
begin

lemma read_entries: "reader (concat (map entry xs)) = map view xs"
  by (induction xs) (simp_all add: reader_Nil reader_entry)

end

interpretation allowed: entry_list nssai_entry parse_nssai_value id
proof
  fix a :: slice and rest
  show "parse_nssai_value (nssai_entry a @ rest) = id a # parse_nssai_value rest"
    by (cases a rule: nssai_entry.cases) (auto simp: slice_of_def Let_def)
qed simp

lemma rejected_head:
  "drop_bit 4 (64 OR (c AND 0x0F)) = (4 :: u8)" "drop_bit 4 (16 OR (c AND 0x0F)) = (1 :: u8)"
  "(64 OR (c AND 0x0F)) AND 0x0F = (c :: u8) AND 0x0F" "(16 OR (c AND 0x0F)) AND 0x0F = c AND 0x0F"
proof -
  have m: "(0x0F :: u8) = mask 4" by (simp add: mask_eq_exp_minus_1)
  have "drop_bit 4 (take_bit 4 c) = 0" by (simp add: drop_bit_take_bit)
  then show "drop_bit 4 (64 OR (c AND 0x0F)) = (4 :: u8)" "drop_bit 4 (16 OR (c AND 0x0F)) = (1 :: u8)"
    by (simp_all add: m drop_bit_or flip: take_bit_eq_mask)
  show "(64 OR (c AND 0x0F)) AND 0x0F = (c :: u8) AND 0x0F" "(16 OR (c AND 0x0F)) AND 0x0F = c AND 0x0F"
    by (simp_all add: m take_bit_or flip: take_bit_eq_mask)
qed

interpretation rejected: entry_list "rejected_entry c" parse_rejected_nssai_value "\<lambda>s. (s, c AND 0x0F)" for c
proof
  fix a :: slice and rest
  show "parse_rejected_nssai_value (rejected_entry c a @ rest) = (a, c AND 0x0F) # parse_rejected_nssai_value rest"
    by (cases a rule: nssai_entry.cases) (auto simp: slice_of_def Let_def rejected_head)
qed simp

subsection \<open>Session bitmaps\<close>

definition psi_bitmap_value :: "u8 list \<Rightarrow> bytes" where
  "psi_bitmap_value psis = foldl (\<lambda>bits psi. if psi < 16
     then bits[unat (psi div 8) := bits ! unat (psi div 8) OR push_bit (unat (psi mod 8)) 1] else bits) [0, 0] psis"

definition psis_from_psi_bitmap :: "bytes \<Rightarrow> u8 list" where
  "psis_from_psi_bitmap v = concat (map (\<lambda>(byte, b).
     map (\<lambda>i. of_nat byte * 8 + of_nat i) (filter (\<lambda>i. b AND push_bit i 1 \<noteq> 0) [0..<8])) (enumerate 0 (take 2 v)))"

text \<open>Bit \<open>i\<close> of octet \<open>j\<close> is set when session \<open>8j + i\<close> is in the list.\<close>

lemma unat_psi: "j < 2 \<Longrightarrow> i < 8 \<Longrightarrow> unat (of_nat (8 * j + i) :: u8) = 8 * j + i"
  by (rule unat_of_nat_small) simp

lemma octet_split: "i < 8 \<Longrightarrow> 8 * j + i = n \<longleftrightarrow> j = n div 8 \<and> i = n mod 8" for n :: nat
  by (rule iffI, drule sym, simp, simp)

lemma bitmap_fold:
  fixes ps :: "u8 list"
  assumes "length (bits :: bytes) = 2" "j < 2" "i < 8"
  shows "bit (foldl (\<lambda>bits psi. if psi < 16
       then bits[unat (psi div 8) := bits ! unat (psi div 8) OR push_bit (unat (psi mod 8)) 1] else bits) bits ps ! j) i
    \<longleftrightarrow> bit (bits ! j) i \<or> of_nat (8 * j + i) \<in> set ps" (is "bit (foldl ?f bits ps ! j) i \<longleftrightarrow> _")
  using assms(1)
proof (induction ps arbitrary: bits)
  case (Cons p ps)
  have len: "length (?f bits p) = 2" using Cons.prems by simp
  have "bit (?f bits p ! j) i \<longleftrightarrow> bit (bits ! j) i \<or> of_nat (8 * j + i) = p"
  proof (cases "p < 16")
    case True
    then have p: "unat p < 16" by (simp add: word_less_nat_alt)
    have v: "unat (p div 8) = unat p div 8" "unat (p mod 8) = unat p mod 8" by (simp_all add: unat_div unat_mod)
    have "unat (of_nat (8 * j + i) :: u8) = 8 * j + i" using assms(2,3) by (rule unat_psi)
    then have "of_nat (8 * j + i) = p \<longleftrightarrow> 8 * j + i = unat p" by (metis word_unat_eq_iff)
    also have "\<dots> \<longleftrightarrow> j = unat p div 8 \<and> i = unat p mod 8" using assms(3) by (rule octet_split)
    finally show ?thesis using True Cons.prems p assms(2,3) by (auto simp: v nth_list_update bit_simps)
  next
    case False
    have "unat (of_nat (8 * j + i) :: u8) = 8 * j + i" using assms(2,3) by (rule unat_psi)
    then have "unat (of_nat (8 * j + i) :: u8) < 16" using assms(2,3) by simp
    with False show ?thesis by (auto simp: word_less_nat_alt)
  qed
  with Cons.IH[OF len] show ?case by auto
qed simp

lemma length_bitmap [simp]: "length (psi_bitmap_value ps) = 2"
proof -
  have "length (foldl (\<lambda>bits psi. if psi < 16 then bits[unat (psi div 8) := g bits psi] else bits) b ps) = length b"
    for g and b :: bytes by (induction ps arbitrary: b) auto
  then show ?thesis by (simp add: psi_bitmap_value_def)
qed

lemma bitmap_bit: "j < 2 \<Longrightarrow> i < 8 \<Longrightarrow> bit (psi_bitmap_value ps ! j) i \<longleftrightarrow> of_nat (8 * j + i) \<in> set ps"
  using bitmap_fold[of "[0, 0]" j i ps] by (auto simp: psi_bitmap_value_def less_2_cases_iff)

lemma psi_bitmap_read: "psis_from_psi_bitmap (psi_bitmap_value ps) = filter (\<lambda>p. p \<in> set ps) (map of_nat [0..<16])"
proof -
  let ?v = "psi_bitmap_value ps"
  obtain x y where xy: "?v = [x, y]" using length_bitmap[of ps] by (auto simp: numeral_2_eq_2 length_Suc_conv simp del: length_bitmap)
  have b: "bit x i \<longleftrightarrow> of_nat i \<in> set ps" "bit y i \<longleftrightarrow> of_nat (8 + i) \<in> set ps" if "i < 8" for i
    using bitmap_bit[of 0 i ps] bitmap_bit[of 1 i ps] that by (simp_all add: xy)
  have "[0..<16] = [0..<8] @ map (\<lambda>i. 8 + i) [0..<8]" by (simp add: upt_rec)
  then have "filter (\<lambda>p. p \<in> set ps) (map of_nat [0..<16] :: u8 list)
      = map of_nat (filter (\<lambda>i. bit x i) [0..<8]) @ map (\<lambda>i. 8 + of_nat i) (filter (\<lambda>i. bit y i) [0..<8])"
    using b by (simp add: filter_map comp_def) (auto intro!: arg_cong2[where f = "(@)"] arg_cong[where f = "map _"] filter_cong)
  then show ?thesis by (simp add: psis_from_psi_bitmap_def xy and_exp_eq_0_iff_not_bit take_Cons' del: upt_rec_numeral)
qed

subsection \<open>Tracking-area lists\<close>

text \<open>The digits of an MCC and an MNC; their packing (\<open>PlmnId::to_tbcd\<close>) belongs to the NAS library and
  is an argument.\<close>

definition mcc_digits :: "string \<Rightarrow> sd3" where
  "mcc_digits mcc = (of_char (mcc ! 0) - 48, of_char (mcc ! 1) - 48, of_char (mcc ! 2) - 48)"

definition mnc_digits :: "string \<Rightarrow> sd3" where
  "mnc_digits mnc = (if length mnc = 2 then (of_char (mnc ! 0) - 48, of_char (mnc ! 1) - 48, 0x0F)
     else (of_char (mnc ! 0) - 48, of_char (mnc ! 1) - 48, of_char (mnc ! 2) - 48))"

definition tai_list_value :: "(sd3 \<Rightarrow> sd3 \<Rightarrow> sd3) \<Rightarrow> string \<Rightarrow> string \<Rightarrow> tac3 list \<Rightarrow> bytes" where
  "tai_list_value tbcd mcc mnc tacs0 =
    (let tacs = take 16 tacs0
     in ((of_nat (length tacs) - 1) AND 0x1F) # octets3 (tbcd (mcc_digits mcc) (mnc_digits mnc)) @ concat (map octets3 tacs))"

fun chunks3 :: "bytes \<Rightarrow> tac3 list" where
  "chunks3 (a # b # c # r) = (a, b, c) # chunks3 r"
| "chunks3 _ = []"

definition registration_area_of :: "bytes \<Rightarrow> tac3 list option" where
  "registration_area_of v = (if length v < 7 \<or> drop_bit 5 (v ! 0) AND 0b11 \<noteq> 0 then None
     else Some (take (unat (v ! 0 AND 0x1F) + 1) (chunks3 (drop 4 v))))"

interpretation tacs: entry_list octets3 chunks3 id
  by unfold_locales (simp, case_tac a rule: octets3.cases, simp)

lemma registration_area_read:
  assumes "tacs \<noteq> []"
  shows "registration_area_of (tai_list_value tbcd mcc mnc tacs) = Some (take 16 tacs)"
proof -
  let ?n = "length (take 16 tacs)"
  have n: "?n \<in> set (map Suc [0..<16])" using assms by (cases tacs) auto
  have low: "unat ((of_nat ?n - 1 :: u8) AND 0x1F) + 1 = ?n \<and> drop_bit 5 ((of_nat ?n - 1 :: u8) AND 0x1F) AND 0b11 = 0"
    using n by (auto simp: upt_rec)
  obtain a b c where p: "tbcd (mcc_digits mcc) (mnc_digits mnc) = (a, b, c)" by (metis prod_cases3)
  have len: "length (concat (map octets3 xs)) = 3 * length xs" for xs
    by (induction xs) (auto simp: octets3.simps)
  have "3 \<le> length (concat (map octets3 (take 16 tacs)))" unfolding len using assms by (cases tacs) simp_all
  then show ?thesis using low tacs.read_entries[of "take 16 tacs"]
    by (simp add: registration_area_of_def tai_list_value_def Let_def p) (simp add: min_def)
qed

subsection \<open>Timers\<close>

text \<open>\<open>u32::div_ceil\<close>, and the choice of the first unit whose five-bit multiple fits.\<close>

definition div_ceil :: "u32 \<Rightarrow> u32 \<Rightarrow> u32" where
  "div_ceil a b = a div b + (if a mod b = 0 then 0 else 1)"

fun first_fitting :: "(u8 \<times> u32) list \<Rightarrow> u32 \<Rightarrow> u8 option" where
  "first_fitting [] secs = None"
| "first_fitting ((u, step) # us) secs = (let multiple = div_ceil secs step in
     if multiple \<le> 31 then Some (push_bit 5 u OR ucast multiple) else first_fitting us secs)"

definition TIMER2_UNITS :: "(u8 \<times> u32) list" where
  "TIMER2_UNITS = [(0b000, 2), (0b001, 60), (0b010, 360)]"

definition timer2_from_secs :: "u32 \<Rightarrow> u8" where
  "timer2_from_secs secs = (case first_fitting TIMER2_UNITS secs of Some t \<Rightarrow> t | None \<Rightarrow> push_bit 5 0b010 OR 31)"

definition TIMER3_UNITS :: "(u8 \<times> u32) list" where
  "TIMER3_UNITS = [(0b011, 2), (0b100, 30), (0b101, 60), (0b000, 600), (0b001, 3600), (0b010, 36000), (0b110, 1152000)]"

definition timer3_from_secs :: "u32 \<Rightarrow> u8" where
  "timer3_from_secs secs = (case first_fitting TIMER3_UNITS secs of Some t \<Rightarrow> t | None \<Rightarrow> push_bit 5 0b110 OR 31)"

definition timer_deactivated :: u8 where
  "timer_deactivated = 0b11100000"

text \<open>What a receiver makes of a timer octet (TS 24.008, 10.5.7.4): unit in the high three bits,
  multiple in the low five.\<close>

definition timer_secs :: "(u8 \<times> u32) list \<Rightarrow> u8 \<Rightarrow> nat" where
  "timer_secs units t = (case map_of units (drop_bit 5 t) of Some step \<Rightarrow> unat step * unat (t AND 0x1F) | None \<Rightarrow> 0)"

lemma div_ceil_bounds:
  assumes "b \<noteq> 0"
  shows "unat a \<le> unat (div_ceil a b) * unat b \<and> unat (div_ceil a b) * unat b < unat a + unat b"
proof -
  let ?q = "unat a div unat b" and ?r = "unat a mod unat b"
  have b: "0 < unat b" using assms by (simp add: unat_gt_0)
  have a: "unat a = ?q * unat b + ?r" "?r < unat b" using b by simp_all
  have r: "a mod b = 0 \<longleftrightarrow> ?r = 0" by (metis unat_mod unat_eq_zero)
  show ?thesis
  proof (cases "?r = 0")
    case True
    then have "unat (div_ceil a b) = ?q" using r by (simp add: div_ceil_def unat_div)
    with a True b show ?thesis by simp
  next
    case False
    have "?q \<le> ?q * unat b" using b by simp
    then have "?q + 1 \<le> unat a" using a(1) False by linarith
    then have "?q + 1 < 2 ^ 32" using unsigned_less[of a, where 'a = nat] by simp
    then have "unat (div_ceil a b) = ?q + 1" using r False by (simp add: div_ceil_def unat_div unat_word_ariths)
    moreover have "(?q + 1) * unat b = ?q * unat b + unat b" by simp
    ultimately have "unat (div_ceil a b) * unat b = ?q * unat b + unat b" by simp
    then show ?thesis using a False by linarith
  qed
qed

lemma timer_octet:
  fixes u :: u8 and m :: u32
  assumes "u < 8" "m \<le> 31"
  shows "drop_bit 5 (push_bit 5 u OR ucast m) = u" "unat ((push_bit 5 u OR ucast m) AND 0x1F) = unat m"
proof -
  have k: "(0x1F :: u8) = mask 5" by (simp add: mask_eq_exp_minus_1)
  have m: "unat m \<le> 31" using assms(2) by (simp add: word_le_nat_alt)
  then have um: "unat (ucast m :: u8) = unat m" by (simp add: unsigned_ucast_eq take_bit_nat_eq_self)
  then have t: "take_bit 5 (ucast m :: u8) = ucast m" using m by (simp add: word_unat_eq_iff unsigned_take_bit_eq take_bit_nat_eq_self)
  have "drop_bit 5 (ucast m :: u8) = 0" by (metis t drop_bit_take_bit diff_self_eq_0 take_bit_0)
  moreover have "drop_bit 5 (push_bit 5 u) = u"
  proof -
    have "unat u < 8" using assms(1) by (simp add: word_less_nat_alt)
    then have "take_bit 3 u = u" by (simp add: word_unat_eq_iff unsigned_take_bit_eq take_bit_nat_eq_self)
    moreover have "drop_bit 5 (push_bit 5 u) = take_bit 3 u" by (rule bit_word_eqI) (auto simp: bit_simps)
    ultimately show ?thesis by simp
  qed
  ultimately show "drop_bit 5 (push_bit 5 u OR ucast m) = u" by (simp add: drop_bit_or)
  have "(push_bit 5 u OR ucast m) AND 0x1F = take_bit 5 (ucast m :: u8)"
    unfolding k by (rule bit_word_eqI) (auto simp: bit_simps)
  then show "unat ((push_bit 5 u OR ucast m) AND 0x1F) = unat m" using t um by simp
qed

text \<open>An octet suits a duration when the receiver waits at least that long and less than one step of a
  unit longer, and no finer unit can express the duration.\<close>

definition suits :: "(u8 \<times> u32) list \<Rightarrow> u32 \<Rightarrow> u8 \<Rightarrow> bool" where
  "suits units secs t = (\<exists>(u, st) \<in> set units. unat secs \<le> timer_secs units t \<and> timer_secs units t < unat secs + unat st
     \<and> (\<forall>(v, fine) \<in> set units. fine < st \<longrightarrow> 31 * unat fine < unat secs))"

locale timer_units =
  fixes units :: "(u8 \<times> u32) list"
  assumes distinct_units: "distinct (map fst units)"
    and fine_to_coarse: "sorted_wrt (\<lambda>x y. snd x < snd y) units"
    and unit_range: "(u, st) \<in> set units \<Longrightarrow> u < 8 \<and> st \<noteq> 0"
begin

lemma too_fine: "(u, st) \<in> set units \<Longrightarrow> \<not> div_ceil secs st \<le> 31 \<Longrightarrow> 31 * unat st < unat secs"
proof -
  assume "(u, st) \<in> set units" "\<not> div_ceil secs st \<le> 31"
  then have "32 \<le> unat (div_ceil secs st)" "st \<noteq> 0" using unit_range by (auto simp: word_le_nat_alt)
  then have "32 * unat st \<le> unat (div_ceil secs st) * unat st" by (intro mult_le_mono1)
  with div_ceil_bounds[OF \<open>st \<noteq> 0\<close>, of secs] show ?thesis by linarith
qed

lemma first_fitting_prefix:
  assumes "units = pre @ us" "\<forall>(v, fine) \<in> set pre. 31 * unat fine < unat secs"
  shows "case first_fitting us secs of Some t \<Rightarrow> suits units secs t | None \<Rightarrow> \<forall>(v, fine) \<in> set units. 31 * unat fine < unat secs"
  using assms
proof (induction us arbitrary: pre)
  case (Cons x us)
  obtain u st where x: "x = (u, st)" by (cases x)
  have m: "(u, st) \<in> set units" using Cons.prems x by simp
  note r = unit_range[OF m]
  show ?case
  proof (cases "div_ceil secs st \<le> 31")
    case True
    let ?t = "push_bit 5 u OR ucast (div_ceil secs st)"
    have "map_of units u = Some st" using m distinct_units by simp
    then have v: "timer_secs units ?t = unat (div_ceil secs st) * unat st"
      using timer_octet[of u "div_ceil secs st"] r True by (simp add: timer_secs_def mult.commute)
    have "\<forall>(v, fine) \<in> set units. fine < st \<longrightarrow> 31 * unat fine < unat secs"
      using Cons.prems fine_to_coarse by (auto simp: x sorted_wrt_append)
    then have "suits units secs ?t" unfolding suits_def v using m div_ceil_bounds[of st secs] r by blast
    then show ?thesis using True by (simp add: x)
  next
    case False
    then have "\<forall>(v, fine) \<in> set (pre @ [x]). 31 * unat fine < unat secs"
      using Cons.prems(2) too_fine[OF m False] by (simp add: x)
    with Cons.IH[of "pre @ [x]"] Cons.prems(1) False show ?thesis by (simp add: x)
  qed
qed simp

lemma timer_secs_le: "\<forall>(v, st) \<in> set units. st \<le> big \<Longrightarrow> timer_secs units t \<le> 31 * unat big"
proof (cases "map_of units (drop_bit 5 t)")
  case (Some st)
  assume "\<forall>(v, st) \<in> set units. st \<le> big"
  then have "unat st \<le> unat big" using map_of_SomeD[OF Some] by (auto simp: word_le_nat_alt)
  moreover have "unat (t AND 0x1F) \<le> 31" using word_and_le1[of t "0x1F"] by (simp add: word_le_nat_alt)
  ultimately have "unat st * unat (t AND 0x1F) \<le> unat big * 31" by (rule mult_le_mono)
  then show ?thesis by (simp add: timer_secs_def Some)
qed (simp add: timer_secs_def)

text \<open>The coarsest unit bounds what can be expressed, and its largest multiple is the answer beyond.\<close>

lemma from_secs_suits:
  assumes "last units = (u, big)" "units \<noteq> []"
    and "t = (case first_fitting units secs of Some t \<Rightarrow> t | None \<Rightarrow> push_bit 5 u OR 31)"
  shows "if unat secs \<le> 31 * unat big then suits units secs t else timer_secs units t = 31 * unat big"
proof -
  have m: "(u, big) \<in> set units" using assms(1,2) last_in_set by force
  have top: "\<forall>(v, st) \<in> set units. st \<le> big"
    using fine_to_coarse assms(1,2) by (induction units rule: rev_induct) (auto simp: sorted_wrt_append)
  have f: "case first_fitting units secs of Some t \<Rightarrow> suits units secs t | None \<Rightarrow> \<forall>(v, fine) \<in> set units. 31 * unat fine < unat secs"
    using first_fitting_prefix[of "[]" units] by simp
  show ?thesis
  proof (cases "first_fitting units secs")
    case None
    moreover have "map_of units u = Some big" using m distinct_units by simp
    then have "timer_secs units (push_bit 5 u OR 31) = 31 * unat big"
      using timer_octet[of u 31] unit_range[OF m] by (simp add: timer_secs_def)
    ultimately show ?thesis using f m assms(3) by auto
  next
    case (Some t')
    with f have "suits units secs t'" by simp
    moreover from this have "unat secs \<le> 31 * unat big" using timer_secs_le[OF top, of t'] by (auto simp: suits_def)
    ultimately show ?thesis using Some assms(3) by simp
  qed
qed

end

interpretation t2: timer_units TIMER2_UNITS
  by unfold_locales (auto simp: TIMER2_UNITS_def)

interpretation t3: timer_units TIMER3_UNITS
  by unfold_locales (auto simp: TIMER3_UNITS_def)

text \<open>NAS timers. Up to the longest duration a timer can express its octet suits the duration
  asked for; beyond it the octet stands for the longest one.\<close>

theorem timers_cover:
  "(unat secs \<le> 31 * 360 \<longrightarrow> suits TIMER2_UNITS secs (timer2_from_secs secs))
   \<and> (31 * 360 < unat secs \<longrightarrow> timer_secs TIMER2_UNITS (timer2_from_secs secs) = 31 * 360)
   \<and> (unat secs \<le> 31 * 1152000 \<longrightarrow> suits TIMER3_UNITS secs (timer3_from_secs secs))
   \<and> (31 * 1152000 < unat secs \<longrightarrow> timer_secs TIMER3_UNITS (timer3_from_secs secs) = 31 * 1152000)"
  using t2.from_secs_suits[of 2 360 "timer2_from_secs secs" secs] t3.from_secs_suits[of 6 1152000 "timer3_from_secs secs" secs]
  by (auto simp: TIMER2_UNITS_def TIMER3_UNITS_def timer2_from_secs_def timer3_from_secs_def split: if_splits)

theorem timers_cover_witness:
  "suits TIMER2_UNITS 600 (timer2_from_secs 600) \<and> timer_secs TIMER2_UNITS (timer2_from_secs 20000) = 31 * 360
   \<and> suits TIMER3_UNITS 3240 (timer3_from_secs 3240)"
  using timers_cover[of 600] timers_cover[of 20000] timers_cover[of 3240] by simp

subsection \<open>Bit rates and QoS flows\<close>

record SessionAmbr =
  dl_unit :: u8
  dl_value :: u16
  ul_unit :: u8
  ul_value :: u16

definition TEN_MBPS :: SessionAmbr where
  "TEN_MBPS = \<lparr>dl_unit = 0x06, dl_value = 10, ul_unit = 0x06, ul_value = 10\<rparr>"

definition rate_unit :: "string \<Rightarrow> u8 option" where
  "rate_unit u = map_of [(''Kbps'', 0x01), (''Mbps'', 0x06), (''Gbps'', 0x0B), (''Tbps'', 0x10)] u"

definition nas_rate :: "string \<Rightarrow> (u8 \<times> u16) option" where
  "nas_rate s = (case split_once CHR '' '' (trim s) of None \<Rightarrow> None
   | Some (value, u) \<Rightarrow> (case parse_word value :: u16 option of None \<Rightarrow> None
     | Some v \<Rightarrow> (case rate_unit u of None \<Rightarrow> None | Some c \<Rightarrow> Some (c, v))))"

definition session_ambr_from_bitrates :: "string \<Rightarrow> string \<Rightarrow> SessionAmbr option" where
  "session_ambr_from_bitrates up down = (case nas_rate up of None \<Rightarrow> None
   | Some (uu, u) \<Rightarrow> (case nas_rate down of None \<Rightarrow> None
     | Some (du, d) \<Rightarrow> Some \<lparr>dl_unit = du, dl_value = d, ul_unit = uu, ul_value = u\<rparr>))"

record GbrFlow =
  gf_gfbr :: SessionAmbr
  gf_mfbr :: SessionAmbr

record QosFlowDesc =
  qd_qfi :: u8
  qd_five_qi :: u8
  qd_gbr :: "GbrFlow option"

definition rate_param :: "u8 \<Rightarrow> u8 \<Rightarrow> u16 \<Rightarrow> bytes" where
  "rate_param i u value = [i, 0x03, u] @ to_be 2 value"

definition qos_flow_description :: "QosFlowDesc \<Rightarrow> bytes" where
  "qos_flow_description f = [qd_qfi f, push_bit 5 0x01, push_bit 6 1 OR (if qd_gbr f \<noteq> None then 5 else 1), 0x01, 0x01, qd_five_qi f]
     @ (case qd_gbr f of None \<Rightarrow> []
        | Some g \<Rightarrow> rate_param 0x02 (ul_unit (gf_gfbr g)) (ul_value (gf_gfbr g)) @ rate_param 0x03 (dl_unit (gf_gfbr g)) (dl_value (gf_gfbr g))
            @ rate_param 0x04 (ul_unit (gf_mfbr g)) (ul_value (gf_mfbr g)) @ rate_param 0x05 (dl_unit (gf_mfbr g)) (dl_value (gf_mfbr g)))"

definition qos_flow_descriptions_value :: "QosFlowDesc list \<Rightarrow> bytes" where
  "qos_flow_descriptions_value flows = concat (map qos_flow_description flows)"

subsection \<open>5GSM containers\<close>

datatype PduAddress = PaIpv4 u32 | PaIpv6 bytes | PaIpv4v6 bytes u32

fun session_type :: "PduAddress \<Rightarrow> PduSessionType" where
  "session_type (PaIpv4 _) = Ipv4" | "session_type (PaIpv6 _) = Ipv6" | "session_type (PaIpv4v6 _ _) = Ipv4v6"

definition pdu_session_establishment_request :: "u8 \<Rightarrow> u8 \<Rightarrow> bytes" where
  "pdu_session_establishment_request psi pti = [0x2e, psi, pti, 0xc1, 0xff, 0xff]"

definition pdu_session_establishment_request_typed :: "u8 \<Rightarrow> u8 \<Rightarrow> PduSessionType \<Rightarrow> bytes" where
  "pdu_session_establishment_request_typed psi pti t = pdu_session_establishment_request psi pti @ [0x90 OR pst_value t]"

definition requested_pdu_session_type :: "bytes \<Rightarrow> PduSessionType option" where
  "requested_pdu_session_type c = (if length c < 6 then None
     else find_map (\<lambda>b. if drop_bit 4 b = 0x9 then pst_from_value (b AND 0x0f) else None) (drop 6 c))"

definition pdu_session_establishment_request_with_dns :: "u8 \<Rightarrow> u8 \<Rightarrow> PduSessionType \<Rightarrow> bytes" where
  "pdu_session_establishment_request_with_dns psi pti t = pdu_session_establishment_request_typed psi pti t
     @ [0x7b] @ to_be 2 (4 :: u16) @ [0x80, 0x00, 0x03, 0x00]"

text \<open>\<open>slice.windows(n)\<close>.\<close>

definition windows :: "nat \<Rightarrow> 'a list \<Rightarrow> 'a list list" where
  "windows n xs = map (\<lambda>i. take n (drop i xs)) [0..<Suc (length xs) - n]"

definition pco_requests_ipv6_dns :: "bytes \<Rightarrow> bool" where
  "pco_requests_ipv6_dns c = list_ex (\<lambda>w. w = [0x00, 0x03, 0x00]) (windows 3 c)"

definition dns_ipv6_from_establishment_accept :: "bytes \<Rightarrow> 128 word option" where
  "dns_ipv6_from_establishment_accept c =
     find_map (\<lambda>w. if w ! 0 = 0x00 \<and> w ! 1 = 0x03 \<and> w ! 2 = 16 then Some (from_be (subslice 3 19 w)) else None) (windows 19 c)"

text \<open>The PDU Address IE starting at one position, and the first position where there is one.\<close>

definition pdu_address_at :: "bytes \<Rightarrow> nat \<Rightarrow> PduAddress option" where
  "pdu_address_at c i = (if c ! i \<noteq> 0x29 \<or> length c \<le> i + 2 then None
     else (let len = unat (c ! (i + 1)); ty = c ! (i + 2) AND 0x07 in
       if len = 0 \<or> length c < i + 2 + len then None
       else (let body = subslice (i + 3) (i + 2 + len) c in
         if ty = 1 \<and> len = 5 then Some (PaIpv4 (from_be body))
         else if ty = 2 \<and> len = 9 then Some (PaIpv6 body)
         else if ty = 3 \<and> len = 13 then Some (PaIpv4v6 (subslice 0 8 body) (from_be (subslice 8 12 body)))
         else None)))"

definition pdu_address_from_establishment_accept :: "bytes \<Rightarrow> PduAddress option" where
  "pdu_address_from_establishment_accept c = find_map (pdu_address_at c) [0..<length c]"

definition ue_ipv4_from_establishment_accept :: "bytes \<Rightarrow> u32 option" where
  "ue_ipv4_from_establishment_accept c = (case pdu_address_from_establishment_accept c of
     Some (PaIpv4 v4) \<Rightarrow> Some v4 | Some (PaIpv4v6 _ v4) \<Rightarrow> Some v4 | _ \<Rightarrow> None)"

definition ue_ipv6_iid_from_establishment_accept :: "bytes \<Rightarrow> bytes option" where
  "ue_ipv6_iid_from_establishment_accept c = (case pdu_address_from_establishment_accept c of
     Some (PaIpv6 iid) \<Rightarrow> Some iid | Some (PaIpv4v6 iid _) \<Rightarrow> Some iid | _ \<Rightarrow> None)"

definition accept_5gsm_cause :: "bytes \<Rightarrow> u8 option" where
  "accept_5gsm_cause c = (if length c < 5 then None
     else find_map (\<lambda>w. if w ! 0 = 0x59 then Some (w ! 1) else None) (windows 2 (drop 5 c)))"

fun pdu_address_ie :: "PduAddress \<Rightarrow> bytes" where
  "pdu_address_ie (PaIpv4 v4) = [0x29, 5, 0x01] @ to_be 4 v4"
| "pdu_address_ie (PaIpv6 iid) = [0x29, 9, 0x02] @ iid"
| "pdu_address_ie (PaIpv4v6 iid v4) = [0x29, 13, 0x03] @ iid @ to_be 4 v4"

definition ambr_octets :: "SessionAmbr \<Rightarrow> bytes" where
  "ambr_octets a = [6, dl_unit a] @ to_be 2 (dl_value a) @ [ul_unit a] @ to_be 2 (ul_value a)"

definition rfc1035_labels :: "string \<Rightarrow> bytes" where
  "rfc1035_labels dnn = concat (map (\<lambda>l. of_nat (length l) # map of_char l) (filter (\<lambda>l. l \<noteq> []) (split_on CHR ''.'' dnn)))"

definition flow_descriptions_ie :: "bytes \<Rightarrow> bytes" where
  "flow_descriptions_ie desc = [0x79] @ to_be 2 (of_nat (length desc) :: u16) @ desc"

definition dns_pco :: "128 word \<Rightarrow> bytes" where
  "dns_pco dns = (let pco = [0x80, 0x00, 0x03, 16] @ to_be 16 dns in [0x7b] @ to_be 2 (of_nat (length pco) :: u16) @ pco)"

definition default_qos_rules :: bytes where
  "default_qos_rules = [0x01, 0x00, 0x06, 0x31, 0x31, 0x01, 0x01, 0xff, 0x01]"

definition pdu_session_establishment_accept :: "u8 \<Rightarrow> u8 \<Rightarrow> PduAddress \<Rightarrow> string \<Rightarrow> slice \<Rightarrow> SessionAmbr \<Rightarrow> QosFlowDesc list \<Rightarrow>
    u8 option \<Rightarrow> 128 word option \<Rightarrow> bytes" where
  "pdu_session_establishment_accept psi pti addr dnn snssai rate flows cause dns =
     [0x2e, psi, pti, 0xc2, 0x10 OR pst_value (session_type addr)]
     @ to_be 2 (of_nat (length default_qos_rules) :: u16) @ default_qos_rules @ ambr_octets rate
     @ (case cause of Some c \<Rightarrow> [0x59, c] | None \<Rightarrow> [])
     @ pdu_address_ie addr @ [0x22] @ nssai_entry snssai
     @ (if flows \<noteq> [] then flow_descriptions_ie (qos_flow_descriptions_value flows) else [])
     @ (case dns of Some d \<Rightarrow> dns_pco d | None \<Rightarrow> [])
     @ [0x25, of_nat (length (rfc1035_labels dnn))] @ rfc1035_labels dnn"

definition pdu_session_modification_command :: "u8 \<Rightarrow> u8 \<Rightarrow> SessionAmbr \<Rightarrow> QosFlowDesc list \<Rightarrow> u8 list \<Rightarrow> bytes" where
  "pdu_session_modification_command psi pti rate flows released =
    (let desc = qos_flow_descriptions_value flows @ concat (map (\<lambda>qfi. [qfi, push_bit 5 0x02, 0x00]) released)
     in [0x2e, psi, pti, 0xcb, 0x2a] @ ambr_octets rate @ (if desc \<noteq> [] then flow_descriptions_ie desc else []))"

definition pdu_session_release_command :: "u8 \<Rightarrow> u8 \<Rightarrow> u8 \<Rightarrow> bytes" where
  "pdu_session_release_command psi pti cause = [0x2e, psi, pti, 0xd3, cause]"

definition pdu_session_release_complete :: "u8 \<Rightarrow> u8 \<Rightarrow> bytes" where
  "pdu_session_release_complete psi pti = [0x2e, psi, pti, 0xd4]"

definition is_pdu_session_release_complete :: "bytes \<Rightarrow> bool" where
  "is_pdu_session_release_complete c = (3 < length c \<and> c ! 3 = 0xd4)"

definition INSUFFICIENT_RESOURCES :: u8 where "INSUFFICIENT_RESOURCES = 26"
definition REGULAR_DEACTIVATION :: u8 where "REGULAR_DEACTIVATION = 36"
definition MISSING_OR_UNKNOWN_DNN :: u8 where "MISSING_OR_UNKNOWN_DNN = 27"
definition REQUEST_REJECTED_UNSPECIFIED :: u8 where "REQUEST_REJECTED_UNSPECIFIED = 31"
definition MISSING_OR_UNKNOWN_DNN_IN_SLICE :: u8 where "MISSING_OR_UNKNOWN_DNN_IN_SLICE = 70"

definition pdu_session_establishment_reject :: "u8 \<Rightarrow> u8 \<Rightarrow> u8 \<Rightarrow> u8 option \<Rightarrow> bytes" where
  "pdu_session_establishment_reject psi pti cause backoff =
     [0x2e, psi, pti, 0xc3, cause] @ (case backoff of Some t \<Rightarrow> [0x37, 0x01, t] | None \<Rightarrow> [])"

definition pdu_session_reject_info :: "bytes \<Rightarrow> (u8 \<times> u8 option) option" where
  "pdu_session_reject_info c = (if length c \<le> 4 \<or> c ! 3 \<noteq> 0xc3 then None
     else Some (c ! 4, if 5 < length c \<and> c ! 5 = 0x37 \<and> 7 < length c then Some (c ! 7) else None))"

subsection \<open>Reading an accept\<close>

text \<open>The scan for the PDU address looks at every octet, so what precedes it matters: the rates are
  free values, and an octet 0x29 in them can be taken for the IE.\<close>

lemma find_map_append: "find_map f (xs @ ys) = (case find_map f xs of Some y \<Rightarrow> Some y | None \<Rightarrow> find_map f ys)"
  by (induction xs) (auto split: option.split)

lemma find_map_None: "find_map f xs = None \<longleftrightarrow> (\<forall>x \<in> set xs. f x = None)"
  by (induction xs) (auto split: option.split)

lemma find_map_upt: "k < n \<Longrightarrow> (\<And>i. i < k \<Longrightarrow> f i = None) \<Longrightarrow> f k = Some y \<Longrightarrow> find_map f [0..<n] = Some y"
proof -
  assume k: "k < n" "\<And>i. i < k \<Longrightarrow> f i = None" "f k = Some y"
  have "[0..<n] = [0..<k] @ k # [Suc k..<n]" using k(1) upt_add_eq_append[of 0 k "n - k"] by (simp add: upt_conv_Cons)
  moreover have "find_map f [0..<k] = None" using k(2) by (simp add: find_map_None)
  ultimately show ?thesis using k(3) by (simp add: find_map_append)
qed

lemma pdu_address_at_None: "c ! i \<noteq> 0x29 \<or> c ! (i + 1) \<notin> {5, 9, 13} \<Longrightarrow> pdu_address_at c i = None"
proof -
  assume "c ! i \<noteq> 0x29 \<or> c ! (i + 1) \<notin> {5, 9, 13}"
  moreover have "unat (c ! (i + 1)) \<notin> {5, 9, 13}" if "c ! (i + 1) \<notin> {5, 9, 13}"
    using that by (auto simp: word_unat_eq_iff)
  ultimately show ?thesis by (auto simp: pdu_address_at_def Let_def)
qed

fun address_wf :: "PduAddress \<Rightarrow> bool" where
  "address_wf (PaIpv4 _) = True" | "address_wf (PaIpv6 iid) = (length iid = 8)" | "address_wf (PaIpv4v6 iid _) = (length iid = 8)"

lemma pdu_address_at_ie:
  assumes "address_wf a"
  shows "pdu_address_at (pre @ pdu_address_ie a @ post) (length pre) = Some a"
proof -
  have "to_be 4 v = [to_be 4 v ! 0, to_be 4 v ! 1, to_be 4 v ! 2, to_be 4 v ! 3]" for v :: u32 by (simp add: to_be_4)
  note f = from_be_to_be[of 4, where 'a = 32]
  show ?thesis using assms
    by (cases a) (auto simp: pdu_address_at_def Let_def nth_append subslice_def f)
qed

definition plain_rates :: "SessionAmbr \<Rightarrow> bool" where
  "plain_rates r = (dl_unit r \<in> {0x01, 0x06, 0x0B, 0x10} \<and> ul_unit r \<in> {0x01, 0x06, 0x0B, 0x10}
     \<and> unat (dl_value r) div 256 \<noteq> 41 \<and> unat (ul_value r) div 256 \<noteq> 41)"

fun no_address :: "bytes \<Rightarrow> bool" where
  "no_address (x # y # r) = ((x \<noteq> 0x29 \<or> y \<notin> {5, 9, 13}) \<and> no_address (y # r))"
| "no_address _ = True"

lemma no_address_at: "no_address (xs @ [x]) \<Longrightarrow> i < length xs \<Longrightarrow> pdu_address_at (xs @ x # post) i = None"
proof (rule pdu_address_at_None, induction xs arbitrary: i)
  case (Cons a xs)
  then show ?case by (cases xs; cases i) (auto simp: nth_append)
qed simp

lemma accept_prefix:
  fixes psi pti cause rate t
  defines "pre \<equiv> [0x2e, psi, pti, 0xc2, 0x10 OR pst_value t] @ to_be 2 (of_nat (length default_qos_rules) :: u16)
      @ default_qos_rules @ ambr_octets rate @ (case cause of Some c \<Rightarrow> [0x59, c] | None \<Rightarrow> [])"
  assumes "psi < 16" "plain_rates rate" "i < length pre"
  shows "pdu_address_at (pre @ 0x29 # post) i = None"
proof -
  have hi: "ucast (drop_bit 8 v) \<noteq> (0x29 :: u8)" if "unat (v :: u16) div 256 \<noteq> 41" for v
  proof -
    have "unat (ucast (drop_bit 8 v) :: u8) = unat v div 256"
      using unsigned_less[of v, where 'a = nat] by (simp add: unsigned_ucast_eq drop_bit_eq_div unat_div take_bit_nat_eq_self)
    with that show ?thesis by auto
  qed
  have "psi \<noteq> 0x29" using assms(2) by auto
  have t: "0x10 OR pst_value t \<noteq> 0x29" by (cases t) auto
  have u: "dl_unit rate \<noteq> 0x29" "ul_unit rate \<noteq> 0x29" "ul_unit rate \<noteq> 5" "ul_unit rate \<noteq> 9" "ul_unit rate \<noteq> 13"
    and h: "ucast (drop_bit 8 (dl_value rate)) \<noteq> (0x29 :: u8)" "ucast (drop_bit 8 (ul_value rate)) \<noteq> (0x29 :: u8)"
    using assms(3) hi by (auto simp: plain_rates_def)
  have "no_address (pre @ [0x29])"
    using u h \<open>psi \<noteq> 0x29\<close> t
    by (cases cause) (simp_all add: pre_def ambr_octets_def default_qos_rules_def to_be_2)
  then show ?thesis using assms(4) by (rule no_address_at)
qed

text \<open>C30: the address of a session reaches the UE. In every Establishment Accept for a session identity
  of the protocol and rates whose multiples do not have 41 as their high octet, the scan of the UE finds
  exactly the address the network assigned, whatever the transaction, slice, flows, cause,
  DNS server and DNN.\<close>

theorem accept_address_roundtrip:
  assumes "psi < 16" "plain_rates rate" "address_wf a"
  shows "pdu_address_from_establishment_accept (pdu_session_establishment_accept psi pti a dnn snssai rate flows cause dns) = Some a"
proof -
  let ?pre = "[0x2e, psi, pti, 0xc2, 0x10 OR pst_value (session_type a)] @ to_be 2 (of_nat (length default_qos_rules) :: u16)
      @ default_qos_rules @ ambr_octets rate @ (case cause of Some c \<Rightarrow> [0x59, c] | None \<Rightarrow> [])"
  define post where "post = [0x22] @ nssai_entry snssai @ (if flows \<noteq> [] then flow_descriptions_ie (qos_flow_descriptions_value flows) else [])
     @ (case dns of Some d \<Rightarrow> dns_pco d | None \<Rightarrow> []) @ [0x25, of_nat (length (rfc1035_labels dnn))] @ rfc1035_labels dnn"
  let ?c = "?pre @ pdu_address_ie a @ post"
  have c: "pdu_session_establishment_accept psi pti a dnn snssai rate flows cause dns = ?c"
    by (simp add: pdu_session_establishment_accept_def post_def)
  obtain rest where r: "pdu_address_ie a = 0x29 # rest" by (cases a) auto
  show ?thesis unfolding c pdu_address_from_establishment_accept_def
  proof (rule find_map_upt)
    show "length ?pre < length ?c" using r by simp
    show "pdu_address_at ?c (length ?pre) = Some a" by (rule pdu_address_at_ie[OF assms(3)])
    show "pdu_address_at ?c i = None" if "i < length ?pre" for i
      using accept_prefix[OF assms(1,2), of i pti "session_type a" cause "rest @ post"] that r by simp
  qed
qed

definition lan_rate :: SessionAmbr where
  "lan_rate = \<lparr>dl_unit = 0x06, dl_value = 100, ul_unit = 0x06, ul_value = 20\<rparr>"

theorem accept_address_roundtrip_witness:
  "pdu_address_from_establishment_accept (pdu_session_establishment_accept 5 1 (PaIpv4v6 [0, 0, 0, 0, 0, 0, 0, 1] 0x0A2D0002)
     ''internet'' (1, Some (0x29, 5, 1)) lan_rate [] (Some 0x29) (Some 42)) = Some (PaIpv4v6 [0, 0, 0, 0, 0, 0, 0, 1] 0x0A2D0002)"
  by (rule accept_address_roundtrip) (simp_all add: plain_rates_def lan_rate_def)


text \<open>Slices, sessions and areas read back. An allowed or rejected NSSAI yields its slices, each
  rejection with the low four bits of its cause; a session bitmap yields the session identities below 16 in
  order, each once; a tracking-area list yields its first 16 areas.\<close>

theorem nas_values_roundtrip:
  "parse_nssai_value (nssai_value slices) = slices
   \<and> parse_rejected_nssai_value (rejected_nssai_value slices cause) = map (\<lambda>s. (s, cause AND 0x0F)) slices
   \<and> psis_from_psi_bitmap (psi_bitmap_value psis) = filter (\<lambda>p. p \<in> set psis) (map of_nat [0..<16])
   \<and> registration_area_of (tai_list_value tbcd mcc mnc (t # tacs)) = Some (take 16 (t # tacs))"
  using allowed.read_entries[of slices] rejected.read_entries[of cause slices] psi_bitmap_read[of psis]
    registration_area_read[of "t # tacs" tbcd mcc mnc]
  by (simp add: nssai_value_def rejected_nssai_value_def)

end
