(* ===== verification/Nas_Security.thy ===== *)
theory Nas_Security
  imports Pdcp
begin

unbundle bit_operations_syntax

section \<open>NAS security\<close>

text \<open>
  \<open>NasSecurityContext\<close> of \<open>crates/nas/src/lib.rs\<close>: the security envelope of NAS messages, the
  reconstruction of the NAS COUNT from the octet on the wire, and replay protection. The algorithms are
  the parameter \<open>crypto\<close>; the message codec, which belongs to another crate, is an argument.
\<close>

definition INTEGRITY :: u8 where "INTEGRITY = 0x01"
definition INTEGRITY_CIPHERED :: u8 where "INTEGRITY_CIPHERED = 0x02"
definition INTEGRITY_NEW_CONTEXT :: u8 where "INTEGRITY_NEW_CONTEXT = 0x03"
definition INTEGRITY_CIPHERED_NEW_CONTEXT :: u8 where "INTEGRITY_CIPHERED_NEW_CONTEXT = 0x04"
definition NAS_BEARER :: u8 where "NAS_BEARER = 1"
definition EPD_5GMM :: u8 where "EPD_5GMM = 0x7e"

definition ciphered :: "u8 \<Rightarrow> bool" where
  "ciphered sht = (sht = INTEGRITY_CIPHERED \<or> sht = INTEGRITY_CIPHERED_NEW_CONTEXT)"

record NasSecurityContext =
  knas_int :: bytes
  knas_enc :: bytes
  sec_nia :: u8
  sec_nea :: u8
  ul_count :: u32
  dl_count :: u32

definition security_new :: "bytes \<Rightarrow> bytes \<Rightarrow> u8 \<Rightarrow> u8 \<Rightarrow> NasSecurityContext" where
  "security_new k_int k_enc nia nea = \<lparr>knas_int = k_int, knas_enc = k_enc, sec_nia = nia, sec_nea = nea, ul_count = 0, dl_count = 0\<rparr>"

text \<open>The COUNT of a direction: \<open>&mut self.ul_count\<close> or \<open>&mut self.dl_count\<close>.\<close>

definition dir_count :: "u8 \<Rightarrow> NasSecurityContext \<Rightarrow> u32" where
  "dir_count dir s = (if dir = 0 then ul_count s else dl_count s)"

definition set_count :: "u8 \<Rightarrow> u32 \<Rightarrow> NasSecurityContext \<Rightarrow> NasSecurityContext" where
  "set_count dir c s = (if dir = 0 then s\<lparr>ul_count := c\<rparr> else s\<lparr>dl_count := c\<rparr>)"

definition protect :: "crypto \<Rightarrow> ('m \<Rightarrow> bytes) \<Rightarrow> NasSecurityContext \<Rightarrow> 'm \<Rightarrow> u8 \<Rightarrow> u8 \<Rightarrow> bytes \<times> NasSecurityContext" where
  "protect C enc s msg sht dir =
    (let c = dir_count dir s;
         sn = ucast (c AND 0xff) :: u8;
         payload = (if ciphered sht then nas_cipher C (knas_enc s) c NAS_BEARER dir (enc msg) (sec_nea s) else enc msg);
         mac = nas_mac C (knas_int s) c NAS_BEARER dir (sn # payload) (sec_nia s)
     in ([EPD_5GMM, sht] @ to_be 4 mac @ [sn] @ payload, set_count dir (c + 1) s))"

text \<open>The COUNT congruent to the sequence number that is closest to the expected one, starting from the
  one in the same block of 256.\<close>

definition same_block :: "u32 \<Rightarrow> u8 \<Rightarrow> u32" where
  "same_block expected sn = (expected AND NOT 0xff) OR ucast sn"

definition estimate_count :: "u32 \<Rightarrow> u8 \<Rightarrow> u32" where
  "estimate_count expected sn =
    (let c = same_block expected sn
     in if c + 0x80 < expected then c + 0x100
        else if expected + 0x80 \<le> c \<and> 0x100 \<le> c then c - 0x100 else c)"

definition unprotect :: "crypto \<Rightarrow> (bytes \<Rightarrow> 'm option) \<Rightarrow> NasSecurityContext \<Rightarrow> bytes \<Rightarrow> u8 \<Rightarrow> 'm option \<times> NasSecurityContext" where
  "unprotect C dec s data dir =
    (if length data < 7 then (None, s)
     else (let sht = data ! 1; recv_mac = from_be (subslice 2 6 data); sn = data ! 6; payload = drop 7 data;
               expected = dir_count dir s; c = estimate_count expected sn
           in if c < expected then (None, s)
              else if nas_mac C (knas_int s) c NAS_BEARER dir (sn # payload) (sec_nia s) \<noteq> recv_mac then (None, s)
              else (dec (if ciphered sht then nas_cipher C (knas_enc s) c NAS_BEARER dir payload (sec_nea s) else payload),
                    set_count dir (c + 1) s)))"

subsection \<open>Reconstruction of the COUNT\<close>

lemma dir_count_set [simp]: "dir_count d (set_count d c s) = c" "d' \<noteq> d \<Longrightarrow> d = 0 \<or> d' = 0 \<Longrightarrow> dir_count d' (set_count d c s) = dir_count d' s"
  by (auto simp: dir_count_def set_count_def)

lemma set_count_keys [simp]:
  "knas_int (set_count d c s) = knas_int s" "knas_enc (set_count d c s) = knas_enc s"
  "sec_nia (set_count d c s) = sec_nia s" "sec_nea (set_count d c s) = sec_nea s"
  by (simp_all add: set_count_def)

lemma set_count_twice [simp]: "set_count d c (set_count d c' s) = set_count d c s"
  by (simp add: set_count_def)

text \<open>The block of the expected COUNT with the sequence number in place, as numbers.\<close>

lemma block_value: "unat (same_block e sn) = 256 * (unat e div 256) + unat sn"
proof -
  have m: "(0xff :: u32) = mask 8" by (simp add: mask_eq_exp_minus_1)
  have "same_block e sn = push_bit 8 (drop_bit 8 e) OR take_bit 8 (ucast sn)"
    unfolding m same_block_def by (rule bit_word_eqI) (auto simp: bit_simps dest: bit_imp_le_length)
  also have "\<dots> = push_bit 8 (drop_bit 8 e) + take_bit 8 (ucast sn)" by (rule push_or_low)
  also have "\<dots> = (e div 256) * 256 + ucast sn"
  proof -
    have "take_bit 8 (ucast sn :: u32) = ucast sn" by (rule bit_word_eqI) (auto simp: bit_simps dest: bit_imp_le_length)
    then show ?thesis by (simp add: push_bit_eq_mult drop_bit_eq_div)
  qed
  finally have eq: "same_block e sn = (e div 256) * 256 + ucast sn" .
  have e: "unat e < 2 ^ 32" using unsigned_less[of e, where 'a = nat] by simp
  have s: "unat sn < 256" using unsigned_less[of sn, where 'a = nat] by simp
  have "unat e div 256 < 16777216" using e by (simp add: less_mult_imp_div_less)
  then have b: "256 * (unat e div 256) + unat sn < 2 ^ 32" using s by simp
  have "unat (ucast sn :: u32) = unat sn" by (simp add: unsigned_ucast_eq take_bit_nat_eq_self[OF less_trans[OF s]])
  then have "unat ((e div 256) * 256 + ucast sn :: u32) = (unat e div 256) * 256 + unat sn"
    using b by (simp add: unat_word_ariths unat_div mod_simps mult.commute)
  then show ?thesis by (simp add: eq mult.commute)
qed

text \<open>What the estimate is, away from the end of the 32-bit range.\<close>

lemma estimate_value:
  assumes "unat e + 512 < 2 ^ 32"
  shows "unat (estimate_count e sn) = (let c = 256 * (unat e div 256) + unat sn in
    if c + 128 < unat e then c + 256 else if unat e + 128 \<le> c \<and> 256 \<le> c then c - 256 else c)"
proof -
  let ?w = "same_block e sn" and ?c = "256 * (unat e div 256) + unat sn"
  have s: "unat sn < 256" using unsigned_less[of sn, where 'a = nat] by simp
  have w: "unat ?w = ?c" by (rule block_value)
  have le: "?c < unat e + 256" using s by linarith
  have a: "unat (?w + k) = ?c + unat k" if "unat k \<le> 256" for k
    using that le assms by (simp add: unat_word_ariths w)
  have e: "unat (e + 0x80) = unat e + 128" using assms by (simp add: unat_word_ariths)
  have sub: "unat (?w - 0x100) = ?c - 256" if "256 \<le> ?c"
    using that by (simp add: unat_sub word_le_nat_alt w)
  have n: "unat (0x80 :: u32) = 128" "unat (0x100 :: u32) = 256" by simp_all
  show ?thesis
    unfolding estimate_count_def Let_def word_less_nat_alt word_le_nat_alt
    using a[of "0x80"] a[of "0x100"] e sub w n by (simp split: if_split)
qed

lemma estimate_exact:
  assumes "unat e + 512 < 2 ^ 32" "e \<le> t" "unat t < unat e + 128"
  shows "estimate_count e (ucast (t AND 0xff)) = t"
proof -
  have m: "(0xff :: u32) = mask 8" by (simp add: mask_eq_exp_minus_1)
  have sn: "unat (ucast (t AND 0xff) :: u8) = unat t mod 256"
    by (simp add: m unsigned_ucast_eq take_bit_eq_mod unat_mod flip: take_bit_eq_mask)
  have et: "unat e \<le> unat t" using assms(2) by (simp add: word_le_nat_alt)
  have "unat (estimate_count e (ucast (t AND 0xff))) = unat t"
    unfolding estimate_value[OF assms(1)] sn Let_def
  proof (cases "unat t div 256 = unat e div 256")
    case True
    then have "256 * (unat e div 256) + unat t mod 256 = unat t" by (metis mult_div_mod_eq)
    then show "(if 256 * (unat e div 256) + unat t mod 256 + 128 < unat e then 256 * (unat e div 256) + unat t mod 256 + 256
       else if unat e + 128 \<le> 256 * (unat e div 256) + unat t mod 256 \<and> 256 \<le> 256 * (unat e div 256) + unat t mod 256
       then 256 * (unat e div 256) + unat t mod 256 - 256 else 256 * (unat e div 256) + unat t mod 256) = unat t"
      using et assms(3) by simp
  next
    case False
    moreover have "unat e div 256 \<le> unat t div 256" using et by (rule div_le_mono)
    moreover have "unat t div 256 \<le> unat e div 256 + 1" using assms(3) by linarith
    ultimately have "unat t div 256 = unat e div 256 + 1" by linarith
    then have "256 * (unat e div 256) + unat t mod 256 + 256 = unat t" using mult_div_mod_eq[of 256 "unat t"] by simp
    then show "(if 256 * (unat e div 256) + unat t mod 256 + 128 < unat e then 256 * (unat e div 256) + unat t mod 256 + 256
       else if unat e + 128 \<le> 256 * (unat e div 256) + unat t mod 256 \<and> 256 \<le> 256 * (unat e div 256) + unat t mod 256
       then 256 * (unat e div 256) + unat t mod 256 - 256 else 256 * (unat e div 256) + unat t mod 256) = unat t"
      using et assms(3) by simp
  qed
  then show ?thesis by (simp add: word_unat_eq_iff)
qed

text \<open>An accepted COUNT is at most a block ahead, and a sequence number of one of the last 128 accepted
  COUNTs is estimated as that COUNT.\<close>

lemma estimate_bound: "unat e + 512 < 2 ^ 32 \<Longrightarrow> unat (estimate_count e sn) < unat e + 256"
proof -
  assume "unat e + 512 < 2 ^ 32"
  moreover have "unat sn < 256" using unsigned_less[of sn, where 'a = nat] by simp
  then have "256 * (unat e div 256) + unat sn < unat e + 256" by linarith
  ultimately show ?thesis by (auto simp: estimate_value Let_def)
qed

subsection \<open>One message\<close>

lemma nas_protect_state: "snd (protect C enc s m sht d) = set_count d (dir_count d s + 1) s"
  by (simp add: protect_def Let_def)

lemma unprotect_protect:
  assumes "stream_cipher C" "knas_int r = knas_int s" "knas_enc r = knas_enc s" "sec_nia r = sec_nia s" "sec_nea r = sec_nea s"
    and "unat (dir_count d r) + 512 < 2 ^ 32" "dir_count d r \<le> dir_count d s" "unat (dir_count d s) < unat (dir_count d r) + 128"
  shows "unprotect C dec r (fst (protect C enc s m sht d)) d = (dec (enc m), set_count d (dir_count d s + 1) r)"
proof -
  let ?c = "dir_count d s" and ?r = "dir_count d r"
  define p where "p = (if ciphered sht then nas_cipher C (knas_enc s) ?c NAS_BEARER d (enc m) (sec_nea s) else enc m)"
  define mac where "mac = nas_mac C (knas_int s) ?c NAS_BEARER d (ucast (?c AND 0xff) # p) (sec_nia s)"
  have pdu: "fst (protect C enc s m sht d) = EPD_5GMM # sht # to_be 4 mac @ ucast (?c AND 0xff) # p"
    by (simp add: protect_def Let_def p_def mac_def)
  have e: "estimate_count ?r (ucast (?c AND 0xff)) = ?c" by (rule estimate_exact[OF assms(6-8)])
  have clear: "(if ciphered sht then nas_cipher C (knas_enc r) ?c NAS_BEARER d p (sec_nea r) else p) = enc m"
    using assms(1,3,5) by (simp add: p_def stream_cipher_def)
  let ?pdu = "EPD_5GMM # sht # to_be 4 mac @ ucast (?c AND 0xff) # p"
  have f: "?pdu ! 1 = sht" "from_be (subslice 2 6 ?pdu) = mac" "?pdu ! 6 = ucast (?c AND 0xff)" "drop 7 ?pdu = p" "\<not> length ?pdu < 7"
    by (simp_all add: subslice_def nth_append from_be_to_be nth_Cons')
  show ?thesis unfolding pdu unprotect_def Let_def f e clear using f(5) assms(2,4,7)
    by (simp add: mac_def[symmetric] leD flip: mac_def)
qed

text \<open>An accepted message: its COUNT is not behind the expected one, at most a block ahead, and the
  MAC verifies under it.\<close>

definition verifies :: "crypto \<Rightarrow> NasSecurityContext \<Rightarrow> u8 \<Rightarrow> u32 \<Rightarrow> bytes \<Rightarrow> bool" where
  "verifies C s d c pdu = (nas_mac C (knas_int s) c NAS_BEARER d (drop 6 pdu) (sec_nia s) = from_be (subslice 2 6 pdu))"

lemma unprotect_cases:
  obtains (refused) "unprotect C dec s pdu d = (None, s)"
  | (accepted) c where "c = estimate_count (dir_count d s) (pdu ! 6)" "dir_count d s \<le> c" "verifies C s d c pdu" "7 \<le> length pdu"
      "snd (unprotect C dec s pdu d) = set_count d (c + 1) s"
proof (cases "unprotect C dec s pdu d = (None, s)")
  case False
  let ?c = "estimate_count (dir_count d s) (pdu ! 6)"
  have n: "7 \<le> length pdu" "\<not> ?c < dir_count d s"
      "nas_mac C (knas_int s) ?c NAS_BEARER d (pdu ! 6 # drop 7 pdu) (sec_nia s) = from_be (subslice 2 6 pdu)"
    using False by (auto simp: unprotect_def Let_def split: if_splits)
  have "pdu ! 6 # drop 7 pdu = drop 6 pdu" using n(1) by (simp add: Cons_nth_drop_Suc[of 6 pdu, simplified])
  then show ?thesis using n that(2)[of ?c]
    by (simp add: verifies_def unprotect_def Let_def not_less)
qed

subsection \<open>Any sequence of messages\<close>

text \<open>What a receiver accepts of the octets that reach it, whoever sent them: the COUNT and the message.\<close>

definition received :: "crypto \<Rightarrow> (bytes \<Rightarrow> 'm option) \<Rightarrow> u8 \<Rightarrow> NasSecurityContext \<Rightarrow> bytes list \<Rightarrow> NasSecurityContext" where
  "received C dec d = foldl (\<lambda>s p. snd (unprotect C dec s p d))"

fun accepted_run :: "crypto \<Rightarrow> (bytes \<Rightarrow> 'm option) \<Rightarrow> u8 \<Rightarrow> NasSecurityContext \<Rightarrow> bytes list \<Rightarrow> (u32 \<times> bytes) list" where
  "accepted_run C dec d s [] = []"
| "accepted_run C dec d s (p # ps) = (let s' = snd (unprotect C dec s p d) in
     (if s' \<noteq> s then [(dir_count d s' - 1, p)] else []) @ accepted_run C dec d s' ps)"

lemma unat_next: "unat c + 512 < 2 ^ 32 \<Longrightarrow> unat (c + 1) = unat c + 1" for c :: u32
  by (simp add: unat_word_ariths)

lemma estimate_sn:
  assumes "unat e + 512 < 2 ^ 32"
  shows "ucast (estimate_count e sn AND 0xff) = sn"
proof -
  have m: "(0xff :: u32) = mask 8" by (simp add: mask_eq_exp_minus_1)
  have s: "unat sn < 256" using unsigned_less[of sn, where 'a = nat] by simp
  have "unat (estimate_count e sn) mod 256 = unat sn"
  proof -
    have "(256 * q + unat sn - 256) mod 256 = unat sn" if "256 \<le> 256 * q + unat sn" for q
      using that s by (cases q) auto
    then show ?thesis using s by (simp add: estimate_value[OF assms] Let_def)
  qed
  then have "unat (ucast (estimate_count e sn AND 0xff) :: u8) = unat sn"
    by (simp add: m unsigned_ucast_eq take_bit_eq_mod unat_mod flip: take_bit_eq_mask)
  then show ?thesis by (simp add: word_unat_eq_iff)
qed

lemma estimate_behind:
  assumes "unat e + 512 < 2 ^ 32" "c < e" "unat e \<le> unat c + 128"
  shows "estimate_count e (ucast (c AND 0xff)) = c"
proof -
  have m: "(0xff :: u32) = mask 8" by (simp add: mask_eq_exp_minus_1)
  have sn: "unat (ucast (c AND 0xff) :: u8) = unat c mod 256"
    by (simp add: m unsigned_ucast_eq take_bit_eq_mod unat_mod flip: take_bit_eq_mask)
  have ce: "unat c < unat e" using assms(2) by (simp add: word_less_nat_alt)
  let ?b = "256 * (unat e div 256) + unat c mod 256"
  have "?b = unat c \<or> ?b = unat c + 256"
  proof -
    have "unat c div 256 \<le> unat e div 256" using ce by (simp add: div_le_mono)
    moreover have "unat e div 256 \<le> unat c div 256 + 1" using assms(3) by linarith
    ultimately have "unat e div 256 = unat c div 256 \<or> unat e div 256 = unat c div 256 + 1" by linarith
    then show ?thesis using mult_div_mod_eq[of 256 "unat c"] by auto
  qed
  then have "unat (estimate_count e (ucast (c AND 0xff))) = unat c"
    using ce assms(3) by (auto simp: estimate_value[OF assms(1)] sn Let_def)
  then show ?thesis by (simp add: word_unat_eq_iff)
qed

lemma verifies_set_count [simp]: "verifies C (set_count d c s) d c' p = verifies C s d c' p"
  by (simp add: verifies_def)

lemma accepted_counts:
  assumes "unat (dir_count d s) + 256 * length ps + 512 < 2 ^ 32"
  shows "sorted_wrt (<) (map fst (accepted_run C dec d s ps))
    \<and> (\<forall>(c, p) \<in> set (accepted_run C dec d s ps). dir_count d s \<le> c \<and> c < dir_count d (received C dec d s ps)
        \<and> ucast (c AND 0xff) = p ! 6 \<and> 7 \<le> length p \<and> verifies C s d c p)
    \<and> dir_count d s \<le> dir_count d (received C dec d s ps)
    \<and> unat (dir_count d (received C dec d s ps)) \<le> unat (dir_count d s) + 256 * length ps"
  using assms
proof (induction ps arbitrary: s)
  case (Cons p ps)
  show ?case
  proof (cases rule: unprotect_cases[of C dec s p d])
    case refused
    then show ?thesis using Cons.IH[of s] Cons.prems by (auto simp: received_def)
  next
    case (accepted c)
    have e: "unat (dir_count d s) + 512 < 2 ^ 32" using Cons.prems by simp
    have c: "unat c < unat (dir_count d s) + 256" "ucast (c AND 0xff) = p ! 6"
      using estimate_bound[OF e] estimate_sn[OF e] accepted(1) by auto
    have n: "unat (c + 1) = unat c + 1" using c(1) Cons.prems by (intro unat_next) simp
    let ?s = "set_count d (c + 1) s"
    have sc: "dir_count d s \<le> c" using accepted(2) .
    have ih: "unat (dir_count d ?s) + 256 * length ps + 512 < 2 ^ 32" using n c(1) Cons.prems by simp
    note IH = Cons.IH[OF ih]
    have ch: "?s \<noteq> s"
    proof
      assume "?s = s"
      then have "dir_count d s = c + 1" by (metis dir_count_set(1))
      with sc n show False by (simp add: word_le_nat_alt)
    qed
    have run: "accepted_run C dec d s (p # ps) = (c, p) # accepted_run C dec d ?s ps"
        "received C dec d s (p # ps) = received C dec d ?s ps"
      using accepted(5) ch by (simp_all add: received_def)
    have lt: "c < c'" "dir_count d s \<le> c'" if "c + 1 \<le> c'" for c'
      using that n sc by (auto simp: word_le_nat_alt word_less_nat_alt)
    show ?thesis unfolding run using IH c sc accepted(3,4) lt n
      by (auto simp: word_le_nat_alt[of "c + 1"])
  qed
qed (simp add: received_def)

text \<open>C21: replay protection of NAS. Whatever octets reach a receiver, from the peer or anyone else,
  the messages it accepts have strictly increasing COUNTs, each carries the MAC of its own COUNT and the low
  octet of that COUNT; and repeating any accepted message is refused, without looking at its MAC, as long as the
  receiver has not moved more than 128 COUNTs past it.\<close>

theorem nas_replay_protection:
  fixes C dec d s ps
  assumes "unat (dir_count d s) + 256 * length ps + 512 < 2 ^ 32"
  defines "A \<equiv> accepted_run C dec d s ps" and "s' \<equiv> received C dec d s ps"
  shows "sorted_wrt (<) (map fst A) \<and> (\<forall>(c, p) \<in> set A. dir_count d s \<le> c \<and> ucast (c AND 0xff) = p ! 6 \<and> verifies C s d c p
    \<and> (unat (dir_count d s') \<le> unat c + 128 \<longrightarrow> unprotect C dec s' p d = (None, s')))"
proof -
  note all = accepted_counts[OF assms(1), of C dec]
  have e: "unat (dir_count d s') + 512 < 2 ^ 32" using all assms(1) by (simp add: s'_def)
  have "unprotect C dec s' p d = (None, s')" if m: "(c, p) \<in> set A" "unat (dir_count d s') \<le> unat c + 128" for c p
  proof -
    have "c < dir_count d s'" "ucast (c AND 0xff) = p ! 6" using all m(1) by (auto simp: A_def s'_def)
    then have "estimate_count (dir_count d s') (p ! 6) = c" using estimate_behind[OF e _ m(2)] by metis
    then show ?thesis using \<open>c < dir_count d s'\<close> by (simp add: unprotect_def Let_def)
  qed
  with all show ?thesis by (auto simp: A_def s'_def)
qed

text \<open>A transmission over a link that loses messages: for each message its security header type and whether it
  arrives.\<close>

fun nas_link :: "crypto \<Rightarrow> ('m \<Rightarrow> bytes) \<Rightarrow> (bytes \<Rightarrow> 'm option) \<Rightarrow> u8 \<Rightarrow> NasSecurityContext \<Rightarrow> NasSecurityContext
    \<Rightarrow> ('m \<times> u8 \<times> bool) list \<Rightarrow> 'm option list" where
  "nas_link C enc dec d s r [] = []"
| "nas_link C enc dec d s r ((m, sht, arrives) # rest) = (case protect C enc s m sht d of (pdu, s') \<Rightarrow>
     if arrives then (case unprotect C dec r pdu d of (x, r') \<Rightarrow> x # nas_link C enc dec d s' r' rest)
     else nas_link C enc dec d s' r rest)"

fun nas_losses_below :: "nat \<Rightarrow> nat \<Rightarrow> ('m \<times> u8 \<times> bool) list \<Rightarrow> bool" where
  "nas_losses_below w k [] = True"
| "nas_losses_below w k ((m, sht, arrives) # rest) =
     (if arrives then k < w \<and> nas_losses_below w 0 rest else nas_losses_below w (k + 1) rest)"

definition same_keys :: "NasSecurityContext \<Rightarrow> NasSecurityContext \<Rightarrow> bool" where
  "same_keys r s = (knas_int r = knas_int s \<and> knas_enc r = knas_enc s \<and> sec_nia r = sec_nia s \<and> sec_nea r = sec_nea s)"

lemma same_keys_set [simp]: "same_keys (set_count d c r) s = same_keys r s"
    "same_keys r (set_count d' c' s) = same_keys r s"
  by (simp_all add: same_keys_def)

lemma nas_link_delivers:
  assumes "stream_cipher C" "same_keys r s" "nas_losses_below 128 k xs"
    and "unat (dir_count d s) = unat (dir_count d r) + k" "unat (dir_count d s) + length xs + 512 < 2 ^ 32"
  shows "nas_link C enc dec d s r xs = map (\<lambda>(m, sht, a). dec (enc m)) (filter (\<lambda>(m, sht, a). a) xs)"
  using assms
proof (induction xs arbitrary: s r k)
  case (Cons x xs)
  obtain m sht a where x: "x = (m, sht, a)" by (metis prod_cases3)
  let ?c = "dir_count d s"
  have n: "unat (?c + 1) = unat ?c + 1" using Cons.prems(5) by (intro unat_next) simp
  obtain pdu where p: "protect C enc s m sht d = (pdu, set_count d (?c + 1) s)"
    using nas_protect_state[of C enc s m sht d] by (metis prod.collapse)
  show ?case
  proof (cases a)
    case True
    then have "k < 128" "nas_losses_below 128 0 xs" using Cons.prems(3) x by auto
    moreover have "unprotect C dec r pdu d = (dec (enc m), set_count d (?c + 1) r)"
      using unprotect_protect[of C r s d dec enc m sht] Cons.prems p \<open>k < 128\<close> by (simp add: same_keys_def word_le_nat_alt)
    ultimately show ?thesis using Cons.IH[of "set_count d (?c + 1) r" "set_count d (?c + 1) s" 0] Cons.prems x p True n by simp
  next
    case False
    then show ?thesis using Cons.IH[of r "set_count d (?c + 1) s" "k + 1"] Cons.prems x p n by simp
  qed
qed simp

text \<open>C22: delivery of NAS messages. Over a link that loses fewer than 128 messages in a row, the peer that
  shares the keys delivers exactly the messages that arrived, in order and unaltered, ciphered or not,
  also across the boundaries of the 256-message blocks.\<close>

theorem nas_delivery:
  assumes "stream_cipher C" "same_keys r s" "dir_count d r = dir_count d s" "nas_losses_below 128 0 xs"
    and "unat (dir_count d s) + length xs + 512 < 2 ^ 32" "\<forall>(m, sht, a) \<in> set xs. dec (enc m) = Some m"
  shows "nas_link C enc dec d s r xs = map (\<lambda>(m, sht, a). Some m) (filter (\<lambda>(m, sht, a). a) xs)"
  using nas_link_delivers[OF assms(1,2,4), of d enc dec] assms(3,5,6) by (auto cong: map_cong)

subsection \<open>Witnesses\<close>

definition demo_security :: NasSecurityContext where
  "demo_security = (security_new [1] [2] 2 2)\<lparr>ul_count := 250\<rparr>"

definition demo_octets :: bytes where
  "demo_octets = fst (protect demo_crypto id demo_security [9, 9] INTEGRITY_CIPHERED 0)"

theorem nas_replay_protection_witness:
  "map fst (accepted_run demo_crypto Some 0 demo_security [demo_octets]) = [250]
   \<and> unprotect demo_crypto Some (received demo_crypto Some 0 demo_security [demo_octets]) demo_octets 0
       = (None, received demo_crypto Some 0 demo_security [demo_octets])"
proof -
  have c: "dir_count 0 demo_security = 250" by (simp add: demo_security_def dir_count_def)
  have u: "unprotect demo_crypto Some demo_security demo_octets 0 = (Some [9, 9], set_count 0 251 demo_security)"
    using unprotect_protect[of demo_crypto demo_security demo_security 0 Some id "[9, 9]" INTEGRITY_CIPHERED]
    by (simp add: demo_octets_def c demo_crypto_stream)
  have ne: "set_count 0 251 demo_security \<noteq> demo_security" by (simp add: set_count_def demo_security_def security_new_def)
  have run: "accepted_run demo_crypto Some 0 demo_security [demo_octets] = [(250, demo_octets)]"
      "received demo_crypto Some 0 demo_security [demo_octets] = set_count 0 251 demo_security"
    using u ne by (simp_all add: received_def)
  from nas_replay_protection[of 0 demo_security "[demo_octets]" demo_crypto Some] show ?thesis
    unfolding run by (simp add: c)
qed

theorem nas_delivery_witness:
  "nas_link demo_crypto id Some 1 demo_security demo_security [([1], INTEGRITY, True), ([2], INTEGRITY_CIPHERED, False), ([3], INTEGRITY_CIPHERED, True)]
   = [Some [1], Some [3]]"
  using nas_delivery[of demo_crypto demo_security demo_security 1
      "[([1], INTEGRITY, True), ([2], INTEGRITY_CIPHERED, False), ([3], INTEGRITY_CIPHERED, True)]" Some id]
  by (simp add: demo_crypto_stream same_keys_def dir_count_def demo_security_def security_new_def)

end
