(* ===== verification/Nas_Msg.thy ===== *)
theory Nas_Msg
  imports Nas_Ie
begin

unbundle bit_operations_syntax

section \<open>5GMM messages\<close>

text \<open>
  The mobility-management messages of \<open>crates/nas/src/lib.rs\<close>: the builders the AMF and the UE use and
  the readers of what the other side sent. A message is its header type with the information elements
  the source sets or reads, an element being its value octets. The encoding of messages, mobile identities,
  DNNs, slices and registration types belongs to the NAS library and is the record \<open>nas_lib\<close>.
\<close>

subsection \<open>Messages and the NAS library\<close>

datatype RegistrationType = InitialRegistration | MobilityRegistrationUpdate | PeriodicRegistrationUpdate | OtherRegistration u8

datatype Nas5gmmMessageType =
    TRegistrationRequest | TRegistrationAccept | TRegistrationComplete | TRegistrationReject
  | TDeregistrationRequestFromUe | TDeregistrationAcceptFromUe | TDeregistrationRequestToUe | TDeregistrationAcceptToUe
  | TServiceRequest | TServiceAccept | TServiceReject | TConfigurationUpdateCommand | TConfigurationUpdateComplete
  | TAuthenticationRequest | TAuthenticationResponse | TAuthenticationReject | TAuthenticationFailure
  | TIdentityRequest | TIdentityResponse | TSecurityModeCommand | TSecurityModeComplete | TUlNasTransport | TDlNasTransport | TOther u8

record NasRegistrationRequest =
  fgs_registration_type :: u8
  rr_mobile_identity :: bytes
  ue_security_capability :: "bytes option"
  requested_nssai_ie :: "bytes option"
  uplink_data_status_ie :: "bytes option"
  rr_pdu_session_status :: "bytes option"

record NasRegistrationAccept =
  fgs_registration_result :: bytes
  fg_guti :: "bytes option"
  t3512_value :: "bytes option"
  tai_list :: "bytes option"
  ra_allowed_nssai :: "bytes option"
  ra_rejected_nssai :: "bytes option"
  ra_pdu_session_status :: "bytes option"

record NasRegistrationReject =
  rj_cause :: u8
  rj_rejected_nssai :: "bytes option"
  t3346_value :: "bytes option"

record NasServiceRequest =
  sr_ngksi :: u8
  fg_s_tmsi :: bytes
  sr_pdu_session_status :: "bytes option"

record NasConfigurationUpdateCommand =
  cu_allowed_nssai :: "bytes option"
  configuration_update_indication :: "u8 option"

record NasSecurityModeCommand =
  selected_nas_security_algorithms :: u8
  smc_ngksi :: u8
  replayed_ue_security_capabilities :: bytes

record NasTransport =
  payload_container_type :: u8
  payload_container :: bytes
  tr_pdu_session_id :: "u8 option"
  tr_dnn :: "bytes option"
  tr_s_nssai :: "bytes option"

datatype Nas5gmmMessage =
    RegistrationRequest NasRegistrationRequest
  | RegistrationAccept NasRegistrationAccept
  | RegistrationComplete
  | RegistrationReject NasRegistrationReject
  | DeregistrationRequestFromUe u8 bytes
  | DeregistrationAcceptFromUe
  | DeregistrationRequestToUe u8
  | DeregistrationAcceptToUe
  | ServiceRequest NasServiceRequest
  | ServiceAccept "bytes option"
  | ServiceReject u8
  | ConfigurationUpdateCommand NasConfigurationUpdateCommand
  | ConfigurationUpdateComplete
  | AuthenticationRequest u8 bytes "bytes option" "bytes option"
  | AuthenticationResponse "bytes option"
  | AuthenticationReject
  | AuthenticationFailure u8 "bytes option"
  | IdentityRequest u8
  | IdentityResponse bytes
  | SecurityModeCommand NasSecurityModeCommand
  | SecurityModeComplete
  | UlNasTransport NasTransport
  | DlNasTransport NasTransport
  | OtherGmm bytes

datatype Nas5gsMessage = Gmm Nas5gmmMessageType Nas5gmmMessage | NotGmm bytes

record Guti =
  guti_mcc :: sd3
  guti_mnc :: sd3
  amf_region_id :: u8
  amf_set_id :: u16
  amf_pointer :: u8
  guti_tmsi :: u32

record Suci =
  suci_mcc :: sd3
  suci_mnc :: sd3
  routing_indicator :: bytes
  protection_scheme :: u8
  home_nw_public_key_id :: u8
  scheme_output :: bytes

record nas_lib =
  encode_nas :: "Nas5gsMessage \<Rightarrow> bytes"
  decode_nas :: "bytes \<Rightarrow> Nas5gsMessage option"
  to_tbcd :: "sd3 \<Rightarrow> sd3 \<Rightarrow> sd3"
  from_guti :: "Guti \<Rightarrow> bytes"
  as_guti :: "bytes \<Rightarrow> Guti option"
  as_suci :: "bytes \<Rightarrow> Suci option"
  from_s_tmsi :: "u16 \<Rightarrow> u8 \<Rightarrow> u32 \<Rightarrow> bytes"
  identity_tmsi :: "bytes \<Rightarrow> u32 option"
  identity_type_suci :: u8
  registration_type_parts :: "RegistrationType \<Rightarrow> bool \<Rightarrow> u8 \<Rightarrow> bool \<Rightarrow> u8"
  registration_type_of :: "u8 \<Rightarrow> RegistrationType option"
  dnn_from_string :: "string \<Rightarrow> bytes"
  dnn_as_string :: "bytes \<Rightarrow> string option"
  snssai_from_parts :: "slice \<Rightarrow> bytes"
  snssai_parse :: "bytes \<Rightarrow> slice option"
  ea_byte :: "bytes \<Rightarrow> u8"
  ia_byte :: "bytes \<Rightarrow> u8"

subsection \<open>Identities\<close>

definition decimal_digits :: "bytes \<Rightarrow> string" where
  "decimal_digits ds = map (\<lambda>d. char_of (48 + unat d)) (filter (\<lambda>d. d \<le> 9) ds)"

definition hex_lower :: "bytes \<Rightarrow> string" where
  "hex_lower bs = concat (map (\<lambda>b. [digit_char (unat b div 16), digit_char (unat b mod 16)]) bs)"

definition suci_canonical_string :: "Suci \<Rightarrow> string" where
  "suci_canonical_string s = ''suci-0-'' @ decimal_digits (octets3 (suci_mcc s)) @ ''-'' @ decimal_digits (octets3 (suci_mnc s)) @ ''-''
     @ hex_lower (routing_indicator s) @ ''-'' @ show_radix 10 (unat (protection_scheme s)) @ ''-''
     @ show_radix 10 (unat (home_nw_public_key_id s)) @ ''-'' @ hex_lower (scheme_output s)"

definition suci_to_supi :: "Suci \<Rightarrow> string" where
  "suci_to_supi s = (if protection_scheme s \<noteq> 0 then suci_canonical_string s
     else ''imsi-'' @ decimal_digits (octets3 (suci_mcc s) @ octets3 (suci_mnc s))
        @ decimal_digits (concat (map (\<lambda>b. [b AND 0x0F, drop_bit 4 b]) (scheme_output s))))"

fun msin_octets :: "bytes \<Rightarrow> bytes" where
  "msin_octets [] = []"
| "msin_octets [d] = [push_bit 4 0x0F OR d]"
| "msin_octets (d # e # ds) = (push_bit 4 e OR d) # msin_octets ds"

definition suci_mobile_identity :: "nas_lib \<Rightarrow> string \<Rightarrow> string \<Rightarrow> string \<Rightarrow> bytes" where
  "suci_mobile_identity N mcc mnc msin = 0x01 # octets3 (to_tbcd N (mcc_digits mcc) (mnc_digits mnc)) @ [0x00, 0x00] @ [0x00] @ [0x00]
     @ msin_octets (map (\<lambda>c. of_char c - 48) msin)"

definition guti_identity :: "nas_lib \<Rightarrow> string \<Rightarrow> string \<Rightarrow> u32 \<Rightarrow> bytes" where
  "guti_identity N mcc mnc tmsi = from_guti N \<lparr>guti_mcc = mcc_digits mcc, guti_mnc = mnc_digits mnc, amf_region_id = 0x01,
     amf_set_id = 0x001, amf_pointer = 0x00, guti_tmsi = tmsi\<rparr>"

definition s_tmsi_identity :: "nas_lib \<Rightarrow> u32 \<Rightarrow> bytes" where
  "s_tmsi_identity N tmsi = from_s_tmsi N 0x001 0x00 tmsi"

definition gmm_message_type :: "Nas5gsMessage \<Rightarrow> Nas5gmmMessageType option" where
  "gmm_message_type msg = (case msg of Gmm ty _ \<Rightarrow> Some ty | NotGmm _ \<Rightarrow> None)"

definition identity_request_suci :: "nas_lib \<Rightarrow> bytes" where
  "identity_request_suci N = encode_nas N (Gmm TIdentityRequest (IdentityRequest (identity_type_suci N)))"

definition identity_response_suci :: "nas_lib \<Rightarrow> string \<Rightarrow> string \<Rightarrow> string \<Rightarrow> bytes" where
  "identity_response_suci N mcc mnc msin = encode_nas N (Gmm TIdentityResponse (IdentityResponse (suci_mobile_identity N mcc mnc msin)))"

definition supi_from_identity_response :: "nas_lib \<Rightarrow> Nas5gsMessage \<Rightarrow> string option" where
  "supi_from_identity_response N msg = (case msg of
     Gmm _ (IdentityResponse i) \<Rightarrow> map_option suci_to_supi (as_suci N i) | _ \<Rightarrow> None)"

subsection \<open>Authentication and security mode\<close>

definition authentication_request :: "nas_lib \<Rightarrow> u8 \<Rightarrow> bytes \<Rightarrow> bytes \<Rightarrow> bytes" where
  "authentication_request N ngksi rand autn =
     encode_nas N (Gmm TAuthenticationRequest (AuthenticationRequest ngksi [0x00, 0x00] (Some rand) (Some autn)))"

definition parse_authentication_request :: "nas_lib \<Rightarrow> bytes \<Rightarrow> (bytes \<times> bytes) option" where
  "parse_authentication_request N bs = (case decode_nas N bs of
     Some (Gmm _ (AuthenticationRequest _ _ (Some rand) (Some autn))) \<Rightarrow>
       (if length rand = 16 \<and> length autn = 16 then Some (rand, autn) else None)
   | _ \<Rightarrow> None)"

definition authentication_response :: "nas_lib \<Rightarrow> bytes \<Rightarrow> bytes" where
  "authentication_response N res_star = encode_nas N (Gmm TAuthenticationResponse (AuthenticationResponse (Some res_star)))"

definition res_star_from_authentication_response :: "Nas5gsMessage \<Rightarrow> bytes option" where
  "res_star_from_authentication_response msg = (case msg of Gmm _ (AuthenticationResponse p) \<Rightarrow> p | _ \<Rightarrow> None)"

definition authentication_reject :: "nas_lib \<Rightarrow> bytes" where
  "authentication_reject N = encode_nas N (Gmm TAuthenticationReject AuthenticationReject)"

definition GMM_CAUSE_SYNCH_FAILURE :: u8 where "GMM_CAUSE_SYNCH_FAILURE = 0x15"

definition authentication_failure_synch :: "nas_lib \<Rightarrow> bytes \<Rightarrow> bytes" where
  "authentication_failure_synch N auts = encode_nas N (Gmm TAuthenticationFailure (AuthenticationFailure GMM_CAUSE_SYNCH_FAILURE (Some auts)))"

definition authentication_failure_info :: "Nas5gsMessage \<Rightarrow> (u8 \<times> bytes option) option" where
  "authentication_failure_info msg = (case msg of Gmm _ (AuthenticationFailure cause auts) \<Rightarrow> Some (cause, auts) | _ \<Rightarrow> None)"

definition security_mode_command :: "u8 \<Rightarrow> u8 \<Rightarrow> u8 \<Rightarrow> bytes \<Rightarrow> Nas5gsMessage" where
  "security_mode_command nea nia ngksi cap = Gmm TSecurityModeCommand (SecurityModeCommand
     \<lparr>selected_nas_security_algorithms = push_bit 4 nea OR (nia AND 0x0F), smc_ngksi = ngksi, replayed_ue_security_capabilities = cap\<rparr>)"

definition security_mode_selection :: "Nas5gsMessage \<Rightarrow> (u8 \<times> u8 \<times> bytes) option" where
  "security_mode_selection msg = (case msg of Gmm _ (SecurityModeCommand smc) \<Rightarrow>
       (let algs = selected_nas_security_algorithms smc in
        Some (drop_bit 4 algs, algs AND 0x0F, replayed_ue_security_capabilities smc))
   | _ \<Rightarrow> None)"

definition security_mode_complete :: Nas5gsMessage where
  "security_mode_complete = Gmm TSecurityModeComplete SecurityModeComplete"


subsection \<open>Registration\<close>

definition registration_request_suci_with_nssai :: "nas_lib \<Rightarrow> string \<Rightarrow> string \<Rightarrow> string \<Rightarrow> bytes \<Rightarrow> slice list \<Rightarrow> bytes" where
  "registration_request_suci_with_nssai N mcc mnc msin cap requested = encode_nas N (Gmm TRegistrationRequest (RegistrationRequest
     \<lparr>fgs_registration_type = registration_type_parts N InitialRegistration False 7 False,
      rr_mobile_identity = suci_mobile_identity N mcc mnc msin, ue_security_capability = Some cap,
      requested_nssai_ie = (if requested \<noteq> [] then Some (nssai_value requested) else None),
      uplink_data_status_ie = None, rr_pdu_session_status = None\<rparr>))"

definition registration_request_suci :: "nas_lib \<Rightarrow> string \<Rightarrow> string \<Rightarrow> string \<Rightarrow> bytes \<Rightarrow> bytes" where
  "registration_request_suci N mcc mnc msin cap = registration_request_suci_with_nssai N mcc mnc msin cap []"

definition registration_request_with_guti :: "nas_lib \<Rightarrow> string \<Rightarrow> string \<Rightarrow> u32 \<Rightarrow> bytes \<Rightarrow> bytes" where
  "registration_request_with_guti N mcc mnc tmsi cap = encode_nas N (Gmm TRegistrationRequest (RegistrationRequest
     \<lparr>fgs_registration_type = registration_type_parts N InitialRegistration False 7 False,
      rr_mobile_identity = guti_identity N mcc mnc tmsi, ue_security_capability = Some cap,
      requested_nssai_ie = None, uplink_data_status_ie = None, rr_pdu_session_status = None\<rparr>))"

definition registration_request_of_type :: "nas_lib \<Rightarrow> RegistrationType \<Rightarrow> string \<Rightarrow> string \<Rightarrow> u32 \<Rightarrow> u8 list \<Rightarrow> Nas5gsMessage" where
  "registration_request_of_type N ty mcc mnc tmsi psis = Gmm TRegistrationRequest (RegistrationRequest
     \<lparr>fgs_registration_type = registration_type_parts N ty False 0 False,
      rr_mobile_identity = guti_identity N mcc mnc tmsi, ue_security_capability = None, requested_nssai_ie = None,
      uplink_data_status_ie = (if psis \<noteq> [] then Some (psi_bitmap_value psis) else None), rr_pdu_session_status = None\<rparr>)"

definition registration_request_mobility :: "nas_lib \<Rightarrow> string \<Rightarrow> string \<Rightarrow> u32 \<Rightarrow> Nas5gsMessage" where
  "registration_request_mobility N mcc mnc tmsi = registration_request_of_type N MobilityRegistrationUpdate mcc mnc tmsi []"

definition registration_request_periodic :: "nas_lib \<Rightarrow> string \<Rightarrow> string \<Rightarrow> u32 \<Rightarrow> Nas5gsMessage" where
  "registration_request_periodic N mcc mnc tmsi = registration_request_of_type N PeriodicRegistrationUpdate mcc mnc tmsi []"

definition registration_request_with_uplink_data :: "nas_lib \<Rightarrow> RegistrationType \<Rightarrow> string \<Rightarrow> string \<Rightarrow> u32 \<Rightarrow> u8 list \<Rightarrow> Nas5gsMessage" where
  "registration_request_with_uplink_data N ty mcc mnc tmsi psis = registration_request_of_type N ty mcc mnc tmsi psis"

definition requested_nssai_from_registration_request :: "Nas5gsMessage \<Rightarrow> slice list" where
  "requested_nssai_from_registration_request msg = (case msg of Gmm _ (RegistrationRequest reg) \<Rightarrow>
       (case requested_nssai_ie reg of Some v \<Rightarrow> parse_nssai_value v | None \<Rightarrow> []) | _ \<Rightarrow> [])"

definition guti_tmsi_from_registration_request :: "nas_lib \<Rightarrow> Nas5gsMessage \<Rightarrow> u32 option" where
  "guti_tmsi_from_registration_request N msg = (case msg of Gmm _ (RegistrationRequest reg) \<Rightarrow>
       map_option guti_tmsi (as_guti N (rr_mobile_identity reg)) | _ \<Rightarrow> None)"

definition uplink_data_status_from_registration_request :: "Nas5gsMessage \<Rightarrow> u8 list" where
  "uplink_data_status_from_registration_request msg = (case msg of Gmm _ (RegistrationRequest reg) \<Rightarrow>
       (case uplink_data_status_ie reg of Some v \<Rightarrow> psis_from_psi_bitmap v | None \<Rightarrow> []) | _ \<Rightarrow> [])"

definition pdu_session_status_from_request :: "Nas5gsMessage \<Rightarrow> u8 list option" where
  "pdu_session_status_from_request msg = (case msg of
     Gmm _ (ServiceRequest req) \<Rightarrow> map_option psis_from_psi_bitmap (sr_pdu_session_status req)
   | Gmm _ (RegistrationRequest reg) \<Rightarrow> map_option psis_from_psi_bitmap (rr_pdu_session_status reg)
   | _ \<Rightarrow> None)"

definition pdu_session_status_from_accept :: "Nas5gsMessage \<Rightarrow> u8 list option" where
  "pdu_session_status_from_accept msg = (case msg of
     Gmm _ (ServiceAccept st) \<Rightarrow> map_option psis_from_psi_bitmap st
   | Gmm _ (RegistrationAccept acc) \<Rightarrow> map_option psis_from_psi_bitmap (ra_pdu_session_status acc)
   | _ \<Rightarrow> None)"

definition registration_type_from_request :: "nas_lib \<Rightarrow> Nas5gsMessage \<Rightarrow> RegistrationType option" where
  "registration_type_from_request N msg = (case msg of Gmm _ (RegistrationRequest reg) \<Rightarrow>
       registration_type_of N (fgs_registration_type reg) | _ \<Rightarrow> None)"

definition registration_accept :: "nas_lib \<Rightarrow> string \<Rightarrow> string \<Rightarrow> u32 \<Rightarrow> slice list \<Rightarrow> slice list \<Rightarrow> u32 \<Rightarrow> tac3 list \<Rightarrow> u8 list option \<Rightarrow> Nas5gsMessage" where
  "registration_accept N mcc mnc tmsi allowed rejected t3512_secs area active = Gmm TRegistrationAccept (RegistrationAccept
     \<lparr>fgs_registration_result = [0x01], fg_guti = Some (guti_identity N mcc mnc tmsi), t3512_value = Some [timer3_from_secs t3512_secs],
      tai_list = (if area \<noteq> [] then Some (tai_list_value (to_tbcd N) mcc mnc area) else None),
      ra_allowed_nssai = (if allowed \<noteq> [] then Some (nssai_value allowed) else None),
      ra_rejected_nssai = (if rejected \<noteq> [] then Some (rejected_nssai_value rejected NOT_AVAILABLE_IN_PLMN) else None),
      ra_pdu_session_status = map_option psi_bitmap_value active\<rparr>)"

definition guti_tmsi_from_registration_accept :: "nas_lib \<Rightarrow> Nas5gsMessage \<Rightarrow> u32 option" where
  "guti_tmsi_from_registration_accept N msg = (case msg of Gmm _ (RegistrationAccept acc) \<Rightarrow>
       map_option guti_tmsi (Option.bind (fg_guti acc) (as_guti N)) | _ \<Rightarrow> None)"

definition registration_area_from_registration_accept :: "Nas5gsMessage \<Rightarrow> tac3 list option" where
  "registration_area_from_registration_accept msg = (case msg of Gmm _ (RegistrationAccept acc) \<Rightarrow>
       Option.bind (tai_list acc) registration_area_of | _ \<Rightarrow> None)"

definition allowed_nssai_from_registration_accept :: "Nas5gsMessage \<Rightarrow> slice list" where
  "allowed_nssai_from_registration_accept msg = (case msg of Gmm _ (RegistrationAccept acc) \<Rightarrow>
       (case ra_allowed_nssai acc of Some v \<Rightarrow> parse_nssai_value v | None \<Rightarrow> []) | _ \<Rightarrow> [])"

definition t3512_octet_from_registration_accept :: "Nas5gsMessage \<Rightarrow> u8 option" where
  "t3512_octet_from_registration_accept msg = (case msg of Gmm _ (RegistrationAccept acc) \<Rightarrow>
       (case t3512_value acc of Some (t # _) \<Rightarrow> Some t | _ \<Rightarrow> None) | _ \<Rightarrow> None)"

definition rejected_nssai_from_registration_accept :: "Nas5gsMessage \<Rightarrow> (slice \<times> u8) list" where
  "rejected_nssai_from_registration_accept msg = (case msg of Gmm _ (RegistrationAccept acc) \<Rightarrow>
       (case ra_rejected_nssai acc of Some v \<Rightarrow> parse_rejected_nssai_value v | None \<Rightarrow> []) | _ \<Rightarrow> [])"

definition registration_reject :: "u8 \<Rightarrow> slice list \<Rightarrow> u8 option \<Rightarrow> Nas5gsMessage" where
  "registration_reject cause rejected backoff = Gmm TRegistrationReject (RegistrationReject
     \<lparr>rj_cause = cause, rj_rejected_nssai = (if rejected \<noteq> [] then Some (rejected_nssai_value rejected NOT_AVAILABLE_IN_PLMN) else None),
      t3346_value = map_option (\<lambda>t. [t]) backoff\<rparr>)"

definition parse_registration_reject :: "Nas5gsMessage \<Rightarrow> (u8 \<times> (slice \<times> u8) list \<times> u8 option) option" where
  "parse_registration_reject msg = (case msg of Gmm _ (RegistrationReject rej) \<Rightarrow>
       Some (rj_cause rej, (case rj_rejected_nssai rej of Some v \<Rightarrow> parse_rejected_nssai_value v | None \<Rightarrow> []),
         (case t3346_value rej of Some (t # _) \<Rightarrow> Some t | _ \<Rightarrow> None)) | _ \<Rightarrow> None)"

definition registration_complete :: Nas5gsMessage where
  "registration_complete = Gmm TRegistrationComplete RegistrationComplete"

definition UE_IDENTITY_CANNOT_BE_DERIVED :: u8 where "UE_IDENTITY_CANNOT_BE_DERIVED = 9"
definition IMPLICITLY_DEREGISTERED :: u8 where "IMPLICITLY_DEREGISTERED = 10"
definition NO_NETWORK_SLICES_AVAILABLE :: u8 where "NO_NETWORK_SLICES_AVAILABLE = 62"

subsection \<open>Deregistration, service, configuration update and transport\<close>

definition deregistration_request_from_ue :: "nas_lib \<Rightarrow> u8 \<Rightarrow> string \<Rightarrow> string \<Rightarrow> u32 \<Rightarrow> Nas5gsMessage" where
  "deregistration_request_from_ue N ty mcc mnc tmsi = Gmm TDeregistrationRequestFromUe (DeregistrationRequestFromUe ty (guti_identity N mcc mnc tmsi))"

definition deregistration_is_switch_off :: "Nas5gsMessage \<Rightarrow> bool option" where
  "deregistration_is_switch_off msg = (case msg of Gmm _ (DeregistrationRequestFromUe ty _) \<Rightarrow> Some (ty AND 0x08 \<noteq> 0) | _ \<Rightarrow> None)"

definition deregistration_accept :: Nas5gsMessage where
  "deregistration_accept = Gmm TDeregistrationAcceptFromUe DeregistrationAcceptFromUe"

definition deregistration_request_to_ue :: "u8 \<Rightarrow> Nas5gsMessage" where
  "deregistration_request_to_ue ty = Gmm TDeregistrationRequestToUe (DeregistrationRequestToUe ty)"

definition deregistration_accept_to_ue :: Nas5gsMessage where
  "deregistration_accept_to_ue = Gmm TDeregistrationAcceptToUe DeregistrationAcceptToUe"

definition service_request_ie :: "nas_lib \<Rightarrow> u8 \<Rightarrow> u8 \<Rightarrow> u32 \<Rightarrow> bytes option \<Rightarrow> Nas5gsMessage" where
  "service_request_ie N service_type ngksi tmsi st = Gmm TServiceRequest (ServiceRequest
     \<lparr>sr_ngksi = push_bit 4 (service_type AND 0x07) OR (ngksi AND 0x07), fg_s_tmsi = s_tmsi_identity N tmsi, sr_pdu_session_status = st\<rparr>)"

definition service_request :: "nas_lib \<Rightarrow> u8 \<Rightarrow> u8 \<Rightarrow> u32 \<Rightarrow> bytes" where
  "service_request N service_type ngksi tmsi = encode_nas N (service_request_ie N service_type ngksi tmsi None)"

definition service_request_with_pdu_status :: "nas_lib \<Rightarrow> u8 \<Rightarrow> u8 \<Rightarrow> u32 \<Rightarrow> u8 list \<Rightarrow> bytes" where
  "service_request_with_pdu_status N service_type ngksi tmsi psis =
     encode_nas N (service_request_ie N service_type ngksi tmsi (Some (psi_bitmap_value psis)))"

definition service_request_info :: "nas_lib \<Rightarrow> Nas5gsMessage \<Rightarrow> (u8 \<times> u32) option" where
  "service_request_info N msg = (case msg of Gmm _ (ServiceRequest req) \<Rightarrow>
       map_option (\<lambda>tmsi. (drop_bit 4 (sr_ngksi req) AND 0x07, tmsi)) (identity_tmsi N (fg_s_tmsi req)) | _ \<Rightarrow> None)"

definition service_accept :: "u8 list option \<Rightarrow> Nas5gsMessage" where
  "service_accept active = Gmm TServiceAccept (ServiceAccept (map_option psi_bitmap_value active))"

definition service_reject :: "u8 \<Rightarrow> Nas5gsMessage" where
  "service_reject cause = Gmm TServiceReject (ServiceReject cause)"

definition CUI_REGISTRATION_REQUESTED :: u8 where "CUI_REGISTRATION_REQUESTED = 0x01"
definition CUI_ACKNOWLEDGEMENT_REQUESTED :: u8 where "CUI_ACKNOWLEDGEMENT_REQUESTED = 0x02"

definition configuration_update_command :: Nas5gsMessage where
  "configuration_update_command = Gmm TConfigurationUpdateCommand (ConfigurationUpdateCommand
     \<lparr>cu_allowed_nssai = None, configuration_update_indication = None\<rparr>)"

definition configuration_update_command_with_nssai :: "slice list \<Rightarrow> bool \<Rightarrow> bool \<Rightarrow> Nas5gsMessage" where
  "configuration_update_command_with_nssai allowed registration_requested acknowledgement_requested =
    (let indication = (if registration_requested then CUI_REGISTRATION_REQUESTED else 0)
                   OR (if acknowledgement_requested then CUI_ACKNOWLEDGEMENT_REQUESTED else 0)
     in Gmm TConfigurationUpdateCommand (ConfigurationUpdateCommand
          \<lparr>cu_allowed_nssai = (if allowed \<noteq> [] then Some (nssai_value allowed) else None),
           configuration_update_indication = (if indication \<noteq> 0 then Some indication else None)\<rparr>))"

definition allowed_nssai_from_configuration_update_command :: "Nas5gsMessage \<Rightarrow> slice list" where
  "allowed_nssai_from_configuration_update_command msg = (case msg of Gmm _ (ConfigurationUpdateCommand cuc) \<Rightarrow>
       (case cu_allowed_nssai cuc of Some v \<Rightarrow> parse_nssai_value v | None \<Rightarrow> []) | _ \<Rightarrow> [])"

definition indication_bit :: "u8 \<Rightarrow> Nas5gsMessage \<Rightarrow> bool" where
  "indication_bit b msg = (case msg of Gmm _ (ConfigurationUpdateCommand cuc) \<Rightarrow>
       (case configuration_update_indication cuc of Some i \<Rightarrow> i AND b \<noteq> 0 | None \<Rightarrow> False) | _ \<Rightarrow> False)"

definition configuration_update_registration_requested :: "Nas5gsMessage \<Rightarrow> bool" where
  "configuration_update_registration_requested msg = indication_bit CUI_REGISTRATION_REQUESTED msg"

definition configuration_update_acknowledgement_requested :: "Nas5gsMessage \<Rightarrow> bool" where
  "configuration_update_acknowledgement_requested msg = indication_bit CUI_ACKNOWLEDGEMENT_REQUESTED msg"

definition configuration_update_complete :: Nas5gsMessage where
  "configuration_update_complete = Gmm TConfigurationUpdateComplete ConfigurationUpdateComplete"

definition ul_nas_transport_sm :: "nas_lib \<Rightarrow> u8 \<Rightarrow> bytes \<Rightarrow> string option \<Rightarrow> slice option \<Rightarrow> bytes" where
  "ul_nas_transport_sm N psi container dnn snssai = encode_nas N (Gmm TUlNasTransport (UlNasTransport
     \<lparr>payload_container_type = 0x01, payload_container = container, tr_pdu_session_id = Some psi,
      tr_dnn = map_option (dnn_from_string N) dnn, tr_s_nssai = map_option (snssai_from_parts N) snssai\<rparr>))"

definition dl_nas_transport_sm :: "u8 \<Rightarrow> bytes \<Rightarrow> Nas5gsMessage" where
  "dl_nas_transport_sm psi container = Gmm TDlNasTransport (DlNasTransport
     \<lparr>payload_container_type = 0x01, payload_container = container, tr_pdu_session_id = Some psi, tr_dnn = None, tr_s_nssai = None\<rparr>)"

definition sm_container_from_ul_nas_transport :: "Nas5gsMessage \<Rightarrow> (u8 \<times> bytes) option" where
  "sm_container_from_ul_nas_transport msg = (case msg of Gmm _ (UlNasTransport t) \<Rightarrow>
       map_option (\<lambda>psi. (psi, payload_container t)) (tr_pdu_session_id t) | _ \<Rightarrow> None)"

definition sm_container_from_dl_nas_transport :: "Nas5gsMessage \<Rightarrow> (u8 \<times> bytes) option" where
  "sm_container_from_dl_nas_transport msg = (case msg of Gmm _ (DlNasTransport t) \<Rightarrow>
       map_option (\<lambda>psi. (psi, payload_container t)) (tr_pdu_session_id t) | _ \<Rightarrow> None)"

definition requested_dnn_from_ul_nas_transport :: "nas_lib \<Rightarrow> Nas5gsMessage \<Rightarrow> string option" where
  "requested_dnn_from_ul_nas_transport N msg = (case msg of Gmm _ (UlNasTransport t) \<Rightarrow>
       Option.bind (tr_dnn t) (dnn_as_string N) | _ \<Rightarrow> None)"

definition requested_snssai_from_ul_nas_transport :: "nas_lib \<Rightarrow> Nas5gsMessage \<Rightarrow> slice option" where
  "requested_snssai_from_ul_nas_transport N msg = (case msg of Gmm _ (UlNasTransport t) \<Rightarrow>
       Option.bind (tr_s_nssai t) (snssai_parse N) | _ \<Rightarrow> None)"


subsection \<open>Each side reads what the other wrote\<close>

definition is_decimal :: "string \<Rightarrow> bool" where
  "is_decimal s \<longleftrightarrow> list_all (\<lambda>c. c \<in> set ''0123456789'') s"

definition digit_octets :: "string \<Rightarrow> bytes" where
  "digit_octets s = map (\<lambda>c. of_char c - 48) s"

lemma digit_octet: "c \<in> set ''0123456789'' \<Longrightarrow>
    (of_char c - 48 :: u8) \<le> 9 \<and> char_of (48 + unat (of_char c - 48 :: u8)) = c \<and> of_char c - 48 \<noteq> (0x0F :: u8)"
  by (auto simp: char_of_def bit_0)

lemma decimal_digits_append: "decimal_digits (xs @ ys) = decimal_digits xs @ decimal_digits ys"
  by (simp add: decimal_digits_def)

lemma decimal_digits_octets: "is_decimal s \<Longrightarrow> decimal_digits (digit_octets s) = s"
  using digit_octet by (induction s) (auto simp: is_decimal_def decimal_digits_def digit_octets_def simp del: list.set)

lemma nibbles:
  assumes "d \<le> 9" "e \<le> 15"
  shows "(push_bit 4 e OR d) AND 0x0F = (d :: u8) \<and> drop_bit 4 (push_bit 4 e OR d) = e"
proof -
  have "(push_bit 4 (of_nat i :: u8) OR of_nat j) AND 0x0F = (of_nat j :: u8) \<and> drop_bit 4 (push_bit 4 (of_nat i) OR of_nat j) = (of_nat i :: u8)"
    if "i \<in> set [0..<16]" "j \<in> set [0..<10]" for i j
    using that by (simp add: upt_rec) (elim disjE; simp)
  from this[of "unat e" "unat d"] show ?thesis
    using assms by (simp add: word_le_nat_alt)
qed

lemma msin_octets_read:
  "\<forall>d\<in>set ds. d \<le> 9 \<Longrightarrow> decimal_digits (concat (map (\<lambda>b. [b AND 0x0F, drop_bit 4 b]) (msin_octets ds))) = decimal_digits ds"
proof (induction ds rule: msin_octets.induct)
  case (2 d)
  then show ?case using nibbles[of d "0x0F"] by (simp add: decimal_digits_def)
next
  case (3 d e ds)
  then show ?case using nibbles[of d e] order_trans[of e 9 15] by (simp add: decimal_digits_def)
qed simp

lemma plmn_fields:
  assumes "is_decimal mcc" "length mcc = 3" "is_decimal mnc" "length mnc = 2 \<or> length mnc = 3"
  shows "decimal_digits (octets3 (mcc_digits mcc)) = mcc" "decimal_digits (octets3 (mnc_digits mnc)) = mnc"
proof -
  have mcc: "octets3 (mcc_digits mcc) = digit_octets mcc"
    using assms(2) by (auto simp: mcc_digits_def digit_octets_def numeral_3_eq_3 length_Suc_conv)
  have mnc: "octets3 (mnc_digits mnc) = digit_octets mnc @ (if length mnc = 2 then [0x0F] else [])"
    using assms(4) by (auto simp: mnc_digits_def digit_octets_def eval_nat_numeral length_Suc_conv)
  have "decimal_digits [0x0F] = []" "decimal_digits [] = []"
    by (simp_all add: decimal_digits_def)
  then show "decimal_digits (octets3 (mcc_digits mcc)) = mcc" "decimal_digits (octets3 (mnc_digits mnc)) = mnc"
    using assms by (simp_all add: mcc mnc decimal_digits_append decimal_digits_octets)
qed

lemma plmn_digits:
  assumes "is_decimal mcc" "length mcc = 3" "is_decimal mnc" "length mnc = 2 \<or> length mnc = 3"
  shows "decimal_digits (octets3 (mcc_digits mcc) @ octets3 (mnc_digits mnc)) = mcc @ mnc"
  using plmn_fields[OF assms] by (simp add: decimal_digits_append)

text \<open>The SUCI a UE of a subscriber builds, as the NAS library reads it (TS 24.501, 9.11.3.4).\<close>

definition null_suci :: "string \<Rightarrow> string \<Rightarrow> string \<Rightarrow> Suci" where
  "null_suci mcc mnc msin = \<lparr>suci_mcc = mcc_digits mcc, suci_mnc = mnc_digits mnc, routing_indicator = [0, 0], protection_scheme = 0,
     home_nw_public_key_id = 0, scheme_output = msin_octets (digit_octets msin)\<rparr>"

lemma null_suci_supi:
  assumes "is_decimal mcc" "length mcc = 3" "is_decimal mnc" "length mnc = 2 \<or> length mnc = 3" "is_decimal msin"
  shows "suci_to_supi (null_suci mcc mnc msin) = ''imsi-'' @ mcc @ mnc @ msin"
proof -
  have "\<forall>d\<in>set (digit_octets msin). d \<le> 9"
    using assms(5) digit_octet by (auto simp: digit_octets_def is_decimal_def list_all_iff simp del: list.set)
  from msin_octets_read[OF this] show ?thesis
    using plmn_digits[OF assms(1-4)] decimal_digits_octets[OF assms(5)] by (simp add: suci_to_supi_def null_suci_def)
qed

text \<open>
  The identity a UE gives in the clear survives the radio: the AMF reads from an Identity Response the SUPI
  \<open>imsi-MCC-MNC-MSIN\<close> of the subscriber the UE named, whether the MNC has two digits or three and the MSIN an even or
  an odd number.
\<close>

theorem identity_roundtrip:
  assumes "is_decimal mcc" "length mcc = 3" "is_decimal mnc" "length mnc = 2 \<or> length mnc = 3" "is_decimal msin"
    and reads: "as_suci N (suci_mobile_identity N mcc mnc msin) = Some (null_suci mcc mnc msin)"
    and codec: "decode_nas N (identity_response_suci N mcc mnc msin)
      = Some (Gmm TIdentityResponse (IdentityResponse (suci_mobile_identity N mcc mnc msin)))"
  shows "Option.bind (decode_nas N (identity_response_suci N mcc mnc msin)) (supi_from_identity_response N) = Some (''imsi-'' @ mcc @ mnc @ msin)"
  using null_suci_supi[OF assms(1-5)] reads codec by (simp add: supi_from_identity_response_def)

text \<open>
  A UE reads a Registration Accept back: the reallocated GUTI, its registration area (at most 16 areas), the
  allowed slices, the rejected ones with their cause, and the network's active sessions in order.
\<close>

theorem registration_accept_roundtrip:
  assumes guti: "\<And>g. as_guti N (from_guti N g) = Some g"
    and msg: "msg = registration_accept N mcc mnc tmsi allowed rejected secs area active"
  shows "guti_tmsi_from_registration_accept N msg = Some tmsi
    \<and> registration_area_from_registration_accept msg = (if area = [] then None else Some (take 16 area))
    \<and> allowed_nssai_from_registration_accept msg = allowed
    \<and> rejected_nssai_from_registration_accept msg = map (\<lambda>s. (s, NOT_AVAILABLE_IN_PLMN)) rejected
    \<and> t3512_octet_from_registration_accept msg = Some (timer3_from_secs secs)
    \<and> pdu_session_status_from_accept msg = map_option (\<lambda>ps. filter (\<lambda>p. p \<in> set ps) (map of_nat [0..<16])) active"
proof -
  have "parse_nssai_value [] = []" "parse_rejected_nssai_value [] = []"
    by simp_all
  moreover have "NOT_AVAILABLE_IN_PLMN AND 0x0F = NOT_AVAILABLE_IN_PLMN"
    by (simp add: NOT_AVAILABLE_IN_PLMN_def)
  ultimately show ?thesis
    using registration_area_read[of area "to_tbcd N" mcc mnc] allowed.read_entries[of allowed]
      rejected.read_entries[of NOT_AVAILABLE_IN_PLMN rejected] psi_bitmap_read
    by (auto simp: msg registration_accept_def guti_tmsi_from_registration_accept_def guti registration_area_from_registration_accept_def
        allowed_nssai_from_registration_accept_def rejected_nssai_from_registration_accept_def t3512_octet_from_registration_accept_def
        pdu_session_status_from_accept_def nssai_value_def rejected_nssai_value_def guti_identity_def option.map_comp comp_def cong: option.map_cong)
qed


text \<open>A library for the concrete runs: identities packed octet by octet, and the one message that is on its way.\<close>

definition pack_guti :: "Guti \<Rightarrow> bytes" where
  "pack_guti g = octets3 (guti_mcc g) @ octets3 (guti_mnc g) @ [amf_region_id g] @ to_be 2 (amf_set_id g) @ [amf_pointer g] @ to_be 4 (guti_tmsi g)"

definition unpack_guti :: "bytes \<Rightarrow> Guti option" where
  "unpack_guti v = (if length v \<noteq> 14 then None else Some \<lparr>guti_mcc = (v ! 0, v ! 1, v ! 2), guti_mnc = (v ! 3, v ! 4, v ! 5),
     amf_region_id = v ! 6, amf_set_id = from_be (subslice 7 9 v), amf_pointer = v ! 9, guti_tmsi = from_be (subslice 10 14 v)\<rparr>)"

definition unpack_suci :: "bytes \<Rightarrow> Suci option" where
  "unpack_suci v = (if length v < 8 \<or> v ! 0 \<noteq> 0x01 then None else Some
     \<lparr>suci_mcc = (v ! 1 AND 0x0F, drop_bit 4 (v ! 1), v ! 2 AND 0x0F), suci_mnc = (v ! 3 AND 0x0F, drop_bit 4 (v ! 3), drop_bit 4 (v ! 2)),
      routing_indicator = [v ! 4, v ! 5], protection_scheme = v ! 6, home_nw_public_key_id = v ! 7, scheme_output = drop 8 v\<rparr>)"

fun pack_tbcd :: "sd3 \<Rightarrow> sd3 \<Rightarrow> sd3" where
  "pack_tbcd (a, b, c) (d, e, f) = (push_bit 4 b OR a, push_bit 4 f OR c, push_bit 4 e OR d)"

definition carrying :: "(bytes \<times> Nas5gsMessage) list \<Rightarrow> nas_lib" where
  "carrying table = \<lparr>encode_nas = (\<lambda>m. case find (\<lambda>(_, n). n = m) table of Some (bs, _) \<Rightarrow> bs | None \<Rightarrow> [0xFF]), decode_nas = map_of table,
     to_tbcd = pack_tbcd, from_guti = pack_guti, as_guti = unpack_guti, as_suci = unpack_suci,
     from_s_tmsi = (\<lambda>st p t. 0xF4 # to_be 2 st @ [p] @ to_be 4 t), identity_tmsi = (\<lambda>v. Some (from_be (drop 4 v))), identity_type_suci = 1,
     registration_type_parts = (\<lambda>ty _ _ _. case ty of InitialRegistration \<Rightarrow> 1 | MobilityRegistrationUpdate \<Rightarrow> 2 | PeriodicRegistrationUpdate \<Rightarrow> 3 | OtherRegistration x \<Rightarrow> x),
     registration_type_of = (\<lambda>x. Some (if x = 1 then InitialRegistration else if x = 2 then MobilityRegistrationUpdate
       else if x = 3 then PeriodicRegistrationUpdate else OtherRegistration x)),
     dnn_from_string = rfc1035_labels, dnn_as_string = (\<lambda>_. None), snssai_from_parts = nssai_entry, snssai_parse = (\<lambda>_. None),
     ea_byte = (\<lambda>c. c ! 0), ia_byte = (\<lambda>c. c ! 1)\<rparr>"

lemma unpack_pack_guti: "unpack_guti (pack_guti g) = Some g"
  by (cases g; cases "guti_mcc g"; cases "guti_mnc g")
    (simp add: unpack_guti_def pack_guti_def to_be_2 to_be_4 subslice_def)

theorem identity_roundtrip_witness:
  "Option.bind (decode_nas (carrying [([1], Gmm TIdentityResponse (IdentityResponse (suci_mobile_identity (carrying []) ''999'' ''70'' ''123'')))])
      (identity_response_suci (carrying [([1], Gmm TIdentityResponse (IdentityResponse (suci_mobile_identity (carrying []) ''999'' ''70'' ''123'')))]) ''999'' ''70'' ''123''))
     (supi_from_identity_response (carrying [([1], Gmm TIdentityResponse (IdentityResponse (suci_mobile_identity (carrying []) ''999'' ''70'' ''123'')))]))
   = Some ''imsi-99970123''"
  by (subst identity_roundtrip)
    (simp_all add: is_decimal_def carrying_def identity_response_suci_def suci_mobile_identity_def null_suci_def unpack_suci_def
      mcc_digits_def mnc_digits_def digit_octets_def)

theorem registration_accept_roundtrip_witness:
  "guti_tmsi_from_registration_accept (carrying []) (registration_accept (carrying []) ''999'' ''70'' 7 [(1, None)] [] 54 [(0, 0, 1)] None) = Some 7"
  using registration_accept_roundtrip[of "carrying []"] by (simp add: carrying_def unpack_pack_guti)

end
