(* ===== verification/Amf_Cbl.thy ===== *)
theory Amf_Cbl
  imports Prelude
begin

section \<open>Come Back Later: the AMF's admission gate\<close>

text \<open>
  \<open>nf-amf/src/cbl.rs\<close>. The gate is a set of atomics that handlers on several threads use at once, so
  every atomic access is one step here: a world holds the gate, the leases (their \<open>released\<close> flags)
  and the running tasks, each at the atomic access it makes next. An \<open>i64\<close> is an \<open>int\<close> kept in range
  by \<open>i64\<close>. The decay timer is a task that may fire at any time; the gate runs inside the runtime, so
  a positive decay always arms it.
\<close>

subsection \<open>The gate, its leases and its tasks\<close>

definition i64 :: "int \<Rightarrow> int" where
  "i64 x = signed_take_bit 63 x"

record CblState =
  enabled :: bool
  threshold :: int
  ongoing :: int
  retry_ms :: u32
  decay_ms :: u64
  admitted_total :: u64
  deferred_total :: u64
  stale_total :: u64
  max_overshoot :: int

definition cbl_with :: "int option \<Rightarrow> u32 \<Rightarrow> u64 \<Rightarrow> CblState" where
  "cbl_with m retry decay = \<lparr>enabled = m \<noteq> None, threshold = (case m of Some m \<Rightarrow> m | None \<Rightarrow> 0), ongoing = 0,
     retry_ms = retry, decay_ms = decay, admitted_total = 0, deferred_total = 0, stale_total = 0, max_overshoot = 0\<rparr>"

definition record_overshoot :: "int \<Rightarrow> CblState \<Rightarrow> CblState" where
  "record_overshoot over g = g\<lparr>max_overshoot := max (max_overshoot g) over\<rparr>"

text \<open>The JSON body of an OAM control, as the readers \<open>as_u64\<close>, \<open>as_i64\<close> and \<open>as_bool\<close> return its members.\<close>

record control_body =
  body_retry_ms :: "u64 option"
  body_decay_ms :: "u64 option"
  body_threshold :: "int option"
  body_enable :: "bool option"

datatype access = Store_retry u64 | Store_decay u64 | Swap_threshold int | Load_ongoing int | Max_overshoot int | Store_enabled bool

definition set_threshold :: "int \<Rightarrow> access list" where
  "set_threshold m = [Swap_threshold m, Load_ongoing m]"

definition apply_control :: "control_body \<Rightarrow> access list \<times> bool" where
  "apply_control body = (let accesses =
       (case body_retry_ms body of Some ms \<Rightarrow> [Store_retry ms] | None \<Rightarrow> [])
     @ (case body_decay_ms body of Some ms \<Rightarrow> [Store_decay ms] | None \<Rightarrow> [])
     @ (case body_threshold body of Some m \<Rightarrow> set_threshold m @ [Store_enabled True] | None \<Rightarrow> [])
     @ (case body_enable body of Some e \<Rightarrow> [Store_enabled e] | None \<Rightarrow> [])
   in (accesses, accesses \<noteq> []))"

text \<open>An access of a control, with the accesses that follow from what it read.\<close>

fun control_access :: "access \<Rightarrow> CblState \<Rightarrow> CblState \<times> access list" where
  "control_access (Store_retry ms) g = (g\<lparr>retry_ms := ucast ms\<rparr>, [])"
| "control_access (Store_decay ms) g = (g\<lparr>decay_ms := ms\<rparr>, [])"
| "control_access (Swap_threshold m) g = (g\<lparr>threshold := m\<rparr>, [])"
| "control_access (Load_ongoing m) g = (g, [Max_overshoot (i64 (ongoing g - m))])"
| "control_access (Max_overshoot over) g = (record_overshoot over g, [])"
| "control_access (Store_enabled e) g = (g\<lparr>enabled := e\<rparr>, [])"

datatype task =
    Admit_start
  | Admit_load_ongoing
  | Admit_load_threshold int
  | Admit_decide int int
  | Admit_load_retry
  | Admit_count int int
  | Admit_overshoot int
  | Admit_arm
  | Disabled
  | Deferred u32
  | Admitted nat
  | Lease_timer nat
  | Release nat bool
  | Release_sub bool
  | Release_count
  | Control "access list"
  | Ended

record world =
  gate :: CblState
  leases :: "bool list"
  tasks :: "task list"

text \<open>
  The next access of a task: the gate and the leases after it, where the task stands, and the tasks it
  spawned. \<open>Admitted n\<close> is the holder of lease \<open>n\<close>, and its step is the drop of the slot.
\<close>

fun access_step :: "task \<Rightarrow> CblState \<Rightarrow> bool list \<Rightarrow> CblState \<times> bool list \<times> task \<times> task list" where
  "access_step Admit_start g ls = (g, ls, (if enabled g then Admit_load_ongoing else Disabled), [])"
| "access_step Admit_load_ongoing g ls = (g, ls, Admit_load_threshold (ongoing g), [])"
| "access_step (Admit_load_threshold cur) g ls = (g, ls, Admit_decide cur (threshold g), [])"
| "access_step (Admit_decide cur m) g ls =
     (if cur \<ge> m then (g\<lparr>deferred_total := deferred_total g + 1\<rparr>, ls, Admit_load_retry, [])
      else if ongoing g = cur then (g\<lparr>ongoing := i64 (cur + 1)\<rparr>, ls, Admit_count cur m, [])
      else (g, ls, Admit_load_ongoing, []))"
| "access_step Admit_load_retry g ls = (g, ls, Deferred (retry_ms g), [])"
| "access_step (Admit_count cur m) g ls =
     (g\<lparr>admitted_total := admitted_total g + 1\<rparr>, ls, Admit_overshoot (i64 (i64 (cur + 1) - m)), [])"
| "access_step (Admit_overshoot over) g ls = (record_overshoot over g, ls, Admit_arm, [])"
| "access_step Admit_arm g ls =
     (g, ls @ [False], Admitted (length ls), if decay_ms g > 0 then [Lease_timer (length ls)] else [])"
| "access_step (Admitted n) g ls = (g, ls, Release n False, [])"
| "access_step (Lease_timer n) g ls = (g, ls, Release n True, [])"
| "access_step (Release n stale) g ls = (if ls ! n then (g, ls, Ended, []) else (g, ls[n := True], Release_sub stale, []))"
| "access_step (Release_sub stale) g ls = (g\<lparr>ongoing := i64 (ongoing g - 1)\<rparr>, ls, (if stale then Release_count else Ended), [])"
| "access_step Release_count g ls = (g\<lparr>stale_total := stale_total g + 1\<rparr>, ls, Ended, [])"
| "access_step (Control (a # as)) g ls = (let (g', more) = control_access a g in (g', ls, Control (more @ as), []))"
| "access_step t g ls = (g, ls, t, [])"

definition task_step :: "nat \<Rightarrow> world \<Rightarrow> world" where
  "task_step i w = (let (g, ls, t, more) = access_step (tasks w ! i) (gate w) (leases w) in
     \<lparr>gate = g, leases = ls, tasks = (tasks w)[i := t] @ more\<rparr>)"

definition arrive :: "task \<Rightarrow> world \<Rightarrow> world" where
  "arrive t w = w\<lparr>tasks := tasks w @ [t]\<rparr>"

text \<open>
  The worlds the gate reaches when it is started with a threshold and controlled with thresholds of at
  most \<open>M\<close>: registrations arrive, controls arrive, and any task makes its next access.
\<close>

inductive reachable_under :: "int \<Rightarrow> world \<Rightarrow> bool" for M where
  reach_start: "0 \<le> M \<Longrightarrow> M < 2 ^ 63 \<Longrightarrow> case m of Some m \<Rightarrow> - (2 ^ 63) \<le> m \<and> m \<le> M | None \<Rightarrow> True \<Longrightarrow>
    reachable_under M \<lparr>gate = cbl_with m retry decay, leases = [], tasks = []\<rparr>"
| reach_admit: "reachable_under M w \<Longrightarrow> reachable_under M (arrive Admit_start w)"
| reach_control: "reachable_under M w \<Longrightarrow> case body_threshold body of Some m \<Rightarrow> - (2 ^ 63) \<le> m \<and> m \<le> M | None \<Rightarrow> True \<Longrightarrow>
    reachable_under M (arrive (Control (fst (apply_control body))) w)"
| reach_step: "reachable_under M w \<Longrightarrow> i < length (tasks w) \<Longrightarrow> reachable_under M (task_step i w)"

text \<open>The whole of \<open>admit\<close> when no other task runs in between, and the telemetry of the gate.\<close>

datatype Admission = Adm_Disabled | Adm_Admitted nat | Adm_Deferred u32

definition admit :: "CblState \<Rightarrow> bool list \<Rightarrow> CblState \<times> bool list \<times> Admission" where
  "admit g ls = (if \<not> enabled g then (g, ls, Adm_Disabled)
     else if ongoing g \<ge> threshold g then (g\<lparr>deferred_total := deferred_total g + 1\<rparr>, ls, Adm_Deferred (retry_ms g))
     else (record_overshoot (i64 (i64 (ongoing g + 1) - threshold g))
             (g\<lparr>ongoing := i64 (ongoing g + 1), admitted_total := admitted_total g + 1\<rparr>), ls @ [False], Adm_Admitted (length ls)))"

definition CBL_PPID :: u32 where "CBL_PPID = 0xcb000000"
definition CBL_MAGIC :: bytes where "CBL_MAGIC = [0xcb, 0x01]"

definition cbl_payload :: "u32 \<Rightarrow> u32 \<Rightarrow> bytes" where
  "cbl_payload ran_ue_id retry = CBL_MAGIC @ to_be 4 ran_ue_id @ to_be 4 retry"

definition send_come_back_later :: "u32 \<Rightarrow> u32 \<Rightarrow> u32 \<times> bytes" where
  "send_come_back_later ran_ue_id retry = (CBL_PPID, cbl_payload ran_ue_id retry)"

subsection \<open>What the gate counts\<close>

text \<open>A task between its reservation and its lease, or between the end of a lease and the decrement, is one unit of C(t).\<close>

fun unit_of :: "task \<Rightarrow> int" where
  "unit_of (Admit_count cur m) = 1"
| "unit_of (Admit_overshoot over) = 1"
| "unit_of Admit_arm = 1"
| "unit_of (Release_sub stale) = 1"
| "unit_of _ = 0"

definition live_leases :: "bool list \<Rightarrow> int" where
  "live_leases ls = (\<Sum>released\<leftarrow>ls. if released then 0 else 1)"

definition units :: "task list \<Rightarrow> int" where
  "units ts = (\<Sum>t\<leftarrow>ts. unit_of t)"

fun lease_of :: "task \<Rightarrow> nat option" where
  "lease_of (Admitted n) = Some n"
| "lease_of (Lease_timer n) = Some n"
| "lease_of (Release n stale) = Some n"
| "lease_of _ = None"

fun in_range :: "int \<Rightarrow> task \<Rightarrow> bool" where
  "in_range M (Admit_decide cur m) = (m \<le> M)"
| "in_range M (Control as) = (\<forall>m. Swap_threshold m \<in> set as \<longrightarrow> - (2 ^ 63) \<le> m \<and> m \<le> M)"
| "in_range M _ = True"

definition holds :: "nat \<Rightarrow> task \<Rightarrow> bool" where
  "holds n t \<longleftrightarrow> t = Admitted n \<or> (\<exists>stale. t = Release n stale)"

definition gate_inv :: "int \<Rightarrow> world \<Rightarrow> bool" where
  "gate_inv M w \<longleftrightarrow>
     0 \<le> M \<and> M < 2 ^ 63 \<and> ongoing (gate w) = units (tasks w) + live_leases (leases w) \<and> ongoing (gate w) \<le> M \<and>
     threshold (gate w) \<le> M \<and> (\<forall>t\<in>set (tasks w). in_range M t \<and> (\<forall>n. lease_of t = Some n \<longrightarrow> n < length (leases w))) \<and>
     (\<forall>n<length (leases w). leases w ! n \<or> (\<exists>t\<in>set (tasks w). holds n t))"

lemma i64_id [simp]: "- (2 ^ 63) \<le> x \<Longrightarrow> x < 2 ^ 63 \<Longrightarrow> i64 x = x"
  unfolding i64_def by (rule signed_take_bit_int_eq_self) auto

lemma units_simps [simp]: "units [] = 0" "units (t # ts) = unit_of t + units ts" "units (ts @ us) = units ts + units us"
  by (simp_all add: units_def)

lemma live_leases_simps [simp]: "live_leases [] = 0" "live_leases (b # ls) = (if b then 0 else 1) + live_leases ls"
    "live_leases (ls @ ks) = live_leases ls + live_leases ks"
  by (simp_all add: live_leases_def)

lemma units_update: "i < length ts \<Longrightarrow> units (ts[i := t]) = units ts + unit_of t - unit_of (ts ! i)"
  by (induction ts arbitrary: i) (auto split: nat.splits)

lemma live_leases_update: "n < length ls \<Longrightarrow> \<not> ls ! n \<Longrightarrow> live_leases (ls[n := True]) = live_leases ls - 1"
  by (induction ls arbitrary: n) (auto split: nat.splits)

lemma counts_nonneg: "0 \<le> units ts" "0 \<le> live_leases ls"
proof -
  have "0 \<le> unit_of t" for t
    by (cases t) simp_all
  then show "0 \<le> units ts"
    by (induction ts) auto
  show "0 \<le> live_leases ls"
    by (induction ls) auto
qed


lemma arrive_inv: "gate_inv M w \<Longrightarrow> unit_of t = 0 \<Longrightarrow> in_range M t \<Longrightarrow> lease_of t = None \<Longrightarrow> gate_inv M (arrive t w)"
  by (auto simp: gate_inv_def arrive_def)

text \<open>One access: the count follows the tasks and the leases, and nothing leaves its bounds.\<close>

lemma access_count:
  assumes "access_step t g ls = (g', ls', t', new)" "ongoing g = c + unit_of t + live_leases ls" "0 \<le> c"
    "0 \<le> M" "M < 2 ^ 63" "ongoing g \<le> M" "in_range M t" "\<forall>n. lease_of t = Some n \<longrightarrow> n < length ls"
  shows "ongoing g' = c + unit_of t' + units new + live_leases ls' \<and> ongoing g' \<le> M"
  using assms counts_nonneg(2)[of ls]
  by (cases "(t, g, ls)" rule: access_step.cases; cases "case t of Control (a # as) \<Rightarrow> a | _ \<Rightarrow> Store_enabled True")
    (auto simp: record_overshoot_def live_leases_update split: if_splits)

lemma access_bounds:
  assumes "access_step t g ls = (g', ls', t', new)" "threshold g \<le> M" "in_range M t" "\<forall>n. lease_of t = Some n \<longrightarrow> n < length ls"
  shows "threshold g' \<le> M \<and> length ls \<le> length ls' \<and>
    (\<forall>u\<in>set (t' # new). in_range M u \<and> (\<forall>n. lease_of u = Some n \<longrightarrow> n < length ls'))"
  using assms
  by (cases "(t, g, ls)" rule: access_step.cases; cases "case t of Control (a # as) \<Rightarrow> a | _ \<Rightarrow> Store_enabled True")
    (auto simp: record_overshoot_def split: if_splits)

lemma unset_after_update: "n < length ls \<Longrightarrow> \<not> ls[k := True] ! n \<longleftrightarrow> n \<noteq> k \<and> \<not> ls ! n"
  by (cases "n = k") auto

lemma access_holds:
  assumes "access_step t g ls = (g', ls', t', new)" "n < length ls'" "\<not> ls' ! n"
  shows "n < length ls \<and> \<not> ls ! n \<and> (holds n t \<longrightarrow> holds n t') \<or> holds n t'"
  using assms
  by (cases "(t, g, ls)" rule: access_step.cases)
    (auto simp: holds_def nth_append unset_after_update split: if_splits prod.splits)


lemma task_step_inv:
  assumes inv: "gate_inv M w" and i: "i < length (tasks w)"
  shows "gate_inv M (task_step i w)"
proof -
  let ?t = "tasks w ! i"
  obtain g ls t new where acc: "access_step ?t (gate w) (leases w) = (g, ls, t, new)"
    by (metis prod.exhaust)
  have step: "task_step i w = \<lparr>gate = g, leases = ls, tasks = (tasks w)[i := t] @ new\<rparr>"
    by (simp add: task_step_def acc)
  have t: "?t \<in> set (tasks w)" "in_range M ?t" "\<forall>n. lease_of ?t = Some n \<longrightarrow> n < length (leases w)"
    using inv i by (auto simp: gate_inv_def)
  have "0 \<le> units (tasks w) - unit_of ?t"
    using units_update[OF i, of Ended] counts_nonneg(1)[of "(tasks w)[i := Ended]"] by simp
  then have "ongoing g = units (tasks w) - unit_of ?t + unit_of t + units new + live_leases ls \<and> ongoing g \<le> M"
    using access_count[OF acc, of "units (tasks w) - unit_of ?t" M] inv t by (simp add: gate_inv_def)
  then have count: "ongoing g = units (tasks (task_step i w)) + live_leases ls" "ongoing g \<le> M"
    by (simp_all add: step units_update[OF i])
  have bounds: "threshold g \<le> M" "length (leases w) \<le> length ls"
      "\<forall>u\<in>set (t # new). in_range M u \<and> (\<forall>n. lease_of u = Some n \<longrightarrow> n < length ls)"
    using access_bounds[OF acc _ t(2,3)] inv by (simp_all add: gate_inv_def)
  have tasks: "\<forall>u\<in>set (tasks (task_step i w)). in_range M u \<and> (\<forall>n. lease_of u = Some n \<longrightarrow> n < length ls)"
    using inv bounds(2,3) set_update_subset_insert[of "tasks w" i t]
    by (auto simp: gate_inv_def step dest!: subsetD dest: less_le_trans)
  have "ls ! n \<or> (\<exists>u\<in>set (tasks (task_step i w)). holds n u)" if n: "n < length ls" for n
  proof (rule disjCI)
    assume none: "\<not> (\<exists>u\<in>set (tasks (task_step i w)). holds n u)"
    have mem: "u \<in> set (tasks (task_step i w)) \<or> u = ?t" if "u \<in> set (tasks w)" for u
      using that i by (auto simp: step in_set_conv_nth nth_list_update)
    have "t \<in> set (tasks (task_step i w))"
      using i by (simp add: step set_update_memI)
    then show "ls ! n"
      using access_holds[OF acc n] inv none mem unfolding gate_inv_def by blast
  qed
  then show ?thesis
    using inv count bounds(1) tasks by (simp add: gate_inv_def step)
qed

lemma apply_control_range:
  "case body_threshold body of Some m \<Rightarrow> - (2 ^ 63) \<le> m \<and> m \<le> M | None \<Rightarrow> True \<Longrightarrow> in_range M (Control (fst (apply_control body)))"
  by (auto simp: apply_control_def set_threshold_def Let_def split: option.splits)

lemma reachable_inv: "reachable_under M w \<Longrightarrow> gate_inv M w"
proof (induction rule: reachable_under.induct)
  case (reach_start m retry decay)
  then show ?case by (auto simp: gate_inv_def cbl_with_def split: option.splits)
next
  case (reach_admit w)
  then show ?case by (simp add: arrive_inv)
next
  case (reach_control w body)
  then show ?case by (intro arrive_inv) (simp_all add: apply_control_range del: in_range.simps)
next
  case (reach_step w i)
  then show ?case by (simp add: task_step_inv)
qed


subsection \<open>Admissions, slots and the overshoot counter\<close>

text \<open>A task that makes its accesses with no other task in between.\<close>

fun solo :: "nat \<Rightarrow> task \<Rightarrow> CblState \<Rightarrow> bool list \<Rightarrow> CblState \<times> bool list \<times> task" where
  "solo 0 t g ls = (g, ls, t)"
| "solo (Suc k) t g ls = (let (g', ls', t', _) = access_step t g ls in solo k t' g' ls')"

fun answer_of :: "Admission \<Rightarrow> task" where
  "answer_of Adm_Disabled = Disabled"
| "answer_of (Adm_Admitted n) = Admitted n"
| "answer_of (Adm_Deferred ms) = Deferred ms"

definition waiting :: "task \<Rightarrow> bool" where
  "waiting t \<longleftrightarrow> t = Admit_start \<or> t = Ended \<or> t = Disabled \<or> (\<exists>ms. t = Deferred ms) \<or> (\<exists>n. t = Admitted n) \<or> (\<exists>n. t = Lease_timer n)"

lemma waiting_unit: "waiting t \<Longrightarrow> unit_of t = 0"
  by (auto simp: waiting_def)

lemma waiting_no_unit: "\<forall>t\<in>set ts. waiting t \<Longrightarrow> units ts = 0"
  by (induction ts) (simp_all add: waiting_unit)

lemma live_le_holders:
  assumes "\<And>n. n < length ls \<Longrightarrow> \<not> ls ! n \<Longrightarrow> n \<in> A" "finite A"
  shows "live_leases ls \<le> int (card A)"
proof -
  have "live_leases ls = int (card {n. n < length ls \<and> \<not> ls ! n})"
  proof (induction ls rule: rev_induct)
    case (snoc b ls)
    have "{n. n < length (ls @ [b]) \<and> \<not> (ls @ [b]) ! n} = {n. n < length ls \<and> \<not> ls ! n} \<union> (if b then {} else {length ls})"
      by (auto simp: nth_append less_Suc_eq split: if_splits)
    then show ?case using snoc by simp
  qed simp
  also have "\<dots> \<le> int (card A)"
    using assms by (auto intro!: card_mono)
  finally show ?thesis .
qed

text \<open>
  C16: However registrations, controls, drops and decay timers interleave, the gate never counts more than
  the largest threshold that was ever set: C(t) stays between 0 and M. It is exactly the reservations in
  flight plus the slots not yet released, so no slot is released twice or counted twice; and once every
  task is at rest, it is at most the number of registrations that still hold their slot, so none leaks.
\<close>

theorem cbl_admission_bound:
  assumes "reachable_under M w"
  shows "0 \<le> ongoing (gate w) \<and> ongoing (gate w) \<le> M \<and> ongoing (gate w) = units (tasks w) + live_leases (leases w) \<and>
    ((\<forall>t\<in>set (tasks w). waiting t) \<longrightarrow> ongoing (gate w) \<le> int (card {n. Admitted n \<in> set (tasks w)}))"
proof -
  have inv: "gate_inv M w"
    using assms by (rule reachable_inv)
  have fin: "finite {n. Admitted n \<in> set (tasks w)}"
    using finite_vimageI[of "set (tasks w)" Admitted] by (simp add: vimage_def inj_on_def)
  have "ongoing (gate w) \<le> int (card {n. Admitted n \<in> set (tasks w)})" if rest: "\<forall>t\<in>set (tasks w). waiting t"
  proof -
    have "Admitted n \<in> set (tasks w)" if "n < length (leases w)" "\<not> leases w ! n" for n
      using inv that rest by (auto simp: gate_inv_def holds_def waiting_def)
    then show ?thesis
      using live_le_holders[of "leases w", OF _ fin] inv waiting_no_unit[OF rest] by (simp add: gate_inv_def)
  qed
  then show ?thesis
    using inv counts_nonneg by (simp add: gate_inv_def)
qed

text \<open>
  An attempt that is not interrupted ends after at most seven accesses, in the state and with the answer of
  the one-step gate: disabled, deferred with the configured timer at or above the threshold, and otherwise
  admitted, counted, with a lease of its own.
\<close>

theorem admit_uninterrupted:
  "solo 7 Admit_start g ls = (case admit g ls of (g', ls', a) \<Rightarrow> (g', ls', answer_of a))"
  by (simp add: admit_def eval_nat_numeral record_overshoot_def)

definition demo_world :: world where
  "demo_world = \<lparr>gate = cbl_with (Some 1) 2000 0, leases = [], tasks = []\<rparr>"

datatype event = Register | Operate control_body | Access nat

fun schedule :: "event list \<Rightarrow> world \<Rightarrow> world option" where
  "schedule [] w = Some w"
| "schedule (Register # es) w = schedule es (arrive Admit_start w)"
| "schedule (Operate body # es) w = schedule es (arrive (Control (fst (apply_control body))) w)"
| "schedule (Access i # es) w = (if i < length (tasks w) then schedule es (task_step i w) else None)"

definition lower_to :: "int \<Rightarrow> control_body" where
  "lower_to m = \<lparr>body_retry_ms = None, body_decay_ms = None, body_threshold = Some m, body_enable = None\<rparr>"

lemma gate_schedule_reachable:
  "schedule es w = Some w' \<Longrightarrow> reachable_under M w \<Longrightarrow>
   \<forall>body. Operate body \<in> set es \<longrightarrow> (case body_threshold body of Some m \<Rightarrow> - (2 ^ 63) \<le> m \<and> m \<le> M | None \<Rightarrow> True) \<Longrightarrow> reachable_under M w'"
  by (induction es w rule: schedule.induct) (auto intro: reach_admit reach_control reach_step split: if_splits)

definition racing :: "event list" where
  "racing = Register # replicate 3 (Access 0) @ Operate (lower_to 0) # replicate 4 (Access 1) @ replicate 4 (Access 0)"

lemma i64_small [simp]: "i64 0 = 0" "i64 1 = 1"
  by simp_all

lemma racing_run: "schedule racing demo_world = Some
    \<lparr>gate = (cbl_with (Some 1) 2000 0)\<lparr>threshold := 0, ongoing := 1, admitted_total := 1\<rparr>, leases = [False],
      tasks = [Admitted 0, Control []]\<rparr>"
  by (simp add: racing_def demo_world_def eval_nat_numeral arrive_def task_step_def lower_to_def apply_control_def set_threshold_def
      cbl_with_def record_overshoot_def)

lemma demo_reachable: "reachable_under 1 demo_world"
  unfolding demo_world_def by (rule reach_start) simp_all

lemma racing_reachable: "reachable_under 1 (the (schedule racing demo_world))"
  using gate_schedule_reachable[OF racing_run demo_reachable] by (simp add: racing_run) (simp add: racing_def lower_to_def)

theorem cbl_admission_bound_witness:
  "schedule racing demo_world \<noteq> None \<and> ongoing (gate (the (schedule racing demo_world))) \<le> 1"
  using cbl_admission_bound[OF racing_reachable] by (simp add: racing_run)

text \<open>
  A threshold lowered while an attempt stands between its read of the threshold and its reservation: the count
  then exceeds the threshold although it did not when the threshold was lowered, and the overshoot counter,
  which is to tell such a run apart, stays at 0.
\<close>

theorem cbl_overshoot_unrecorded:
  "\<exists>w. schedule racing demo_world = Some w \<and> reachable_under 1 w \<and> threshold (gate w) < ongoing (gate w) \<and> max_overshoot (gate w) = 0 \<and>
    (\<exists>v. schedule (take 8 racing) demo_world = Some v \<and> threshold (gate v) = threshold (gate w) \<and> ongoing (gate v) \<le> threshold (gate v))"
proof -
  have "schedule (take 8 racing) demo_world = Some \<lparr>gate = (cbl_with (Some 1) 2000 0)\<lparr>threshold := 0\<rparr>, leases = [],
      tasks = [Admit_decide 0 1, Control [Store_enabled True]]\<rparr>"
    by (simp add: racing_def demo_world_def eval_nat_numeral arrive_def task_step_def lower_to_def apply_control_def set_threshold_def
        cbl_with_def record_overshoot_def)
  then show ?thesis
    using racing_reachable by (simp add: racing_run cbl_with_def)
qed

end
