(* ===== verification/Amf_State.thy ===== *)
theory Amf_State
  imports Nas_Msg Nas_Security Aka Amf_Cbl "HOL-Library.AList"
begin

unbundle bit_operations_syntax

section \<open>The AMF: contexts, directories and authentication\<close>

text \<open>
  The data of \<open>nf-amf/src/main.rs\<close> and the SEAF role of \<open>auth.rs\<close>. One association's contexts \<open>ues\<close> stand
  beside the maps all associations share; a map is the list of its entries in some iteration order.
  A handler of the association's task is one step on this state that returns the NGAP messages to send, each the
  call of an \<open>ngap\<close> builder with its arguments; timers it arms and requests it hands to background tasks
  go to \<open>acts\<close>. What the AUSF, UDM, PCF, NSSF and SMF answer is the environment \<open>Env\<close> of the step.
\<close>

subsection \<open>Algorithm negotiation\<close>

definition PLMN_MCC :: string where "PLMN_MCC = ''999''"
definition PLMN_MNC :: string where "PLMN_MNC = ''70''"
definition DEFAULT_DNN :: string where "DEFAULT_DNN = ''internet''"
definition REJECT_BACKOFF_SECS :: u32 where "REJECT_BACKOFF_SECS = 600"
definition REG_REJECT_BACKOFF_SECS :: u32 where "REG_REJECT_BACKOFF_SECS = 600"
definition DEFAULT_UE_AMBR_BPS :: "u64 \<times> u64" where "DEFAULT_UE_AMBR_BPS = (1000000000, 1000000000)"
definition T3512_SECS :: u32 where "T3512_SECS = 54 * 60"
definition NGKSI :: u8 where "NGKSI = 0"
definition ABBA :: bytes where "ABBA = [0x00, 0x00]"
definition UE_SEC_CAP :: "u8 \<times> u8" where "UE_SEC_CAP = (0xE0, 0xE0)"
definition NEA_PRIORITY :: "u8 list" where "NEA_PRIORITY = [2, 1, 3, 0]"
definition NIA_PRIORITY :: "u8 list" where "NIA_PRIORITY = [2, 1, 3]"
definition AMF_TAC :: tac3 where "AMF_TAC = (0x00, 0x00, 0x01)"
definition MAX_SENDS :: nat where "MAX_SENDS = 5"

definition ue_supports_algo :: "u8 \<Rightarrow> u8 \<Rightarrow> bool" where
  "ue_supports_algo cap i \<longleftrightarrow> cap AND drop_bit (unat i) 0x80 \<noteq> 0"

definition select_algo :: "u8 \<Rightarrow> u8 list \<Rightarrow> u8 option" where
  "select_algo cap priority = find (ue_supports_algo cap) priority"

subsection \<open>UE contexts\<close>

datatype RegState = IdentityRequested | Identified | Authenticating | SecurityMode | Registered
datatype CmState = Connected | Idle
datatype RetxKind = RetxIdentityRequest | RetxAuthRequest | RetxSecurityModeCommand | RetxRegistrationAccept

record PendingAuth =
  pa_ausf_base :: string
  pa_ctx_id :: string
  pa_rand :: bytes
  pa_hxres :: bytes

record PendingNasRetx =
  rx_kind :: RetxKind
  rx_nas_bytes :: bytes
  rx_attempts :: nat

type_synonym AreaRestriction = "tac3 list \<times> tac3 list"

record PendingConfigUpdate =
  cfg_cuc :: Nas5gsMessage
  cfg_area :: "AreaRestriction option"
  cfg_attempts :: nat

record PendingAmPolicy =
  pol_ue_ambr :: "(u64 \<times> u64) FieldUpdate"
  pol_rfsp :: "u16 FieldUpdate"
  pol_area :: "AreaRestriction FieldUpdate"

record UeContext =
  ue_ran_id :: u32
  ue_state :: RegState
  ue_suci :: "string option"
  ue_auth :: "PendingAuth option"
  ue_sec :: "NasSecurityContext option"
  ue_kamf :: "bytes option"
  ue_nh_chain :: "(bytes \<times> u8) option"
  ue_sec_cap :: "(u8 \<times> u8) option"
  ue_sm_refs :: "(u8 \<times> string \<times> string) list"
  ue_session_snssai :: "(u8 \<times> slice) list"
  ue_ambr :: "(u64 \<times> u64) option"
  ue_subscribed_ambr :: "(u64 \<times> u64) option"
  ue_pcf_ambr :: "(u64 \<times> u64) option"
  ue_rfsp :: "u16 option"
  ue_radio_capability :: "bytes option"
  ue_area_restriction :: "AreaRestriction option"
  ue_allowed_nssai :: "slice list option"
  ue_requested_nssai :: "slice list"
  ue_dereg_attempts :: "nat option"
  ue_resync_attempted :: bool
  ue_cm_state :: CmState
  ue_guti_tmsi :: "u32 option"
  ue_tac :: "tac3 option"
  ue_registration_area :: "tac3 list"
  ue_retained_at :: "nat option"
  ue_am_policy :: "(string \<times> string) option"
  ue_pending_am_policy :: "PendingAmPolicy option"
  ue_releasing :: "u8 list"
  ue_pending_config :: "PendingConfigUpdate option"
  ue_pending_retx :: "PendingNasRetx option"
  ue_cbl_slot :: "nat option"
  ue_reg_progress_at :: nat

definition ue_new :: "nat \<Rightarrow> u32 \<Rightarrow> RegState \<Rightarrow> string option \<Rightarrow> UeContext" where
  "ue_new now ran_ue_id st suci = \<lparr>ue_ran_id = ran_ue_id, ue_state = st, ue_suci = suci, ue_auth = None, ue_sec = None, ue_kamf = None,
     ue_nh_chain = None, ue_sec_cap = None, ue_sm_refs = [], ue_session_snssai = [], ue_ambr = None, ue_subscribed_ambr = None,
     ue_pcf_ambr = None, ue_rfsp = None, ue_radio_capability = None, ue_area_restriction = None, ue_allowed_nssai = None,
     ue_requested_nssai = [], ue_dereg_attempts = None, ue_resync_attempted = False, ue_cm_state = Connected, ue_guti_tmsi = None,
     ue_tac = None, ue_registration_area = [], ue_retained_at = None, ue_am_policy = None, ue_pending_am_policy = None,
     ue_releasing = [], ue_pending_config = None, ue_pending_retx = None, ue_cbl_slot = None, ue_reg_progress_at = now\<rparr>"

text \<open>\<open>Option::or\<close>\<close>

definition or_else :: "'a option \<Rightarrow> 'a option \<Rightarrow> 'a option" where
  "or_else a b = (case a of Some x \<Rightarrow> Some x | None \<Rightarrow> b)"

definition unwrap_or :: "'a option \<Rightarrow> 'a \<Rightarrow> 'a" where
  "unwrap_or a d = (case a of Some x \<Rightarrow> x | None \<Rightarrow> d)"

definition recompute_ue_ambr :: "UeContext \<Rightarrow> UeContext" where
  "recompute_ue_ambr c = c\<lparr>ue_ambr := or_else (ue_pcf_ambr c) (ue_subscribed_ambr c)\<rparr>"

definition guard_retx :: "RetxKind \<Rightarrow> bytes \<Rightarrow> UeContext \<Rightarrow> UeContext" where
  "guard_retx k nas_bytes c = c\<lparr>ue_pending_retx := Some \<lparr>rx_kind = k, rx_nas_bytes = nas_bytes, rx_attempts = 1\<rparr>\<rparr>"

subsection \<open>What the AMF sends and starts\<close>

record NgapGbr =
  ng_gfbr_dl :: u64
  ng_gfbr_ul :: u64
  ng_mfbr_dl :: u64
  ng_mfbr_ul :: u64

record NgapQosFlow =
  nq_qfi :: u8
  nq_five_qi :: u8
  nq_arp_priority :: u8
  nq_pre_empt_cap :: bool
  nq_pre_empt_vuln :: bool
  nq_gbr :: "NgapGbr option"

definition default_non_gbr :: NgapQosFlow where
  "default_non_gbr = \<lparr>nq_qfi = 1, nq_five_qi = 9, nq_arp_priority = 8, nq_pre_empt_cap = False, nq_pre_empt_vuln = False, nq_gbr = None\<rparr>"

record IcsPduSession =
  ics_psi :: u8
  ics_flows :: "NgapQosFlow list"
  ics_upf_teid :: u32
  ics_upf_addr :: u32

record InitialContext =
  ic_allowed_nssai :: "slice list"
  ic_ue_sec_cap :: "u8 \<times> u8"
  ic_security_key :: bytes
  ic_ue_ambr :: "(u64 \<times> u64) option"
  ic_rfsp :: "u16 option"
  ic_area_restriction :: "AreaRestriction option"
  ic_pdu_sessions :: "IcsPduSession list"
  ic_nas :: bytes
  ic_ue_radio_capability :: "bytes option"

datatype Cause = DEREGISTER | NORMAL_RELEASE | RELEASE_DUE_TO_5GC_GENERATED_REASON

datatype NgapOut =
    DownlinkNas u64 u32 bytes
  | DownlinkNasArea u64 u32 bytes "tac3 list" "tac3 list"
  | ReleaseCommand u64 u32 Cause
  | ContextModification u64 u32 "u16 option" "(u64 \<times> u64) option"
  | ContextSetup u64 u32 InitialContext
  | ResourceSetup u64 u32 u8 "NgapQosFlow list" u32 u32 "u64 \<times> u64" PduSessionType bytes
  | ResourceModify u64 u32 u8 "NgapQosFlow list" u64 u64 "u8 list" bytes
  | ResourceRelease u64 u32 u8 bytes
  | PagingOut u32 "tac3 list"
  | ResetAck "(u64 \<times> u32) list"
  | ComeBackLater u32 bytes

datatype action =
    ArmNasRetx u64 RetxKind
  | ArmT3522 u64
  | ArmT3555 u64
  | ArmReleaseGuard u64 u8
  | ArmRegistrationGuard u64 nat
  | UecmRegister string
  | UecmPurge string
  | SdmSubscribe string
  | SdmUnsubscribe string string
  | AmPolicyDelete string string
  | ReleaseSm string string
  | DeactivateUp string string
  | PageOn nat u32 "tac3 list"

record GnbLink =
  gl_tacs :: "tac3 list"
  gl_gnb_id :: "u32 option"
  gl_tx :: nat
  gl_closed :: bool

record Amf =
  ues :: "(u64 \<times> UeContext) list"
  ue_directory :: "(string \<times> u64 \<times> nat) list"
  guti_directory :: "(u32 \<times> string) list"
  retained :: "(u32 \<times> UeContext) list"
  next_amf_ue_id :: u64
  gnb_links :: "GnbLink list"
  sdm_subs :: "(string \<times> string) list"
  cbl_gate :: CblState
  cbl_leases :: "bool list"
  acts :: "action list"

subsection \<open>The services around the AMF\<close>

record AuthCtx =
  ac_ctx_id :: string
  ac_rand :: string
  ac_autn :: string
  ac_hxres_star :: string

record Confirmation =
  cf_auth_result :: string
  cf_kseaf :: "string option"
  cf_supi :: "string option"

record AmDataSlice =
  ad_sst :: "nat option"
  ad_sd :: "string option"

record AmData =
  ad_default_nssais :: "AmDataSlice list option"
  ad_ambr_downlink :: "string option"
  ad_ambr_uplink :: "string option"

record ServiceAreaRestriction =
  restriction_type :: string
  sar_tacs :: "string list"

record AmPolicy =
  ap_ue_ambr :: "(string \<times> string) option"
  ap_rfsp :: "u16 option"
  ap_serv_area_res :: "ServiceAreaRestriction option"

record SmContextCreated =
  sm_ref :: string
  up_n3_teid :: u32
  up_n3_addr :: u32
  sm_pdu_address :: PduAddress
  sm_pdu_type :: PduSessionType
  sm_cause :: "u8 option"
  sm_dns_ipv6 :: "128 word option"
  sm_snssai :: slice
  sm_ambr :: SessionAmbr
  sm_ngap_flows :: "NgapQosFlow list"
  sm_nas_flows :: "QosFlowDesc list"

datatype CreateSmError = Forbidden | InsufficientResources | OtherSmError string

record Env =
  e_nas :: nas_lib
  e_crypto :: crypto
  e_aka :: aka_lib
  e_channel :: nat
  e_now :: nat
  e_guard_secs :: nat
  ausf_discover :: "string option"
  ausf_authenticate :: "string \<Rightarrow> string \<Rightarrow> string \<Rightarrow> AuthCtx option"
  ausf_resync :: "string \<Rightarrow> string \<Rightarrow> string \<Rightarrow> string \<Rightarrow> string \<Rightarrow> AuthCtx option"
  ausf_confirm :: "string \<Rightarrow> string \<Rightarrow> string \<Rightarrow> Confirmation option"
  udm_am_data :: "string \<Rightarrow> AmData option"
  pcf_create :: "string \<Rightarrow> (string \<times> string \<times> AmPolicy) option"
  nssf_select :: "tac3 option \<Rightarrow> slice list \<Rightarrow> slice list \<Rightarrow> (slice list \<times> slice list) option"
  smf_select :: "slice option \<Rightarrow> string \<Rightarrow> string option"
  smf_create :: "string \<Rightarrow> string \<Rightarrow> u8 \<Rightarrow> string \<Rightarrow> slice option \<Rightarrow> PduSessionType option \<Rightarrow> CreateSmError + SmContextCreated"
  smf_activate :: "string \<Rightarrow> string \<Rightarrow> SmContextCreated option"

end
