(* ===== verification/Amf_Auth.thy ===== *)
theory Amf_Auth
  imports Amf_State
begin

unbundle bit_operations_syntax

section \<open>The AMF: registration up to NAS security\<close>

text \<open>
  \<open>auth.rs\<close> and the first half of a registration in \<open>main.rs\<close>: the initial UE message, identification,
  the challenge, its confirmation and the Security Mode Command.
\<close>

subsection \<open>State access\<close>

definition act :: "action \<Rightarrow> Amf \<Rightarrow> Amf" where
  "act a s = s\<lparr>acts := acts s @ [a]\<rparr>"

definition get_ue :: "u64 \<Rightarrow> Amf \<Rightarrow> UeContext option" where
  "get_ue i s = map_of (ues s) i"

definition put_ue :: "u64 \<Rightarrow> UeContext \<Rightarrow> Amf \<Rightarrow> Amf" where
  "put_ue i c s = s\<lparr>ues := AList.update i c (ues s)\<rparr>"

text \<open>The drop of an admission slot that nothing interrupts (\<open>SlotLease::release(false)\<close>).\<close>

definition drop_slot :: "nat option \<Rightarrow> Amf \<Rightarrow> Amf" where
  "drop_slot slot s = (case slot of
     Some n \<Rightarrow> if cbl_leases s ! n then s
       else s\<lparr>cbl_leases := (cbl_leases s)[n := True], cbl_gate := (cbl_gate s)\<lparr>ongoing := i64 (ongoing (cbl_gate s) - 1)\<rparr>\<rparr>
   | None \<Rightarrow> s)"

text \<open>\<open>ues.remove\<close> with the drop of the context: its admission slot is released.\<close>

definition remove_ue :: "u64 \<Rightarrow> Amf \<Rightarrow> Amf" where
  "remove_ue i s = (case get_ue i s of
     Some c \<Rightarrow> drop_slot (ue_cbl_slot c) (s\<lparr>ues := AList.delete i (ues s)\<rparr>) | None \<Rightarrow> s)"

definition directory_insert :: "string \<Rightarrow> u64 \<times> nat \<Rightarrow> Amf \<Rightarrow> Amf" where
  "directory_insert supi e s = s\<lparr>ue_directory := AList.update supi e (ue_directory s)\<rparr>"

definition directory_remove :: "string \<Rightarrow> Amf \<Rightarrow> Amf" where
  "directory_remove supi s = s\<lparr>ue_directory := AList.delete supi (ue_directory s)\<rparr>"

text \<open>\<open>gutis.retain(|_, s| s != supi)\<close>\<close>

definition guti_forget :: "string \<Rightarrow> Amf \<Rightarrow> Amf" where
  "guti_forget supi s = s\<lparr>guti_directory := filter (\<lambda>e. snd e \<noteq> supi) (guti_directory s)\<rparr>"

definition guti_assign :: "u32 \<Rightarrow> string \<Rightarrow> Amf \<Rightarrow> Amf" where
  "guti_assign tmsi supi s = (let t = guti_forget supi s in t\<lparr>guti_directory := AList.update tmsi supi (guti_directory t)\<rparr>)"

definition arm_nas_retx :: "u64 \<Rightarrow> RetxKind \<Rightarrow> Amf \<Rightarrow> Amf" where
  "arm_nas_retx i k s = act (ArmNasRetx i k) s"

definition registration_area_for :: "nat \<Rightarrow> tac3 option \<Rightarrow> Amf \<Rightarrow> tac3 list" where
  "registration_area_for tx t s =
    (let area = (case find (\<lambda>l. gl_tx l = tx) (gnb_links s) of Some l \<Rightarrow> gl_tacs l | None \<Rightarrow> []);
         area = (case t of Some tac \<Rightarrow> if tac \<in> set area then area else area @ [tac] | None \<Rightarrow> area)
     in take 16 area)"

definition sec_protect :: "Env \<Rightarrow> NasSecurityContext \<Rightarrow> Nas5gsMessage \<Rightarrow> u8 \<Rightarrow> bytes \<times> NasSecurityContext" where
  "sec_protect E sec msg sht = protect (e_crypto E) (encode_nas (e_nas E)) sec msg sht 1"

definition sec_unprotect :: "Env \<Rightarrow> NasSecurityContext \<Rightarrow> bytes \<Rightarrow> Nas5gsMessage option \<times> NasSecurityContext" where
  "sec_unprotect E sec raw = unprotect (e_crypto E) (decode_nas (e_nas E)) sec raw 0"

subsection \<open>Authentication with the AUSF\<close>

fun hex_decode :: "string \<Rightarrow> bytes option" where
  "hex_decode [] = Some []"
| "hex_decode [c] = None"
| "hex_decode (c # d # r) = (case (to_digit 16 c, to_digit 16 d, hex_decode r) of
     (Some h, Some l, Some bs) \<Rightarrow> Some (of_nat (16 * h + l) # bs) | _ \<Rightarrow> None)"

definition sized_hex :: "nat \<Rightarrow> string \<Rightarrow> bytes option" where
  "sized_hex n s = (case hex_decode s of Some b \<Rightarrow> if length b = n then Some b else None | None \<Rightarrow> None)"

definition hex16 :: "string \<Rightarrow> bytes option" where
  "hex16 s = sized_hex 16 s"

lemma hex_roundtrip: "hex_decode (hex_lower bs) = Some bs"
proof (induction bs)
  case (Cons b bs)
  have "unat b < 256" using unsigned_less[of b] by simp
  then have "to_digit 16 (digit_char (unat b div 16)) = Some (unat b div 16)" "to_digit 16 (digit_char (unat b mod 16)) = Some (unat b mod 16)"
    by (simp_all add: to_digit_digit_char)
  then show ?case using Cons by (simp add: hex_lower_def)
qed (simp add: hex_lower_def)

lemma sized_hex_lower: "sized_hex n (hex_lower bs) = (if length bs = n then Some bs else None)"
  by (simp add: sized_hex_def hex_roundtrip)

definition challenge :: "Env \<Rightarrow> string \<Rightarrow> AuthCtx \<Rightarrow> (PendingAuth \<times> bytes) option" where
  "challenge E base ctx = (case (hex16 (ac_rand ctx), hex16 (ac_autn ctx), hex16 (ac_hxres_star ctx)) of
     (Some rand, Some autn, Some hxres) \<Rightarrow>
       Some (\<lparr>pa_ausf_base = base, pa_ctx_id = ac_ctx_id ctx, pa_rand = rand, pa_hxres = hxres\<rparr>, authentication_request (e_nas E) 0 rand autn)
   | _ \<Rightarrow> None)"

definition auth_begin :: "Env \<Rightarrow> string \<Rightarrow> (PendingAuth \<times> bytes) option" where
  "auth_begin E supi = (case ausf_discover E of None \<Rightarrow> None
   | Some base \<Rightarrow> Option.bind (ausf_authenticate E base supi (serving_network_name PLMN_MCC PLMN_MNC)) (challenge E base))"

definition auth_resync :: "Env \<Rightarrow> PendingAuth \<Rightarrow> string \<Rightarrow> bytes \<Rightarrow> (PendingAuth \<times> bytes) option" where
  "auth_resync E pending supi auts =
     Option.bind (ausf_resync E (pa_ausf_base pending) supi (serving_network_name PLMN_MCC PLMN_MNC) (hex_lower (pa_rand pending)) (hex_lower auts))
       (challenge E (pa_ausf_base pending))"

record AuthOutcome =
  ao_success :: bool
  ao_kseaf :: "string option"
  ao_supi :: "string option"

definition auth_finish :: "Env \<Rightarrow> PendingAuth \<Rightarrow> bytes \<Rightarrow> AuthOutcome option" where
  "auth_finish E pending res_star =
    (if length res_star \<noteq> 16 \<or> hxres_star (e_aka E) (pa_rand pending) res_star \<noteq> pa_hxres pending
     then Some \<lparr>ao_success = False, ao_kseaf = None, ao_supi = None\<rparr>
     else map_option (\<lambda>conf. \<lparr>ao_success = cf_auth_result conf = ''AUTHENTICATION_SUCCESS'', ao_kseaf = cf_kseaf conf, ao_supi = cf_supi conf\<rparr>)
       (ausf_confirm E (pa_ausf_base pending) (pa_ctx_id pending) (hex_lower res_star)))"

subsection \<open>The initial UE message\<close>

datatype RegIdentity = IdSupi string | IdGutiTmsi u32 | IdUnknown

definition registration_identity :: "nas_lib \<Rightarrow> Nas5gsMessage \<Rightarrow> (RegIdentity \<times> (u8 \<times> u8) option \<times> slice list) option" where
  "registration_identity N msg = (case msg of
     Gmm _ (RegistrationRequest reg) \<Rightarrow>
       Some (case as_suci N (rr_mobile_identity reg) of Some suci \<Rightarrow> IdSupi (suci_to_supi suci)
             | None \<Rightarrow> (case as_guti N (rr_mobile_identity reg) of Some g \<Rightarrow> IdGutiTmsi (guti_tmsi g) | None \<Rightarrow> IdUnknown),
             map_option (\<lambda>c. (ea_byte N c, ia_byte N c)) (ue_security_capability reg),
             requested_nssai_from_registration_request msg)
   | _ \<Rightarrow> None)"

text \<open>The first element of each kind in an InitialUEMessage.\<close>

record InitialUE =
  iu_ran_id :: "u32 option"
  iu_nas :: "bytes option"
  iu_tac :: "tac3 option"
  iu_s_tmsi :: "u32 option"

datatype InitialUeOutcome = NeedIdentity NgapOut | IdentifiedAs u32 string

definition resolve_identity :: "Env \<Rightarrow> bytes option \<Rightarrow> Amf \<Rightarrow> string option \<times> (u8 \<times> u8) option \<times> slice list" where
  "resolve_identity E nas s = (case Option.bind (Option.bind nas (decode_nas (e_nas E))) (registration_identity (e_nas E)) of
     Some (IdSupi supi, cap, nssai) \<Rightarrow> (Some supi, cap, nssai)
   | Some (IdGutiTmsi tmsi, cap, nssai) \<Rightarrow> (map_of (guti_directory s) tmsi, cap, nssai)
   | Some (IdUnknown, cap, nssai) \<Rightarrow> (None, cap, nssai)
   | None \<Rightarrow> (None, None, []))"

definition on_initial_ue :: "Env \<Rightarrow> InitialUE \<Rightarrow> u64 \<Rightarrow> Amf \<Rightarrow> InitialUeOutcome option \<times> Amf" where
  "on_initial_ue E msg i s = (case iu_ran_id msg of None \<Rightarrow> (None, s) | Some ran_ue_id \<Rightarrow>
     (case resolve_identity E (iu_nas msg) s of
       (Some supi, cap, nssai) \<Rightarrow>
         (let c = (ue_new (e_now E) ran_ue_id Identified (Some supi))\<lparr>ue_sec_cap := cap, ue_requested_nssai := nssai, ue_tac := iu_tac msg,
                    ue_registration_area := registration_area_for (e_channel E) (iu_tac msg) s\<rparr>
          in (Some (IdentifiedAs ran_ue_id supi), directory_insert supi (i, e_channel E) (put_ue i c s)))
     | (None, cap, nssai) \<Rightarrow>
         (let ident = identity_request_suci (e_nas E);
              c = guard_retx RetxIdentityRequest ident
                    ((ue_new (e_now E) ran_ue_id IdentityRequested None)\<lparr>ue_sec_cap := cap, ue_requested_nssai := nssai, ue_tac := iu_tac msg\<rparr>)
          in (Some (NeedIdentity (DownlinkNas i ran_ue_id ident)), arm_nas_retx i RetxIdentityRequest (put_ue i c s)))))"

text \<open>A context that waits for the answer to a challenge.\<close>

definition challenged :: "nat \<Rightarrow> PendingAuth \<Rightarrow> bytes \<Rightarrow> UeContext \<Rightarrow> UeContext" where
  "challenged now pending nas_req c = guard_retx RetxAuthRequest nas_req (c\<lparr>ue_auth := Some pending, ue_state := Authenticating, ue_reg_progress_at := now\<rparr>)"

definition start_authentication :: "Env \<Rightarrow> u64 \<Rightarrow> u32 \<Rightarrow> string \<Rightarrow> Amf \<Rightarrow> NgapOut list \<times> Amf" where
  "start_authentication E i ran_ue_id supi s = (case auth_begin E supi of
     Some (pending, nas_req) \<Rightarrow>
       (let s = (case get_ue i s of Some c \<Rightarrow> put_ue i (challenged (e_now E) pending nas_req c) s | None \<Rightarrow> s)
        in ([DownlinkNas i ran_ue_id nas_req], arm_nas_retx i RetxAuthRequest s))
   | None \<Rightarrow> ([], s))"

text \<open>A fresh InitialUEMessage in \<open>handle_ngap\<close>: the admission gate, then the registration and its guard.\<close>

definition fresh_initial_ue :: "Env \<Rightarrow> InitialUE \<Rightarrow> Amf \<Rightarrow> NgapOut list \<times> Amf" where
  "fresh_initial_ue E msg s =
    (let (g, ls, adm) = admit (cbl_gate s) (cbl_leases s); s = s\<lparr>cbl_gate := g, cbl_leases := ls\<rparr>
     in case adm of
       Adm_Deferred retry \<Rightarrow> (case iu_ran_id msg of Some rid \<Rightarrow> [ComeBackLater rid (snd (send_come_back_later rid retry))] | None \<Rightarrow> [], s)
     | _ \<Rightarrow>
       (let slot = (case adm of Adm_Admitted n \<Rightarrow> Some n | _ \<Rightarrow> None); i = next_amf_ue_id s;
            (outcome, s) = on_initial_ue E msg i (s\<lparr>next_amf_ue_id := next_amf_ue_id s + 1\<rparr>)
        in case outcome of
          None \<Rightarrow> ([], drop_slot slot s)
        | Some out \<Rightarrow>
           (let s = (case get_ue i s of Some c \<Rightarrow> put_ue i (c\<lparr>ue_cbl_slot := slot\<rparr>) s | None \<Rightarrow> drop_slot slot s);
                s = act (ArmRegistrationGuard i (e_guard_secs E)) s
            in case out of NeedIdentity dl \<Rightarrow> ([dl], s) | IdentifiedAs rid supi \<Rightarrow> start_authentication E i rid supi s)))"

subsection \<open>The challenge and the security context\<close>

definition establish_security :: "Env \<Rightarrow> string \<Rightarrow> string \<Rightarrow> u8 \<times> u8 \<Rightarrow> (NasSecurityContext \<times> bytes \<times> u8 \<times> u8 \<times> bytes) option" where
  "establish_security E kseaf_hex supi cap = (case (select_algo (fst cap) NEA_PRIORITY, select_algo (snd cap) NIA_PRIORITY, sized_hex 32 kseaf_hex) of
     (Some nea, Some nia, Some ks) \<Rightarrow>
       (let ka = kamf (e_aka E) ks supi ABBA;
            keys = nas_keys (e_aka E) ka nea nia;
            (bytes, sec) = sec_protect E (security_new (NasKeys.knas_int keys) (NasKeys.knas_enc keys) nia nea)
              (security_mode_command nea nia NGKSI [fst cap, snd cap]) INTEGRITY_NEW_CONTEXT
        in Some (sec, bytes, nea, nia, ka))
   | _ \<Rightarrow> None)"

definition complete_authentication :: "Env \<Rightarrow> u64 \<Rightarrow> Nas5gsMessage \<Rightarrow> Amf \<Rightarrow> NgapOut list \<times> Amf" where
  "complete_authentication E i msg s = (case get_ue i s of None \<Rightarrow> ([], s) | Some c \<Rightarrow>
     (let s = put_ue i (c\<lparr>ue_pending_retx := None, ue_auth := None\<rparr>) s in
      case ue_auth c of None \<Rightarrow> ([], s) | Some pending \<Rightarrow>
      (let outcome = Option.bind (res_star_from_authentication_response msg) (auth_finish E pending) in
       if \<not> (case outcome of Some out \<Rightarrow> ao_success out | None \<Rightarrow> False)
       then ([DownlinkNas i (ue_ran_id c) (authentication_reject (e_nas E)), ReleaseCommand i (ue_ran_id c) NORMAL_RELEASE],
             remove_ue i (case ue_suci c of Some supi \<Rightarrow> directory_remove supi s | None \<Rightarrow> s))
       else case (Option.bind outcome ao_kseaf, Option.bind outcome ao_supi) of
         (Some ks, Some supi) \<Rightarrow>
           (case establish_security E ks supi (unwrap_or (ue_sec_cap c) UE_SEC_CAP) of
              None \<Rightarrow> ([], s)
            | Some (sec, smc_bytes, nea, nia, ka) \<Rightarrow>
                (let c' = guard_retx RetxSecurityModeCommand smc_bytes
                       (c\<lparr>ue_auth := None, ue_sec := Some sec, ue_kamf := Some ka, ue_state := SecurityMode, ue_reg_progress_at := e_now E\<rparr>)
                 in ([DownlinkNas i (ue_ran_id c) smc_bytes], arm_nas_retx i RetxSecurityModeCommand (put_ue i c' s))))
       | _ \<Rightarrow> ([], s))))"

definition on_authentication_failure :: "Env \<Rightarrow> u64 \<Rightarrow> Nas5gsMessage \<Rightarrow> Amf \<Rightarrow> NgapOut list \<times> Amf" where
  "on_authentication_failure E i msg s = (case authentication_failure_info msg of None \<Rightarrow> ([], s) | Some (cause, auts) \<Rightarrow>
     (case get_ue i s of None \<Rightarrow> ([], s) | Some c \<Rightarrow>
       (let aborted = ([ReleaseCommand i (ue_ran_id c) NORMAL_RELEASE], remove_ue i s) in
        if \<not> (cause = GMM_CAUSE_SYNCH_FAILURE \<and> auts \<noteq> None \<and> \<not> ue_resync_attempted c) then aborted
        else case (ue_auth c, ue_suci c) of
          (Some pending, Some supi) \<Rightarrow>
            (case auth_resync E pending supi (the auts) of
               Some (fresh, nas_req) \<Rightarrow> ([DownlinkNas i (ue_ran_id c) nas_req], put_ue i (c\<lparr>ue_auth := Some fresh, ue_resync_attempted := True\<rparr>) s)
             | None \<Rightarrow> aborted)
        | _ \<Rightarrow> aborted)))"

definition on_identity_response :: "Env \<Rightarrow> u64 \<Rightarrow> Nas5gsMessage \<Rightarrow> Amf \<Rightarrow> NgapOut list \<times> Amf" where
  "on_identity_response E i msg s = (case get_ue i s of None \<Rightarrow> ([], s) | Some c \<Rightarrow>
     if ue_state c \<noteq> IdentityRequested then ([], s) else
     (case supi_from_identity_response (e_nas E) msg of None \<Rightarrow> ([], s) | Some supi \<Rightarrow>
       (case auth_begin E supi of None \<Rightarrow> ([], s) | Some (pending, nas_req) \<Rightarrow>
         (let c' = challenged (e_now E) pending nas_req
                (c\<lparr>ue_suci := Some supi, ue_registration_area := registration_area_for (e_channel E) (ue_tac c) s\<rparr>)
          in ([DownlinkNas i (ue_ran_id c) nas_req],
              arm_nas_retx i RetxAuthRequest (directory_insert supi (i, e_channel E) (put_ue i c' s)))))))"

end
