(* ===== verification/Amf_Nas.thy ===== *)
theory Amf_Nas
  imports Amf_Auth
begin

unbundle bit_operations_syntax

section \<open>The AMF: uplink NAS\<close>

text \<open>
  The second half of a registration, deregistration, configuration updates and PDU sessions: everything an uplink NAS
  message of a known UE sets off (\<open>on_uplink_nas\<close>, \<open>dispatch_uplink_nas\<close> and what they call).
\<close>

subsection \<open>Subscription and policy\<close>

definition compute_nssai :: "slice list \<Rightarrow> slice list \<Rightarrow> slice list \<times> slice list" where
  "compute_nssai requested subscribed = (if requested = [] then (subscribed, [])
     else (filter (\<lambda>sl. sl \<in> set subscribed) requested, filter (\<lambda>sl. sl \<notin> set subscribed) requested))"

text \<open>\<open>u32::from_str_radix(s, 16)\<close>: an optional sign, then hexadecimal digits.\<close>

definition u32_from_hex :: "string \<Rightarrow> u32 option" where
  "u32_from_hex s = (let ds = (case s of c # cs \<Rightarrow> if c = CHR ''+'' then cs else s | [] \<Rightarrow> [])
     in if ds \<noteq> [] \<and> list_all (is_digit 16) ds \<and> digits_value 16 ds < 2 ^ 32 then Some (of_nat (digits_value 16 ds)) else None)"

definition parse_tac :: "string \<Rightarrow> tac3 option" where
  "parse_tac s = (if length s \<noteq> 6 then None
     else map_option (\<lambda>v. (ucast (drop_bit 16 v), ucast (drop_bit 8 v), ucast v)) (u32_from_hex s))"

definition area_restriction_tacs :: "ServiceAreaRestriction \<Rightarrow> AreaRestriction option" where
  "area_restriction_tacs sar = (let tacs = List.map_filter parse_tac (sar_tacs sar) in
     if tacs = [] then None else if restriction_type sar = ''ALLOWED_AREAS'' then Some (tacs, []) else Some ([], tacs))"

definition am_data_slice :: "AmDataSlice \<Rightarrow> slice option" where
  "am_data_slice a = (case ad_sst a of
     Some n \<Rightarrow> if n < 256 then Some (of_nat n, map_option (\<lambda>b. (b ! 0, b ! 1, b ! 2)) (Option.bind (ad_sd a) (sized_hex 3))) else None
   | None \<Rightarrow> None)"

definition fetch_am_data :: "Env \<Rightarrow> string \<Rightarrow> slice list option \<times> (u64 \<times> u64) option" where
  "fetch_am_data E supi = (case udm_am_data E supi of None \<Rightarrow> (None, None) | Some am \<Rightarrow>
     (let slices = List.map_filter am_data_slice (unwrap_or (ad_default_nssais am) []) in
      (if slices \<noteq> [] then Some slices else None,
       (case (Option.bind (ad_ambr_downlink am) bitrate_to_bps, Option.bind (ad_ambr_uplink am) bitrate_to_bps) of
          (Some dl, Some ul) \<Rightarrow> Some (dl, ul) | _ \<Rightarrow> None))))"

definition apply_am_policy :: "(string \<times> string \<times> AmPolicy) option \<Rightarrow> UeContext \<Rightarrow> UeContext" where
  "apply_am_policy am c = (case am of None \<Rightarrow> c | Some (pcf_base, assoc_id, policy) \<Rightarrow>
     (let c = (case ap_ue_ambr policy of Some (downlink_rate, uplink_rate) \<Rightarrow>
                 (case (bitrate_to_bps downlink_rate, bitrate_to_bps uplink_rate) of
                    (Some dl, Some ul) \<Rightarrow> c\<lparr>ue_pcf_ambr := Some (dl, ul)\<rparr> | _ \<Rightarrow> c) | None \<Rightarrow> c)
      in c\<lparr>ue_rfsp := ap_rfsp policy, ue_area_restriction := Option.bind (ap_serv_area_res policy) area_restriction_tacs,
           ue_am_policy := Some (pcf_base, assoc_id)\<rparr>))"

definition am_policy_delete :: "(string \<times> string) option \<Rightarrow> Amf \<Rightarrow> Amf" where
  "am_policy_delete am s = (case am of Some (base, assoc) \<Rightarrow> act (AmPolicyDelete base assoc) s | None \<Rightarrow> s)"

definition sdm_unsubscribe :: "string \<Rightarrow> Amf \<Rightarrow> Amf" where
  "sdm_unsubscribe supi s = (case map_of (sdm_subs s) supi of
     Some sub \<Rightarrow> act (SdmUnsubscribe supi sub) (s\<lparr>sdm_subs := AList.delete supi (sdm_subs s)\<rparr>) | None \<Rightarrow> s)"

definition forget_subscription :: "string \<Rightarrow> Amf \<Rightarrow> Amf" where
  "forget_subscription supi s = act (UecmPurge supi) (sdm_unsubscribe supi s)"

text \<open>The service area of an Initial Context Setup: nothing when both lists are empty.\<close>

definition ics_area :: "AreaRestriction option \<Rightarrow> AreaRestriction option" where
  "ics_area a = (let (allowed, not_allowed) = unwrap_or a ([], []) in
     if allowed \<noteq> [] \<or> not_allowed \<noteq> [] then Some (allowed, not_allowed) else None)"

subsection \<open>Security Mode Complete\<close>

definition choose_nssai :: "Env \<Rightarrow> UeContext \<Rightarrow> slice list option \<Rightarrow> slice list \<times> slice list" where
  "choose_nssai E c subscribed = (case subscribed of
     Some sub \<Rightarrow> (case nssf_select E (ue_tac c) (ue_requested_nssai c) sub of Some decision \<Rightarrow> decision
       | None \<Rightarrow> compute_nssai (ue_requested_nssai c) sub)
   | None \<Rightarrow> ([], []))"

definition on_security_mode_complete :: "Env \<Rightarrow> u64 \<Rightarrow> Amf \<Rightarrow> NgapOut list \<times> Amf" where
  "on_security_mode_complete E i s = (case get_ue i s of None \<Rightarrow> ([], s) | Some c \<Rightarrow>
     (let supi = ue_suci c;
          (subscribed, am_ambr) = (case supi of Some su \<Rightarrow> fetch_am_data E su | None \<Rightarrow> (None, None));
          am = Option.bind supi (pcf_create E);
          tmsi = ucast i;
          c = recompute_ue_ambr (apply_am_policy am (c\<lparr>ue_pending_retx := None, ue_subscribed_ambr := or_else am_ambr (ue_subscribed_ambr c)\<rparr>));
          c = c\<lparr>ue_guti_tmsi := Some tmsi\<rparr>;
          (allowed, rejected) = choose_nssai E c subscribed
      in if subscribed \<noteq> None \<and> allowed = [] then
        (case ue_sec c of None \<Rightarrow> ([], put_ue i c s) | Some sec \<Rightarrow>
          (let (bytes, sec) = sec_protect E sec (registration_reject NO_NETWORK_SLICES_AVAILABLE rejected (Some (timer2_from_secs REG_REJECT_BACKOFF_SECS))) INTEGRITY_CIPHERED;
               s = put_ue i (c\<lparr>ue_sec := Some sec\<rparr>) s
           in ([DownlinkNas i (ue_ran_id c) bytes, ReleaseCommand i (ue_ran_id c) NORMAL_RELEASE],
               remove_ue i (case supi of Some su \<Rightarrow> directory_remove su s | None \<Rightarrow> s))))
      else
        (let c = c\<lparr>ue_allowed_nssai := (if subscribed \<noteq> None then Some allowed else None)\<rparr> in
         case ue_sec c of None \<Rightarrow> ([], put_ue i c s) | Some sec \<Rightarrow>
          (let s = (case supi of Some su \<Rightarrow> guti_assign tmsi su s | None \<Rightarrow> s);
               accept = registration_accept (e_nas E) PLMN_MCC PLMN_MNC tmsi allowed rejected T3512_SECS (ue_registration_area c) None;
               kg = map_option (\<lambda>k. kgnb (e_aka E) k (ul_count sec - 1)) (ue_kamf c);
               (bytes, sec) = sec_protect E sec accept INTEGRITY_CIPHERED;
               c = guard_retx RetxRegistrationAccept bytes (c\<lparr>ue_sec := Some sec\<rparr>)
           in case kg of
             None \<Rightarrow> ([DownlinkNas i (ue_ran_id c) bytes], arm_nas_retx i RetxRegistrationAccept (put_ue i c s))
           | Some key \<Rightarrow>
              (let c = c\<lparr>ue_nh_chain := Some (key, 0)\<rparr>;
                   ic = \<lparr>ic_allowed_nssai = allowed, ic_ue_sec_cap = unwrap_or (ue_sec_cap c) UE_SEC_CAP, ic_security_key = key,
                     ic_ue_ambr = ue_ambr c, ic_rfsp = ue_rfsp c, ic_area_restriction = ics_area (ue_area_restriction c),
                     ic_pdu_sessions = [], ic_nas = bytes, ic_ue_radio_capability = ue_radio_capability c\<rparr>
               in ([ContextSetup i (ue_ran_id c) ic], arm_nas_retx i RetxRegistrationAccept (put_ue i c s)))))))"

subsection \<open>Deregistration\<close>

definition release_sessions :: "(u8 \<times> string \<times> string) list \<Rightarrow> Amf \<Rightarrow> Amf" where
  "release_sessions refs s = s\<lparr>acts := acts s @ map (\<lambda>(_, r, base). ReleaseSm base r) refs\<rparr>"

definition on_deregistration :: "Env \<Rightarrow> u64 \<Rightarrow> Nas5gsMessage \<Rightarrow> Amf \<Rightarrow> NgapOut list \<times> Amf" where
  "on_deregistration E i msg s = (case get_ue i s of None \<Rightarrow> ([], s) | Some c \<Rightarrow>
     (let switch_off = unwrap_or (deregistration_is_switch_off msg) False;
          s = release_sessions (ue_sm_refs c) s;
          (accept, sec) = (if switch_off then ([], ue_sec c) else case ue_sec c of
              Some sec \<Rightarrow> (let (bytes, sec) = sec_protect E sec deregistration_accept INTEGRITY_CIPHERED in ([DownlinkNas i (ue_ran_id c) bytes], Some sec))
            | None \<Rightarrow> ([], None));
          s = put_ue i (c\<lparr>ue_sm_refs := [], ue_sec := sec, ue_am_policy := None\<rparr>) s;
          s = (case ue_suci c of Some supi \<Rightarrow> forget_subscription supi (directory_remove supi s) | None \<Rightarrow> s);
          s = am_policy_delete (ue_am_policy c) s
      in (accept @ [ReleaseCommand i (ue_ran_id c) DEREGISTER], remove_ue i s)))"

definition on_deregistration_accept :: "u64 \<Rightarrow> Amf \<Rightarrow> NgapOut list \<times> Amf" where
  "on_deregistration_accept i s = (case get_ue i s of None \<Rightarrow> ([], s) | Some c \<Rightarrow>
     if ue_dereg_attempts c = None then ([], s)
     else (let s = am_policy_delete (ue_am_policy c) s;
               s = (case ue_suci c of Some supi \<Rightarrow> forget_subscription supi (guti_forget supi (directory_remove supi s)) | None \<Rightarrow> s)
           in ([ReleaseCommand i (ue_ran_id c) DEREGISTER], remove_ue i s)))"

subsection \<open>Registration Complete and configuration updates\<close>

definition on_registration_complete :: "Env \<Rightarrow> u64 \<Rightarrow> Amf \<Rightarrow> NgapOut list \<times> Amf" where
  "on_registration_complete E i s = (case get_ue i s of None \<Rightarrow> ([], s) | Some c \<Rightarrow>
     (let s = drop_slot (ue_cbl_slot c) s;
          c = c\<lparr>ue_state := Registered, ue_pending_retx := None, ue_cbl_slot := None\<rparr>;
          s = (case ue_suci c of Some supi \<Rightarrow> act (SdmSubscribe supi) (act (UecmRegister supi) s) | None \<Rightarrow> s)
      in case ue_sec c of None \<Rightarrow> ([], put_ue i c s) | Some sec \<Rightarrow>
        (let (bytes, sec) = sec_protect E sec configuration_update_command INTEGRITY_CIPHERED
         in ([DownlinkNas i (ue_ran_id c) bytes], put_ue i (c\<lparr>ue_sec := Some sec\<rparr>) s))))"

definition on_configuration_update_complete :: "u64 \<Rightarrow> Amf \<Rightarrow> NgapOut list \<times> Amf" where
  "on_configuration_update_complete i s = (case get_ue i s of None \<Rightarrow> ([], s)
   | Some c \<Rightarrow> ([], put_ue i (c\<lparr>ue_pending_config := None\<rparr>) s))"

subsection \<open>PDU sessions\<close>

definition finalize_release :: "u64 \<Rightarrow> u8 \<Rightarrow> Amf \<Rightarrow> Amf" where
  "finalize_release i psi s = (case get_ue i s of None \<Rightarrow> s | Some c \<Rightarrow>
     if psi \<notin> set (ue_releasing c) then s
     else (let s = (case map_of (ue_sm_refs c) psi of Some (r, base) \<Rightarrow> act (ReleaseSm base r) s | None \<Rightarrow> s)
           in put_ue i (c\<lparr>ue_sm_refs := AList.delete psi (ue_sm_refs c), ue_releasing := removeAll psi (ue_releasing c)\<rparr>) s))"

text \<open>A downlink that the context protects, or none without a security context.\<close>

definition protected_downlink :: "Env \<Rightarrow> u64 \<Rightarrow> UeContext \<Rightarrow> Nas5gsMessage \<Rightarrow> Amf \<Rightarrow> NgapOut list \<times> Amf" where
  "protected_downlink E i c msg s = (case ue_sec c of None \<Rightarrow> ([], s) | Some sec \<Rightarrow>
     (let (bytes, sec) = sec_protect E sec msg INTEGRITY_CIPHERED
      in ([DownlinkNas i (ue_ran_id c) bytes], put_ue i (c\<lparr>ue_sec := Some sec\<rparr>) s)))"

definition session_reject :: "Env \<Rightarrow> u64 \<Rightarrow> UeContext \<Rightarrow> u8 \<Rightarrow> u8 \<Rightarrow> u8 \<Rightarrow> u8 option \<Rightarrow> Amf \<Rightarrow> NgapOut list \<times> Amf" where
  "session_reject E i c psi pti cause backoff s =
     protected_downlink E i c (dl_nas_transport_sm psi (pdu_session_establishment_reject psi pti cause backoff)) s"

definition no_dnn_cause :: "slice option \<Rightarrow> u8" where
  "no_dnn_cause snssai = (if snssai \<noteq> None then MISSING_OR_UNKNOWN_DNN_IN_SLICE else MISSING_OR_UNKNOWN_DNN)"

definition create_error_cause :: "CreateSmError \<Rightarrow> slice option \<Rightarrow> u8 \<times> u8 option" where
  "create_error_cause e snssai = (case e of
     Forbidden \<Rightarrow> (no_dnn_cause snssai, Some (timer3_from_secs REJECT_BACKOFF_SECS))
   | InsufficientResources \<Rightarrow> (INSUFFICIENT_RESOURCES, None)
   | OtherSmError _ \<Rightarrow> (REQUEST_REJECTED_UNSPECIFIED, None))"

definition session_created :: "Env \<Rightarrow> u64 \<Rightarrow> UeContext \<Rightarrow> u8 \<Rightarrow> u8 \<Rightarrow> string \<Rightarrow> bytes \<Rightarrow> string \<Rightarrow> SmContextCreated \<Rightarrow> Amf \<Rightarrow> NgapOut list \<times> Amf" where
  "session_created E i c psi pti dnn container smf_base created s =
    (let flows = (if sm_ngap_flows created = [] then [default_non_gbr] else sm_ngap_flows created);
         dns = (if pco_requests_ipv6_dns container then sm_dns_ipv6 created else None);
         accept = pdu_session_establishment_accept psi pti (sm_pdu_address created) dnn (sm_snssai created) (sm_ambr created)
           (sm_nas_flows created) (sm_cause created) dns;
         c = c\<lparr>ue_sm_refs := AList.update psi (sm_ref created, smf_base) (ue_sm_refs c),
               ue_session_snssai := AList.update psi (sm_snssai created) (ue_session_snssai c)\<rparr>
     in case ue_sec c of None \<Rightarrow> ([], put_ue i c s) | Some sec \<Rightarrow>
       (let (bytes, sec) = sec_protect E sec (dl_nas_transport_sm psi accept) INTEGRITY_CIPHERED
        in ([ResourceSetup i (ue_ran_id c) psi flows (up_n3_teid created) (up_n3_addr created) (unwrap_or (ue_ambr c) DEFAULT_UE_AMBR_BPS) (sm_pdu_type created) bytes],
            put_ue i (c\<lparr>ue_sec := Some sec\<rparr>) s)))"

definition on_ul_nas_transport :: "Env \<Rightarrow> u64 \<Rightarrow> Nas5gsMessage \<Rightarrow> Amf \<Rightarrow> NgapOut list \<times> Amf" where
  "on_ul_nas_transport E i msg s = (case sm_container_from_ul_nas_transport msg of None \<Rightarrow> ([], s) | Some (psi, container) \<Rightarrow>
     if is_pdu_session_release_complete container then ([], finalize_release i psi s) else
     (case get_ue i s of None \<Rightarrow> ([], s) | Some c \<Rightarrow> (case ue_suci c of None \<Rightarrow> ([], s) | Some supi \<Rightarrow>
       (let dnn = unwrap_or (requested_dnn_from_ul_nas_transport (e_nas E) msg) DEFAULT_DNN;
            snssai = requested_snssai_from_ul_nas_transport (e_nas E) msg;
            pti = (if 2 < length container then container ! 2 else 1);
            outside = (case (snssai, ue_allowed_nssai c) of (Some requested, Some allowed) \<Rightarrow> requested \<notin> set allowed | _ \<Rightarrow> False)
        in if outside then session_reject E i c psi pti MISSING_OR_UNKNOWN_DNN_IN_SLICE (Some (timer3_from_secs REJECT_BACKOFF_SECS)) s
        else case smf_select E snssai dnn of
          None \<Rightarrow> session_reject E i c psi pti (no_dnn_cause snssai) (Some (timer3_from_secs REJECT_BACKOFF_SECS)) s
        | Some smf_base \<Rightarrow>
          (case smf_create E smf_base supi psi dnn snssai (requested_pdu_session_type container) of
             Inr created \<Rightarrow> session_created E i c psi pti dnn container smf_base created s
           | Inl e \<Rightarrow> (let (cause, backoff) = create_error_cause e snssai in session_reject E i c psi pti cause backoff s))))))"

subsection \<open>Dispatch\<close>

definition dispatch_uplink_nas :: "Env \<Rightarrow> u64 \<Rightarrow> Nas5gsMessage \<Rightarrow> Amf \<Rightarrow> NgapOut list \<times> Amf" where
  "dispatch_uplink_nas E i msg s = (case gmm_message_type msg of
     Some TAuthenticationFailure \<Rightarrow> on_authentication_failure E i msg s
   | Some TIdentityResponse \<Rightarrow> on_identity_response E i msg s
   | Some TDeregistrationAcceptToUe \<Rightarrow> on_deregistration_accept i s
   | Some TRegistrationComplete \<Rightarrow> on_registration_complete E i s
   | Some TConfigurationUpdateComplete \<Rightarrow> on_configuration_update_complete i s
   | Some TUlNasTransport \<Rightarrow> on_ul_nas_transport E i msg s
   | _ \<Rightarrow> ([], s))"

definition uplink_nas :: "Env \<Rightarrow> u64 \<Rightarrow> Nas5gsMessage \<Rightarrow> Amf \<Rightarrow> NgapOut list \<times> Amf" where
  "uplink_nas E i msg s = (case gmm_message_type msg of
     Some TAuthenticationResponse \<Rightarrow> complete_authentication E i msg s
   | Some TSecurityModeComplete \<Rightarrow> on_security_mode_complete E i s
   | Some TDeregistrationRequestFromUe \<Rightarrow> on_deregistration E i msg s
   | _ \<Rightarrow> dispatch_uplink_nas E i msg s)"

definition on_uplink_nas :: "Env \<Rightarrow> u64 option \<Rightarrow> bytes option \<Rightarrow> Amf \<Rightarrow> NgapOut list \<times> Amf" where
  "on_uplink_nas E amf_ue_id raw s = (case amf_ue_id of None \<Rightarrow> ([], s) | Some i \<Rightarrow>
     (case get_ue i s of None \<Rightarrow> ([], s) | Some c \<Rightarrow> (case raw of None \<Rightarrow> ([], s) | Some raw \<Rightarrow>
       (case ue_sec c of
          Some sec \<Rightarrow> (let (m, sec) = sec_unprotect E sec raw; s = put_ue i (c\<lparr>ue_sec := Some sec\<rparr>) s in
            case m of None \<Rightarrow> ([], s) | Some msg \<Rightarrow> uplink_nas E i msg s)
        | None \<Rightarrow> (case decode_nas (e_nas E) raw of None \<Rightarrow> ([], s) | Some msg \<Rightarrow> uplink_nas E i msg s)))))"

end
