(* ===== verification/Amf_Procedures.thy ===== *)
theory Amf_Procedures
  imports Amf_Nas
begin

unbundle bit_operations_syntax

section \<open>The AMF: network-initiated procedures and CM-IDLE\<close>

text \<open>
  What the network starts or a timer fires (\<open>UeCmd\<close> of \<open>main.rs\<close>): deregistration, configuration updates, policy and
  subscription changes, session modification and release, retransmissions and guards; and the way into CM-IDLE and back:
  AN release, NG Reset, paging, the implicit-deregistration sweep and the Service Request.
\<close>

subsection \<open>Commands of the association\<close>

record ModifyPolicy =
  mp_psi :: u8
  mp_ambr_nas :: SessionAmbr
  mp_ambr_dl_bps :: u64
  mp_ambr_ul_bps :: u64
  mp_ngap_flows :: "NgapQosFlow list"
  mp_nas_flows :: "QosFlowDesc list"
  mp_released_qfis :: "u8 list"

definition config_update_downlink :: "u64 \<Rightarrow> u32 \<Rightarrow> bytes \<Rightarrow> AreaRestriction option \<Rightarrow> NgapOut" where
  "config_update_downlink i ran_ue_id cuc_bytes area = (case area of
     Some (allowed, not_allowed) \<Rightarrow> DownlinkNasArea i ran_ue_id cuc_bytes allowed not_allowed
   | None \<Rightarrow> DownlinkNas i ran_ue_id cuc_bytes)"

definition push_tracked_config_update :: "Env \<Rightarrow> u64 \<Rightarrow> UeContext \<Rightarrow> Nas5gsMessage \<Rightarrow> AreaRestriction option \<Rightarrow> Amf \<Rightarrow> NgapOut list \<times> Amf" where
  "push_tracked_config_update E i c cuc area s = (case ue_sec c of None \<Rightarrow> ([], put_ue i c s) | Some sec \<Rightarrow>
     (let (bytes, sec) = sec_protect E sec cuc INTEGRITY_CIPHERED;
          c = c\<lparr>ue_sec := Some sec, ue_pending_config := Some \<lparr>cfg_cuc = cuc, cfg_area = area, cfg_attempts = 1\<rparr>\<rparr>
      in ([config_update_downlink i (ue_ran_id c) bytes area], act (ArmT3555 i) (put_ue i c s))))"

definition on_am_policy_update :: "Env \<Rightarrow> u64 \<Rightarrow> PendingAmPolicy \<Rightarrow> Amf \<Rightarrow> NgapOut list \<times> Amf" where
  "on_am_policy_update E i p s = (case get_ue i s of None \<Rightarrow> ([], s) | Some c \<Rightarrow>
     (let c = recompute_ue_ambr (c\<lparr>ue_pcf_ambr := fu_apply (pol_ue_ambr p) (ue_pcf_ambr c)\<rparr>);
          c = c\<lparr>ue_rfsp := fu_apply (pol_rfsp p) (ue_rfsp c), ue_area_restriction := fu_apply (pol_area p) (ue_area_restriction c)\<rparr>;
          (dl, s) = push_tracked_config_update E i c (configuration_update_command_with_nssai [] False True) (ue_area_restriction c) s
      in (ContextModification i (ue_ran_id c) (ue_rfsp c) (ue_ambr c) # dl, s)))"

fun release_each :: "Env \<Rightarrow> u64 \<Rightarrow> u8 \<Rightarrow> u8 list \<Rightarrow> UeContext \<Rightarrow> NasSecurityContext \<Rightarrow> Amf \<Rightarrow> NgapOut list \<times> Amf" where
  "release_each E i cause [] c sec s = ([], put_ue i (c\<lparr>ue_sec := Some sec\<rparr>) s)"
| "release_each E i cause (psi # psis) c sec s = (if psi \<notin> fst ` set (ue_sm_refs c) then release_each E i cause psis c sec s
     else (let (bytes, sec) = sec_protect E sec (dl_nas_transport_sm psi (pdu_session_release_command psi 0 cause)) INTEGRITY_CIPHERED;
               (dl, s) = release_each E i cause psis (c\<lparr>ue_releasing := List.insert psi (ue_releasing c)\<rparr>) sec (act (ArmReleaseGuard i psi) s)
           in (ResourceRelease i (ue_ran_id c) psi bytes # dl, s)))"

definition on_network_release :: "Env \<Rightarrow> u64 \<Rightarrow> u8 list \<Rightarrow> u8 \<Rightarrow> Amf \<Rightarrow> NgapOut list \<times> Amf" where
  "on_network_release E i psis cause s = (case get_ue i s of None \<Rightarrow> ([], s) | Some c \<Rightarrow>
     (case ue_sec c of None \<Rightarrow> ([], s) | Some sec \<Rightarrow> release_each E i cause psis c sec s))"

definition on_sdm_data_change :: "Env \<Rightarrow> u64 \<Rightarrow> (u64 \<times> u64) option \<Rightarrow> slice list option \<Rightarrow> Amf \<Rightarrow> NgapOut list \<times> Amf" where
  "on_sdm_data_change E i new_ambr new_nssai s = (case get_ue i s of None \<Rightarrow> ([], s) | Some c0 \<Rightarrow>
     (let c = (if new_ambr \<noteq> None \<and> ue_subscribed_ambr c0 \<noteq> new_ambr then recompute_ue_ambr (c0\<lparr>ue_subscribed_ambr := new_ambr\<rparr>) else c0);
          ambr_changed = (new_ambr \<noteq> None \<and> ue_subscribed_ambr c0 \<noteq> new_ambr \<and> ue_ambr c \<noteq> ue_ambr c0);
          nssai_changed = (new_nssai \<noteq> None \<and> ue_allowed_nssai c0 \<noteq> new_nssai);
          narrowed = (nssai_changed \<and> (case ue_allowed_nssai c0 of Some old \<Rightarrow> \<exists>sl\<in>set old. sl \<notin> set (the new_nssai) | None \<Rightarrow> False));
          c = (if nssai_changed then c\<lparr>ue_allowed_nssai := new_nssai\<rparr> else c)
      in if \<not> ambr_changed \<and> \<not> nssai_changed then ([], put_ue i c s)
      else
        (let allowed = unwrap_or (ue_allowed_nssai c) [];
             to_release = (if nssai_changed \<and> allowed \<noteq> []
               then filter (\<lambda>psi. case map_of (ue_session_snssai c) psi of Some sl \<Rightarrow> sl \<notin> set allowed | None \<Rightarrow> False) (map fst (ue_sm_refs c)) else []);
             dl1 = (if ambr_changed then [ContextModification i (ue_ran_id c) (ue_rfsp c) (ue_ambr c)] else []);
             (dl2, s) = (if nssai_changed then push_tracked_config_update E i c (configuration_update_command_with_nssai allowed narrowed True) None s
               else protected_downlink E i c configuration_update_command (put_ue i c s));
             (dl3, s) = (if to_release \<noteq> [] then on_network_release E i to_release REGULAR_DEACTIVATION s else ([], s))
         in (dl1 @ dl2 @ dl3, s))))"

definition on_network_modification :: "Env \<Rightarrow> u64 \<Rightarrow> ModifyPolicy \<Rightarrow> Amf \<Rightarrow> NgapOut list \<times> Amf" where
  "on_network_modification E i m s = (case get_ue i s of None \<Rightarrow> ([], s) | Some c \<Rightarrow>
     if mp_psi m \<notin> fst ` set (ue_sm_refs c) then ([], s) else
     (case ue_sec c of None \<Rightarrow> ([], s) | Some sec \<Rightarrow>
       (let cmd = pdu_session_modification_command (mp_psi m) 0 (mp_ambr_nas m) (mp_nas_flows m) (mp_released_qfis m);
            (bytes, sec) = sec_protect E sec (dl_nas_transport_sm (mp_psi m) cmd) INTEGRITY_CIPHERED
        in ([ResourceModify i (ue_ran_id c) (mp_psi m) (mp_ngap_flows m) (mp_ambr_dl_bps m) (mp_ambr_ul_bps m) (mp_released_qfis m) bytes],
            put_ue i (c\<lparr>ue_sec := Some sec\<rparr>) s))))"

definition on_network_deregistration :: "Env \<Rightarrow> u64 \<Rightarrow> Amf \<Rightarrow> NgapOut list \<times> Amf" where
  "on_network_deregistration E i s = (case get_ue i s of None \<Rightarrow> ([], s) | Some c \<Rightarrow>
     if ue_dereg_attempts c \<noteq> None then ([], s) else
     (let s = release_sessions (ue_sm_refs c) s; c = c\<lparr>ue_sm_refs := []\<rparr>; s = put_ue i c s;
          s = (case ue_suci c of Some supi \<Rightarrow> directory_remove supi s | None \<Rightarrow> s)
      in case ue_sec c of
        None \<Rightarrow> ([ReleaseCommand i (ue_ran_id c) DEREGISTER], remove_ue i s)
      | Some sec \<Rightarrow>
         (let (bytes, sec) = sec_protect E sec (deregistration_request_to_ue 0x01) INTEGRITY_CIPHERED
          in ([DownlinkNas i (ue_ran_id c) bytes], act (ArmT3522 i) (put_ue i (c\<lparr>ue_sec := Some sec, ue_dereg_attempts := Some 1\<rparr>) s)))))"

definition implicit_deregister :: "u64 \<Rightarrow> Amf \<Rightarrow> NgapOut list \<times> Amf" where
  "implicit_deregister i s = (case get_ue i s of None \<Rightarrow> ([], s) | Some c \<Rightarrow>
     (let s = (case ue_suci c of Some supi \<Rightarrow> forget_subscription supi (guti_forget supi s) | None \<Rightarrow> s);
          s = am_policy_delete (ue_am_policy c) s
      in ([ReleaseCommand i (ue_ran_id c) DEREGISTER], remove_ue i s)))"

definition on_t3522_expiry :: "Env \<Rightarrow> u64 \<Rightarrow> Amf \<Rightarrow> NgapOut list \<times> Amf" where
  "on_t3522_expiry E i s = (case get_ue i s of None \<Rightarrow> ([], s) | Some c \<Rightarrow>
     (case ue_dereg_attempts c of None \<Rightarrow> ([], s) | Some attempts \<Rightarrow>
       if attempts < MAX_SENDS then
         (case ue_sec c of None \<Rightarrow> ([], s) | Some sec \<Rightarrow>
           (let (bytes, sec) = sec_protect E sec (deregistration_request_to_ue 0x01) INTEGRITY_CIPHERED
            in ([DownlinkNas i (ue_ran_id c) bytes],
                act (ArmT3522 i) (put_ue i (c\<lparr>ue_sec := Some sec, ue_dereg_attempts := Some (attempts + 1)\<rparr>) s))))
       else implicit_deregister i s))"

definition on_t3555_expiry :: "Env \<Rightarrow> u64 \<Rightarrow> Amf \<Rightarrow> NgapOut list \<times> Amf" where
  "on_t3555_expiry E i s = (case get_ue i s of None \<Rightarrow> ([], s) | Some c \<Rightarrow>
     (case ue_pending_config c of None \<Rightarrow> ([], s) | Some p \<Rightarrow>
       if cfg_attempts p < MAX_SENDS then
         (case ue_sec c of None \<Rightarrow> ([], s) | Some sec \<Rightarrow>
           (let (bytes, sec) = sec_protect E sec (cfg_cuc p) INTEGRITY_CIPHERED
            in ([config_update_downlink i (ue_ran_id c) bytes (cfg_area p)],
                act (ArmT3555 i) (put_ue i (c\<lparr>ue_sec := Some sec, ue_pending_config := Some (p\<lparr>cfg_attempts := cfg_attempts p + 1\<rparr>)\<rparr>) s))))
       else implicit_deregister i s))"

definition on_nas_retx_expiry :: "u64 \<Rightarrow> RetxKind \<Rightarrow> Amf \<Rightarrow> NgapOut list \<times> Amf" where
  "on_nas_retx_expiry i kind s = (case get_ue i s of None \<Rightarrow> ([], s) | Some c \<Rightarrow>
     (case ue_pending_retx c of None \<Rightarrow> ([], s) | Some p \<Rightarrow>
       if rx_kind p \<noteq> kind then ([], s)
       else if rx_attempts p \<ge> MAX_SENDS then implicit_deregister i s
       else ([DownlinkNas i (ue_ran_id c) (rx_nas_bytes p)],
             arm_nas_retx i kind (put_ue i (c\<lparr>ue_pending_retx := Some (p\<lparr>rx_attempts := rx_attempts p + 1\<rparr>)\<rparr>) s))))"

definition on_release_guard_expiry :: "u64 \<Rightarrow> u8 \<Rightarrow> Amf \<Rightarrow> NgapOut list \<times> Amf" where
  "on_release_guard_expiry i psi s = ([], finalize_release i psi s)"

definition on_registration_guard_expiry :: "Env \<Rightarrow> u64 \<Rightarrow> Amf \<Rightarrow> NgapOut list \<times> Amf" where
  "on_registration_guard_expiry E i s = (case get_ue i s of None \<Rightarrow> ([], s) | Some c \<Rightarrow>
     if ue_state c = Registered then ([], s)
     else (let idle = e_now E - ue_reg_progress_at c in
       if idle < e_guard_secs E then ([], act (ArmRegistrationGuard i (max (e_guard_secs E - idle) 1)) s)
       else (let s = (case ue_suci c of Some supi \<Rightarrow>
                        (if map_option fst (map_of (ue_directory s) supi) = Some i then directory_remove supi s else s) | None \<Rightarrow> s);
                 s = am_policy_delete (ue_am_policy c) (put_ue i (c\<lparr>ue_am_policy := None\<rparr>) s)
             in ([ReleaseCommand i (ue_ran_id c) RELEASE_DUE_TO_5GC_GENERATED_REASON], remove_ue i s))))"

subsection \<open>Paging\<close>

definition page_area :: "tac3 list \<Rightarrow> tac3 list" where
  "page_area area = (if area = [] then [AMF_TAC] else area)"

definition page_serves :: "tac3 list \<Rightarrow> GnbLink \<Rightarrow> bool" where
  "page_serves area l \<longleftrightarrow> area = [] \<or> gl_tacs l = [] \<or> (\<exists>t\<in>set (gl_tacs l). t \<in> set area)"

definition page_gnbs :: "u32 \<Rightarrow> tac3 list \<Rightarrow> Amf \<Rightarrow> nat \<times> Amf" where
  "page_gnbs tmsi area s = (let paged = filter (\<lambda>l. page_serves area l \<and> \<not> gl_closed l) (gnb_links s) in
     (length paged, s\<lparr>gnb_links := filter (\<lambda>l. \<not> gl_closed l) (gnb_links s),
        acts := acts s @ map (\<lambda>l. PageOn (gl_tx l) tmsi (page_area area)) paged\<rparr>))"

text \<open>One attempt of \<open>page_with_retx\<close>: nothing once the context is no longer retained.\<close>

definition page_attempt :: "u32 \<Rightarrow> Amf \<Rightarrow> (nat \<times> Amf) option" where
  "page_attempt tmsi s = (case map_of (retained s) tmsi of None \<Rightarrow> None | Some c \<Rightarrow>
     Some (page_gnbs tmsi (if ue_registration_area c = [] then (case ue_tac c of Some t \<Rightarrow> [t] | None \<Rightarrow> []) else ue_registration_area c) s))"

subsection \<open>CM-IDLE\<close>

definition release_ue_context :: "Env \<Rightarrow> u64 \<Rightarrow> Amf \<Rightarrow> bool \<times> Amf" where
  "release_ue_context E i s = (case get_ue i s of None \<Rightarrow> (False, s) | Some c \<Rightarrow>
     (let s = s\<lparr>acts := acts s @ map (\<lambda>(_, r, base). DeactivateUp base r) (ue_sm_refs c), ues := AList.delete i (ues s)\<rparr>;
          c = c\<lparr>ue_cm_state := Idle, ue_retained_at := Some (e_now E)\<rparr>;
          s = (case ue_suci c of Some supi \<Rightarrow> directory_remove supi s | None \<Rightarrow> s)
      in (True, case ue_guti_tmsi c of
           Some tmsi \<Rightarrow> (let s = (case map_of (retained s) tmsi of Some old \<Rightarrow> drop_slot (ue_cbl_slot old) s | None \<Rightarrow> s)
                         in s\<lparr>retained := AList.update tmsi c (retained s)\<rparr>)
         | None \<Rightarrow> drop_slot (ue_cbl_slot c) s)))"

definition on_ue_context_release_request :: "Env \<Rightarrow> (u64 \<times> u32) option \<Rightarrow> Amf \<Rightarrow> NgapOut list \<times> Amf" where
  "on_ue_context_release_request E ids s = (case ids of None \<Rightarrow> ([], s) | Some (i, ran_ue_id) \<Rightarrow>
     (let (found, s) = release_ue_context E i s in (if found then [ReleaseCommand i ran_ue_id NORMAL_RELEASE] else [], s)))"

datatype ResetScope = ResetAll | ResetPart "(u64 option \<times> u32 option) list"

definition reset_targets :: "ResetScope \<Rightarrow> Amf \<Rightarrow> (u64 \<times> u32) list" where
  "reset_targets scope s = (case scope of
     ResetAll \<Rightarrow> map (\<lambda>(i, c). (i, ue_ran_id c)) (ues s)
   | ResetPart parts \<Rightarrow> List.map_filter (\<lambda>(i, r). case i of None \<Rightarrow> None
       | Some i \<Rightarrow> map_option (\<lambda>c. (i, unwrap_or r (ue_ran_id c))) (get_ue i s)) parts)"

definition on_ng_reset :: "Env \<Rightarrow> ResetScope option \<Rightarrow> Amf \<Rightarrow> NgapOut list \<times> Amf" where
  "on_ng_reset E scope s = (case scope of None \<Rightarrow> ([], s) | Some scope \<Rightarrow>
     (let targets = reset_targets scope s
      in ([ResetAck (if scope = ResetAll then [] else targets)], foldl (\<lambda>s t. snd (release_ue_context E (fst t) s)) s targets)))"

definition on_ue_radio_capability :: "(u64 \<times> bytes) option \<Rightarrow> Amf \<Rightarrow> Amf" where
  "on_ue_radio_capability info s = (case info of None \<Rightarrow> s | Some (i, cap) \<Rightarrow>
     (case get_ue i s of Some c \<Rightarrow> put_ue i (c\<lparr>ue_radio_capability := Some cap\<rparr>) s | None \<Rightarrow> s))"

definition stale :: "nat \<Rightarrow> nat \<Rightarrow> UeContext \<Rightarrow> bool" where
  "stale now max_idle c \<longleftrightarrow> (case ue_retained_at c of Some t \<Rightarrow> max_idle \<le> now - t | None \<Rightarrow> False)"

definition evict :: "UeContext \<Rightarrow> Amf \<Rightarrow> Amf" where
  "evict c s = (let s = am_policy_delete (ue_am_policy c) (release_sessions (ue_sm_refs c) s);
       s = (case ue_suci c of Some supi \<Rightarrow> forget_subscription supi (guti_forget supi s) | None \<Rightarrow> s)
     in drop_slot (ue_cbl_slot c) s)"

definition evict_stale_retained :: "nat \<Rightarrow> nat \<Rightarrow> Amf \<Rightarrow> Amf" where
  "evict_stale_retained now max_idle s = (let expired = filter (\<lambda>e. stale now max_idle (snd e)) (retained s)
     in foldl (\<lambda>s e. evict (snd e) s) (s\<lparr>retained := filter (\<lambda>e. \<not> stale now max_idle (snd e)) (retained s)\<rparr>) expired)"

end
