(* ===== verification/Amf_Service.thy ===== *)
theory Amf_Service
  imports Amf_Procedures
begin

unbundle bit_operations_syntax

section \<open>The AMF: return from CM-IDLE and dispatch\<close>

text \<open>
  \<open>on_service_request\<close> of \<open>main.rs\<close>, in the parts its comments name, and the events of an association: the NGAP messages and
  the commands of \<open>serve_gnb\<close> that the development covers.
\<close>

subsection \<open>Service Request and registration update\<close>

datatype Return = ReturnService | ReturnMobility | ReturnPeriodic

definition classify_return :: "nas_lib \<Rightarrow> Nas5gsMessage option \<Rightarrow> Return option" where
  "classify_return N nas_msg =
    (let ty = Option.bind nas_msg (registration_type_from_request N) in
     if Option.bind nas_msg (service_request_info N) \<noteq> None then Some ReturnService
     else if ty = Some MobilityRegistrationUpdate then Some ReturnMobility
     else if ty = Some PeriodicRegistrationUpdate then Some ReturnPeriodic else None)"

definition is_update :: "Return \<Rightarrow> bool" where
  "is_update r \<longleftrightarrow> r \<noteq> ReturnService"

text \<open>The verification of the NAS message with the retained keys.\<close>

definition verify_return :: "Env \<Rightarrow> bytes option \<Rightarrow> UeContext \<Rightarrow> Nas5gsMessage option \<times> UeContext" where
  "verify_return E nas c = (case (nas, ue_sec c) of
     (Some raw, Some sec) \<Rightarrow> (let (m, sec) = sec_unprotect E sec raw in (m, c\<lparr>ue_sec := Some sec\<rparr>)) | _ \<Rightarrow> (None, c))"

definition resumed_area :: "Env \<Rightarrow> Return \<Rightarrow> tac3 option \<Rightarrow> tac3 list \<Rightarrow> Amf \<Rightarrow> tac3 list" where
  "resumed_area E r tac area s = (case r of
     ReturnMobility \<Rightarrow> registration_area_for (e_channel E) tac s
   | ReturnService \<Rightarrow> (case tac of Some t \<Rightarrow> if area \<noteq> [] \<and> t \<notin> set area then take 16 (area @ [t]) else area | None \<Rightarrow> area)
   | ReturnPeriodic \<Rightarrow> area)"

definition resumed :: "Env \<Rightarrow> Return \<Rightarrow> u32 \<Rightarrow> tac3 option \<Rightarrow> Amf \<Rightarrow> UeContext \<Rightarrow> UeContext" where
  "resumed E r ran_ue_id tac s c = (let t = or_else tac (ue_tac c) in
     c\<lparr>ue_ran_id := ran_ue_id, ue_cm_state := Connected, ue_retained_at := None, ue_tac := t,
       ue_registration_area := resumed_area E r t (ue_registration_area c) s\<rparr>)"

text \<open>Sessions the UE no longer reports are released at the SMF.\<close>

definition reconcile :: "u8 list option \<Rightarrow> UeContext \<Rightarrow> Amf \<Rightarrow> UeContext \<times> Amf" where
  "reconcile reported_psis c s = (case reported_psis of None \<Rightarrow> (c, s) | Some ue_active \<Rightarrow>
     (c\<lparr>ue_sm_refs := filter (\<lambda>e. fst e \<in> set ue_active) (ue_sm_refs c)\<rparr>,
      release_sessions (filter (\<lambda>e. fst e \<notin> set ue_active) (ue_sm_refs c)) s))"

definition return_accept :: "Env \<Rightarrow> Return \<Rightarrow> u32 \<Rightarrow> UeContext \<Rightarrow> Nas5gsMessage" where
  "return_accept E r tmsi c = (let active = sort (map fst (ue_sm_refs c)) in
     if is_update r then registration_accept (e_nas E) PLMN_MCC PLMN_MNC tmsi (unwrap_or (ue_allowed_nssai c) []) [] T3512_SECS (ue_registration_area c) (Some active)
     else service_accept (Some active))"

definition reactivated :: "Env \<Rightarrow> Return \<Rightarrow> Nas5gsMessage option \<Rightarrow> UeContext \<Rightarrow> IcsPduSession list" where
  "reactivated E r nas_msg c =
    (let psis = (case nas_msg of Some m \<Rightarrow> uplink_data_status_from_registration_request m | None \<Rightarrow> []);
         refs = (if is_update r then filter (\<lambda>e. fst e \<in> set psis) (ue_sm_refs c) else ue_sm_refs c)
     in List.map_filter (\<lambda>(psi, ref, base). map_option (\<lambda>created.
          \<lparr>ics_psi = psi, ics_flows = (if sm_ngap_flows created = [] then [default_non_gbr] else sm_ngap_flows created),
           ics_upf_teid = up_n3_teid created, ics_upf_addr = up_n3_addr created\<rparr>) (smf_activate E base ref)) refs)"

definition return_downlinks :: "u64 \<Rightarrow> UeContext \<Rightarrow> bytes option \<Rightarrow> IcsPduSession list \<Rightarrow> bytes \<Rightarrow> NgapOut list" where
  "return_downlinks i c key ics bytes = (case key of
     Some k \<Rightarrow> [ContextSetup i (ue_ran_id c) \<lparr>ic_allowed_nssai = unwrap_or (ue_allowed_nssai c) [], ic_ue_sec_cap = unwrap_or (ue_sec_cap c) UE_SEC_CAP,
       ic_security_key = k, ic_ue_ambr = ue_ambr c, ic_rfsp = ue_rfsp c, ic_area_restriction = ics_area (ue_area_restriction c),
       ic_pdu_sessions = ics, ic_nas = bytes, ic_ue_radio_capability = ue_radio_capability c\<rparr>]
   | None \<Rightarrow> DownlinkNas i (ue_ran_id c) bytes # map (\<lambda>x. ResourceSetup i (ue_ran_id c) (ics_psi x) (ics_flows x) (ics_upf_teid x) (ics_upf_addr x)
       (unwrap_or (ue_ambr c) DEFAULT_UE_AMBR_BPS) Ipv4 []) ics)"

definition refuse_return :: "Env \<Rightarrow> u32 \<Rightarrow> UeContext \<Rightarrow> Amf \<Rightarrow> NgapOut list \<times> Amf" where
  "refuse_return E ran_ue_id c s = (let i = next_amf_ue_id s in
     ([DownlinkNas i ran_ue_id (encode_nas (e_nas E) (service_reject IMPLICITLY_DEREGISTERED)), ReleaseCommand i ran_ue_id NORMAL_RELEASE],
      drop_slot (ue_cbl_slot c) (s\<lparr>next_amf_ue_id := i + 1\<rparr>)))"

definition return_tmsi :: "Return \<Rightarrow> u32 \<Rightarrow> u64 \<Rightarrow> u32" where
  "return_tmsi r tmsi i = (if is_update r then ucast i else tmsi)"

text \<open>The context under its new AMF-UE-NGAP-ID, with the GUTI reallocated by an update, and reconciled.\<close>

definition return_context :: "Env \<Rightarrow> Return \<Rightarrow> u32 \<Rightarrow> tac3 option \<Rightarrow> u32 \<Rightarrow> Nas5gsMessage option \<Rightarrow> UeContext \<Rightarrow> Amf \<Rightarrow> UeContext \<times> Amf" where
  "return_context E r ran_ue_id tac tmsi nas_msg c s =
    (let i = next_amf_ue_id s; s = s\<lparr>next_amf_ue_id := i + 1\<rparr>;
         c = (resumed E r ran_ue_id tac s c)\<lparr>ue_pending_am_policy := None\<rparr>;
         s = (if is_update r then (case ue_suci c of Some supi \<Rightarrow> guti_assign (return_tmsi r tmsi i) supi s | None \<Rightarrow> s) else s);
         c = (if is_update r then c\<lparr>ue_guti_tmsi := Some (return_tmsi r tmsi i)\<rparr> else c)
     in reconcile (Option.bind nas_msg pdu_session_status_from_request) c s)"

definition return_secured :: "Env \<Rightarrow> Return \<Rightarrow> u64 \<Rightarrow> u32 \<Rightarrow> Nas5gsMessage option \<Rightarrow> UeContext \<Rightarrow> NgapOut list \<times> UeContext" where
  "return_secured E r i tmsi nas_msg c = (case ue_sec c of None \<Rightarrow> ([], c) | Some sec \<Rightarrow>
     (let key = map_option (\<lambda>k. kgnb (e_aka E) k (ul_count sec - 1)) (ue_kamf c);
          (bytes, sec) = sec_protect E sec (return_accept E r tmsi c) INTEGRITY_CIPHERED;
          c' = c\<lparr>ue_sec := Some sec\<rparr>
      in (return_downlinks i c key (reactivated E r nas_msg c) bytes,
          (case key of Some k \<Rightarrow> c'\<lparr>ue_nh_chain := Some (k, 0)\<rparr> | None \<Rightarrow> c'))))"

definition accept_return :: "Env \<Rightarrow> Return \<Rightarrow> u32 \<Rightarrow> tac3 option \<Rightarrow> u32 \<Rightarrow> Nas5gsMessage option \<Rightarrow> UeContext \<Rightarrow> Amf \<Rightarrow> NgapOut list \<times> Amf" where
  "accept_return E r ran_ue_id tac tmsi nas_msg c0 s0 =
    (let i = next_amf_ue_id s0;
         (c1, s1) = return_context E r ran_ue_id tac tmsi nas_msg c0 s0;
         (dl, c2) = return_secured E r i (return_tmsi r tmsi i) nas_msg c1;
         s2 = put_ue i c2 s1;
         s3 = (case ue_suci c2 of Some supi \<Rightarrow> directory_insert supi (i, e_channel E) s2 | None \<Rightarrow> s2)
     in case ue_pending_am_policy c0 of None \<Rightarrow> (dl, s3)
        | Some p \<Rightarrow> (let (dl', s4) = on_am_policy_update E i p s3 in (dl @ dl', s4)))"

definition on_service_request :: "Env \<Rightarrow> InitialUE \<Rightarrow> u32 \<Rightarrow> Amf \<Rightarrow> NgapOut list \<times> Amf" where
  "on_service_request E msg tmsi s = (case iu_ran_id msg of None \<Rightarrow> ([], s) | Some ran_ue_id \<Rightarrow>
     (case map_of (retained s) tmsi of None \<Rightarrow> ([], s) | Some c \<Rightarrow>
       (let s = s\<lparr>retained := AList.delete tmsi (retained s)\<rparr>; (nas_msg, c) = verify_return E (iu_nas msg) c
        in case classify_return (e_nas E) nas_msg of
             None \<Rightarrow> refuse_return E ran_ue_id c s
           | Some r \<Rightarrow> accept_return E r ran_ue_id (iu_tac msg) tmsi nas_msg c s)))"

definition on_initial_ue_message :: "Env \<Rightarrow> InitialUE \<Rightarrow> Amf \<Rightarrow> NgapOut list \<times> Amf" where
  "on_initial_ue_message E msg s = (case Option.bind (iu_s_tmsi msg) (\<lambda>t. if map_of (retained s) t \<noteq> None then Some t else None) of
     Some tmsi \<Rightarrow> on_service_request E msg tmsi s
   | None \<Rightarrow> fresh_initial_ue E msg s)"

subsection \<open>Events of an association\<close>

datatype event =
    NgSetup "tac3 list option" "u32 option"
  | RanConfigurationUpdate "tac3 list option"
  | InitialUEMessage InitialUE
  | UplinkNasTransport "u64 option" "bytes option"
  | UEContextReleaseRequest "(u64 \<times> u32) option"
  | UERadioCapabilityInfo "(u64 \<times> bytes) option"
  | NGReset "ResetScope option"
  | CmdStart u64
  | CmdT3522Expiry u64
  | CmdT3555Expiry u64
  | CmdNasRetxExpiry u64 RetxKind
  | CmdModifyPolicy u64 ModifyPolicy
  | CmdReleaseSession u64 "u8 list" u8
  | CmdReleaseGuardExpiry u64 u8
  | CmdRegistrationGuardExpiry u64
  | CmdUpdateSubscribedData u64 "(u64 \<times> u64) option" "slice list option"
  | CmdPage u32 "tac3 list"
  | CmdUpdateAmPolicy u64 PendingAmPolicy
  | SdmSubscribed string string
  | Sweep nat

definition set_link :: "nat \<Rightarrow> (GnbLink \<Rightarrow> GnbLink) \<Rightarrow> Amf \<Rightarrow> Amf" where
  "set_link tx f s = s\<lparr>gnb_links := map_first (\<lambda>l. gl_tx l = tx) f (gnb_links s)\<rparr>"

text \<open>The answers that carry no state (NGSetupResponse, RANConfigurationUpdateAcknowledge) are left out of the result.\<close>

fun handle :: "Env \<Rightarrow> event \<Rightarrow> Amf \<Rightarrow> NgapOut list \<times> Amf" where
  "handle E (NgSetup tacs gnb_id) s = ([], if tacs \<noteq> None \<or> gnb_id \<noteq> None
     then set_link (e_channel E) (\<lambda>l. l\<lparr>gl_tacs := unwrap_or tacs (gl_tacs l), gl_gnb_id := gnb_id\<rparr>) s else s)"
| "handle E (RanConfigurationUpdate tacs) s = ([], case tacs of Some ts \<Rightarrow> set_link (e_channel E) (\<lambda>l. l\<lparr>gl_tacs := ts\<rparr>) s | None \<Rightarrow> s)"
| "handle E (InitialUEMessage msg) s = on_initial_ue_message E msg s"
| "handle E (UplinkNasTransport i raw) s = on_uplink_nas E i raw s"
| "handle E (UEContextReleaseRequest ids) s = on_ue_context_release_request E ids s"
| "handle E (UERadioCapabilityInfo info) s = ([], on_ue_radio_capability info s)"
| "handle E (NGReset scope) s = on_ng_reset E scope s"
| "handle E (CmdStart i) s = on_network_deregistration E i s"
| "handle E (CmdT3522Expiry i) s = on_t3522_expiry E i s"
| "handle E (CmdT3555Expiry i) s = on_t3555_expiry E i s"
| "handle E (CmdNasRetxExpiry i k) s = on_nas_retx_expiry i k s"
| "handle E (CmdModifyPolicy i m) s = on_network_modification E i m s"
| "handle E (CmdReleaseSession i psis cause) s = on_network_release E i psis cause s"
| "handle E (CmdReleaseGuardExpiry i psi) s = on_release_guard_expiry i psi s"
| "handle E (CmdRegistrationGuardExpiry i) s = on_registration_guard_expiry E i s"
| "handle E (CmdUpdateSubscribedData i am nssai) s = on_sdm_data_change E i am nssai s"
| "handle E (CmdPage tmsi tacs) s = ([PagingOut tmsi tacs], s)"
| "handle E (CmdUpdateAmPolicy i p) s = on_am_policy_update E i p s"
| "handle E (SdmSubscribed supi sub) s = ([], s\<lparr>sdm_subs := AList.update supi sub (sdm_subs s)\<rparr>)"
| "handle E (Sweep max_idle) s = ([], evict_stale_retained (e_now E) max_idle s)"

end
