(* ===== verification/Amf_Frame.thy ===== *)
theory Amf_Frame
  imports Amf_Service
begin

section \<open>What every step of the AMF preserves\<close>

text \<open>
  The steps of an association change its state through few operations. The locale \<open>amf_frame\<close> asks that
  these keep a property of the state, given that the security contexts put in satisfy another one, and shows that then every event
  keeps it. It is interpreted on the NAS keys in use (\<open>Amf_Keys\<close>) and on the 5G-TMSI directory (\<open>Amf_Guti\<close>).
\<close>

named_theorems frame_intros \<open>operations that keep the invariant of a frame\<close>

lemma set_update_subset: "set (AList.update k v al) \<subseteq> insert (k, v) (set al)"
  by (induction al) auto

lemma get_put [simp]: "get_ue i (put_ue j c s) = (if i = j then Some c else get_ue i s)"
  by (simp add: get_ue_def put_ue_def AList.update_conv')

lemma ue_sec_simps [simp]:
  "ue_sec (ue_new now r st u) = None" "ue_sec (guard_retx k b c) = ue_sec c" "ue_sec (recompute_ue_ambr c) = ue_sec c"
  "ue_sec (challenged now p b c) = ue_sec c" "ue_sec (apply_am_policy am c) = ue_sec c" "ue_sec (resumed E rt x t s c) = ue_sec c"
  by (simp_all add: ue_new_def guard_retx_def recompute_ue_ambr_def challenged_def apply_am_policy_def resumed_def Let_def
      split: option.splits prod.splits)

lemma return_context_fields [simp]: "ue_sec (fst (return_context E r x tac t m c s)) = ue_sec c"
    "ue_suci (fst (return_context E r x tac t m c s)) = ue_suci c"
  by (simp_all add: return_context_def reconcile_def Let_def resumed_def split: option.splits)

lemma retained_simps [simp]: "retained (drop_slot x u) = retained u" "retained (directory_remove y u) = retained u"
  by (simp_all add: drop_slot_def directory_remove_def split: option.splits)

definition released_keys :: "Env \<Rightarrow> PendingAuth \<Rightarrow> NasSecurityContext \<Rightarrow> bool" where
  "released_keys E pending sec \<longleftrightarrow> (\<exists>res out ks supi cap bs nea nia ka. auth_finish E pending res = Some out \<and> ao_success out \<and>
     ao_kseaf out = Some ks \<and> ao_supi out = Some supi \<and> establish_security E ks supi cap = Some (sec, bs, nea, nia, ka))"

text \<open>The challenge that the message of an event answers, if its UE has been challenged.\<close>

definition challenged_by :: "event \<Rightarrow> Amf \<Rightarrow> PendingAuth \<Rightarrow> bool" where
  "challenged_by e s pending \<longleftrightarrow> (\<exists>i raw c. e = UplinkNasTransport (Some i) (Some raw) \<and> get_ue i s = Some c \<and> ue_auth c = Some pending)"

locale amf_frame =
  fixes inv :: "Amf \<Rightarrow> bool" and sok :: "NasSecurityContext option \<Rightarrow> bool"
  assumes sok_None [simp]: "sok None"
    and sok_protect [simp]: "sok (Some (snd (sec_protect E sec m sht))) \<longleftrightarrow> sok (Some sec)"
    and sok_unprotect [simp]: "sok (Some (snd (sec_unprotect E sec raw))) \<longleftrightarrow> sok (Some sec)"
    and inv_get: "get_ue i s = Some c \<Longrightarrow> inv s \<Longrightarrow> sok (ue_sec c)"
    and inv_retained: "map_of (retained s) t = Some c \<Longrightarrow> inv s \<Longrightarrow> sok (ue_sec c)"
    and inv_put: "inv s \<Longrightarrow> sok (ue_sec c) \<Longrightarrow> inv (put_ue i c s)"
    and inv_retain: "inv s \<Longrightarrow> sok (ue_sec c) \<Longrightarrow> inv (s\<lparr>retained := AList.update tmsi c (retained s)\<rparr>)"
    and inv_fewer: "inv s \<Longrightarrow> inv (s\<lparr>ues := AList.delete i (ues s)\<rparr>)" "inv s \<Longrightarrow> inv (s\<lparr>retained := filter P (retained s)\<rparr>)"
    and inv_acts: "inv s \<Longrightarrow> inv (s\<lparr>acts := as\<rparr>)"
    and inv_directory: "inv s \<Longrightarrow> inv (s\<lparr>ue_directory := d\<rparr>)"
    and inv_gutis: "inv s \<Longrightarrow> inv (guti_forget u s)" "inv s \<Longrightarrow> inv (guti_assign x u s)"
    and inv_counters: "inv s \<Longrightarrow> inv (s\<lparr>next_amf_ue_id := n\<rparr>)" "inv s \<Longrightarrow> inv (s\<lparr>cbl_gate := g\<rparr>)" "inv s \<Longrightarrow> inv (s\<lparr>cbl_leases := ls\<rparr>)"
    and inv_links: "inv s \<Longrightarrow> inv (s\<lparr>gnb_links := gs\<rparr>)" "inv s \<Longrightarrow> inv (s\<lparr>sdm_subs := sub\<rparr>)"
begin

lemmas inv_basic [frame_intros] = inv_put inv_fewer inv_acts inv_directory inv_gutis inv_counters inv_links

lemma inv_sec: "get_ue i s = Some c \<Longrightarrow> ue_sec c = Some sec \<Longrightarrow> inv s \<Longrightarrow> sok (Some sec)"
  using inv_get[of i s c] by simp

lemma inv_drop_slot [frame_intros]: "inv s \<Longrightarrow> inv (drop_slot slot s)"
  by (auto simp: drop_slot_def split: option.splits intro!: inv_counters)

lemma inv_remove [frame_intros]: "inv s \<Longrightarrow> inv (remove_ue i s)"
  by (auto simp: remove_ue_def split: option.splits intro!: inv_drop_slot inv_fewer)

lemma inv_fields [frame_intros]:
  "inv s \<Longrightarrow> inv (act a s)" "inv s \<Longrightarrow> inv (directory_insert u e s)" "inv s \<Longrightarrow> inv (directory_remove u s)"
  "inv s \<Longrightarrow> inv (arm_nas_retx i k s)" "inv s \<Longrightarrow> inv (release_sessions refs s)" "inv s \<Longrightarrow> inv (set_link tx f s)"
  "inv s \<Longrightarrow> inv (s\<lparr>cbl_gate := g, cbl_leases := ls\<rparr>)"
  by (simp_all add: act_def directory_insert_def directory_remove_def arm_nas_retx_def release_sessions_def set_link_def
      inv_acts inv_directory inv_links inv_counters)

lemma inv_forget [frame_intros]: "inv s \<Longrightarrow> inv (forget_subscription u s)"
  by (auto simp: forget_subscription_def sdm_unsubscribe_def split: option.splits intro!: inv_fields inv_links)

lemma inv_am_policy [frame_intros]: "inv s \<Longrightarrow> inv (am_policy_delete am s)"
  by (auto simp: am_policy_delete_def split: option.splits intro: inv_fields)

lemma inv_protected [frame_intros]: "inv s \<Longrightarrow> sok (ue_sec c) \<Longrightarrow> inv (snd (protected_downlink E i c m s))"
  by (auto simp: protected_downlink_def split_beta split: option.splits intro!: frame_intros)

lemma inv_on_initial_ue: "inv s \<Longrightarrow> inv (snd (on_initial_ue E msg i s))"
  by (auto simp: on_initial_ue_def Let_def split: option.splits prod.splits intro!: frame_intros)

lemma inv_start_authentication: "inv s \<Longrightarrow> inv (snd (start_authentication E i r u s))"
  by (auto simp: start_authentication_def Let_def split: option.splits intro!: frame_intros intro: inv_get)

lemma inv_bound_slot: "inv s \<Longrightarrow> inv (case get_ue i s of Some c \<Rightarrow> put_ue i (c\<lparr>ue_cbl_slot := slot\<rparr>) s | None \<Rightarrow> drop_slot slot s)"
  by (auto split: option.splits intro!: frame_intros intro: inv_get)

lemma inv_fresh_initial_ue:
  assumes "inv s"
  shows "inv (snd (fresh_initial_ue E msg s))"
proof -
  obtain g ls adm where adm: "admit (cbl_gate s) (cbl_leases s) = (g, ls, adm)"
    by (metis prod.exhaust)
  show ?thesis
    using assms by (auto simp: fresh_initial_ue_def adm split_beta Let_def split: Admission.splits option.splits InitialUeOutcome.splits
        intro!: frame_intros inv_start_authentication inv_bound_slot inv_on_initial_ue intro: inv_get[OF _ inv_on_initial_ue])
qed

lemma inv_on_authentication_failure: "inv s \<Longrightarrow> inv (snd (on_authentication_failure E i m s))"
  by (auto simp: on_authentication_failure_def Let_def split: option.splits intro!: frame_intros intro: inv_get)

lemma inv_on_identity_response: "inv s \<Longrightarrow> inv (snd (on_identity_response E i m s))"
  by (auto simp: on_identity_response_def Let_def split: option.splits intro!: frame_intros intro: inv_get)

lemma inv_on_deregistration: "inv s \<Longrightarrow> inv (snd (on_deregistration E i m s))"
  by (auto simp: on_deregistration_def Let_def split_beta split: option.splits intro!: frame_intros intro: inv_get inv_sec)

lemma inv_on_deregistration_accept: "inv s \<Longrightarrow> inv (snd (on_deregistration_accept i s))"
  by (auto simp: on_deregistration_accept_def Let_def split: option.splits intro!: frame_intros)

lemma inv_on_registration_complete: "inv s \<Longrightarrow> inv (snd (on_registration_complete E i s))"
  by (auto simp: on_registration_complete_def Let_def split_beta split: option.splits intro!: frame_intros intro: inv_get inv_sec)

lemma inv_on_configuration_update_complete: "inv s \<Longrightarrow> inv (snd (on_configuration_update_complete i s))"
  by (auto simp: on_configuration_update_complete_def split: option.splits intro!: frame_intros intro: inv_get)

lemma inv_finalize_release: "inv s \<Longrightarrow> inv (finalize_release i psi s)"
  by (auto simp: finalize_release_def Let_def split: option.splits intro!: frame_intros intro: inv_get)


lemma inv_session_reject: "inv s \<Longrightarrow> sok (ue_sec c) \<Longrightarrow> inv (snd (session_reject E i c psi pti cause b s))"
  by (auto simp: session_reject_def intro!: frame_intros)

lemma inv_session_created: "inv s \<Longrightarrow> sok (ue_sec c) \<Longrightarrow> inv (snd (session_created E i c psi pti dnn co base cr s))"
  by (auto simp: session_created_def Let_def split_beta split: option.splits intro!: frame_intros)

lemma inv_on_ul_nas_transport: "inv s \<Longrightarrow> inv (snd (on_ul_nas_transport E i m s))"
  by (auto simp: on_ul_nas_transport_def Let_def split_beta split: option.splits sum.splits
      intro!: inv_finalize_release inv_session_reject inv_session_created intro: inv_get)

lemma inv_dispatch_uplink_nas: "inv s \<Longrightarrow> inv (snd (dispatch_uplink_nas E i m s))"
  by (auto simp: dispatch_uplink_nas_def split: option.splits Nas5gmmMessageType.splits
      intro: inv_on_authentication_failure inv_on_identity_response inv_on_deregistration_accept inv_on_registration_complete
        inv_on_configuration_update_complete inv_on_ul_nas_transport)

lemma inv_on_security_mode_complete:
  assumes "inv s"
  shows "inv (snd (on_security_mode_complete E i s))"
proof (cases "get_ue i s")
  case None
  then show ?thesis using assms by (simp add: on_security_mode_complete_def)
next
  case (Some c)
  note k = inv_get[OF Some assms]
  show ?thesis
    using assms k by (auto simp: on_security_mode_complete_def Some Let_def split_beta split: option.splits intro!: frame_intros)
qed

lemma inv_implicit_deregister [frame_intros]: "inv s \<Longrightarrow> inv (snd (implicit_deregister i s))"
  by (auto simp: implicit_deregister_def Let_def split: option.splits intro!: frame_intros)

lemma inv_push_tracked [frame_intros]:
  "inv s \<Longrightarrow> sok (ue_sec c) \<Longrightarrow> inv (snd (push_tracked_config_update E i c m a s))"
  by (auto simp: push_tracked_config_update_def split_beta Let_def split: option.splits intro!: frame_intros)

lemma inv_on_am_policy_update: "inv s \<Longrightarrow> inv (snd (on_am_policy_update E i p s))"
  by (auto simp: on_am_policy_update_def Let_def split_beta split: option.splits intro!: frame_intros intro: inv_get)

lemma inv_release_each: "inv s \<Longrightarrow> sok (Some sec) \<Longrightarrow> inv (snd (release_each E i cause psis c sec s))"
proof (induction psis arbitrary: c sec s)
  case (Cons psi psis)
  have "inv (snd (release_each E i cause psis d (snd (sec_protect E sec m INTEGRITY_CIPHERED)) (act a s)))" for d m a
    using Cons by (intro Cons.IH) (auto intro: frame_intros)
  then show ?case using Cons by (auto simp: split_beta Let_def)
qed (auto intro!: frame_intros)

lemma inv_on_network_release: "inv s \<Longrightarrow> inv (snd (on_network_release E i psis cause s))"
  by (auto simp: on_network_release_def split: option.splits intro!: inv_release_each intro: inv_sec)

lemma inv_on_sdm_data_change:
  assumes "inv s"
  shows "inv (snd (on_sdm_data_change E i am nssai s))"
proof (cases "get_ue i s")
  case None
  then show ?thesis using assms by (simp add: on_sdm_data_change_def)
next
  case (Some c)
  note k = inv_get[OF Some assms]
  show ?thesis
    using assms k by (auto simp: on_sdm_data_change_def Some Let_def split_beta intro!: frame_intros inv_on_network_release)
qed

lemma inv_commands:
  assumes "inv s"
  shows "inv (snd (on_network_modification E i m s))" "inv (snd (on_network_deregistration E i s))"
    "inv (snd (on_t3522_expiry E i s))" "inv (snd (on_t3555_expiry E i s))" "inv (snd (on_nas_retx_expiry i k s))"
    "inv (snd (on_registration_guard_expiry E i s))" "inv (on_ue_radio_capability info s)"
  using assms
  by (auto simp: on_network_modification_def on_network_deregistration_def on_t3522_expiry_def on_t3555_expiry_def on_nas_retx_expiry_def
      on_registration_guard_expiry_def on_ue_radio_capability_def Let_def split_beta split: option.splits
      intro!: frame_intros intro: inv_get inv_sec)

lemma inv_release_ue_context:
  assumes "inv s"
  shows "inv (snd (release_ue_context E i s))"
proof (cases "get_ue i s")
  case None
  then show ?thesis using assms by (simp add: release_ue_context_def)
next
  case (Some c)
  have left: "inv (s\<lparr>acts := as, ues := AList.delete i (ues s)\<rparr>)" for as
    using inv_fewer(1)[OF inv_acts[OF assms]] by simp
  have put: "inv u \<Longrightarrow> sok (ue_sec d) \<Longrightarrow> retained u = al \<Longrightarrow> inv (u\<lparr>retained := AList.update tmsi d al\<rparr>)" for u d al tmsi
    using inv_retain by blast
  show ?thesis
    using inv_get[OF Some assms]
    by (auto simp: release_ue_context_def Some Let_def split: option.splits intro!: put left inv_drop_slot inv_fields)
qed

lemma inv_resets: "inv s \<Longrightarrow> inv (snd (on_ng_reset E scope s))"
    "inv s \<Longrightarrow> inv (snd (on_ue_context_release_request E ids s))"
proof -
  have "inv s \<Longrightarrow> inv (foldl (\<lambda>s t. snd (release_ue_context E (fst t) s)) s ts)" for ts :: "(u64 \<times> u32) list"
    by (induction ts arbitrary: s) (simp_all add: inv_release_ue_context)
  then show "inv s \<Longrightarrow> inv (snd (on_ng_reset E scope s))"
    by (simp add: on_ng_reset_def Let_def split: option.splits)
  show "inv s \<Longrightarrow> inv (snd (on_ue_context_release_request E ids s))"
    by (auto simp: on_ue_context_release_request_def split_beta inv_release_ue_context split: option.splits)
qed

lemma inv_evict_stale_retained:
  assumes "inv s"
  shows "inv (evict_stale_retained now k s)"
proof -
  have evict: "inv s \<Longrightarrow> inv (evict c s)" for c s
    by (auto simp: evict_def Let_def split: option.splits intro!: frame_intros)
  have fold: "inv s \<Longrightarrow> inv (foldl (\<lambda>s e. evict (snd e) s) s es)" for s and es :: "(u32 \<times> UeContext) list"
    by (induction es arbitrary: s) (simp_all add: evict)
  show ?thesis
    using assms by (simp add: evict_stale_retained_def fold inv_fewer)
qed

lemma inv_return_context: "inv s \<Longrightarrow> inv (snd (return_context E r x tac t m c s))"
  by (auto simp: return_context_def reconcile_def Let_def split: option.splits intro!: frame_intros)

lemma inv_return_secured: "sok (ue_sec c) \<Longrightarrow> sok (ue_sec (snd (return_secured E r i t m c)))"
  by (auto simp: return_secured_def Let_def split_beta split: option.splits)

lemma inv_accept_return:
  assumes "inv s" "sok (ue_sec c)"
  shows "inv (snd (accept_return E r x tac t m c s))"
  using assms
  by (auto simp: accept_return_def Let_def split_beta split: option.splits
      intro!: frame_intros inv_on_am_policy_update inv_return_context inv_return_secured)

lemma inv_on_service_request:
  assumes "inv s"
  shows "inv (snd (on_service_request E msg t s))"
proof -
  have less: "inv (s\<lparr>retained := AList.delete t (retained s)\<rparr>)"
    using assms by (simp add: AList.delete_eq inv_fewer)
  have sec: "sok (ue_sec c) \<Longrightarrow> sok (ue_sec (snd (verify_return E nas c)))" for c nas
    by (auto simp: verify_return_def split_beta split: option.splits)
  show ?thesis
    using assms less
    by (auto simp: on_service_request_def refuse_return_def split_beta Let_def split: option.splits
        intro!: inv_accept_return frame_intros sec intro: inv_retained)
qed


subsection \<open>Authentication and events\<close>

lemma sok_verify: "sok (Some sec) \<Longrightarrow> sec_unprotect E sec raw = (m, sec') \<Longrightarrow> sok (Some sec')"
  by (metis sok_unprotect snd_conv)

lemma inv_complete_authentication:
  assumes "inv s" "\<And>c pending sec. get_ue i s = Some c \<Longrightarrow> ue_auth c = Some pending \<Longrightarrow> released_keys E pending sec \<Longrightarrow> sok (Some sec)"
  shows "inv (snd (complete_authentication E i m s))"
proof (cases "get_ue i s")
  case None
  then show ?thesis using assms(1) by (simp add: complete_authentication_def)
next
  case (Some c)
  have new: "sok (Some sec)" if "ue_auth c = Some pending" "auth_finish E pending res = Some out" "ao_success out"
      "ao_kseaf out = Some ks" "ao_supi out = Some supi" "establish_security E ks supi cap = Some (sec, bs, nea, nia, ka)"
    for pending res out ks supi cap sec bs nea nia ka
    using assms(2)[OF Some that(1)] that(2-) unfolding released_keys_def by blast
  show ?thesis
    using assms(1) inv_get[OF Some assms(1)]
    by (auto simp: complete_authentication_def Some Let_def split: option.splits prod.splits bind_splits
        intro!: frame_intros intro: new)
qed

lemma inv_uplink_nas:
  assumes "inv s" "\<And>c pending sec. get_ue i s = Some c \<Longrightarrow> ue_auth c = Some pending \<Longrightarrow> released_keys E pending sec \<Longrightarrow> sok (Some sec)"
  shows "inv (snd (uplink_nas E i m s))"
  using assms
  by (auto simp: uplink_nas_def split: option.splits Nas5gmmMessageType.splits
      intro!: inv_on_security_mode_complete inv_on_deregistration inv_dispatch_uplink_nas inv_complete_authentication)

lemma inv_on_uplink_nas:
  assumes "inv s" "\<And>pending sec. challenged_by (UplinkNasTransport j raw) s pending \<Longrightarrow> released_keys E pending sec \<Longrightarrow> sok (Some sec)"
  shows "inv (snd (on_uplink_nas E j raw s))"
proof (cases "\<exists>i r c. j = Some i \<and> raw = Some r \<and> get_ue i s = Some c")
  case True
  then obtain i r c where j: "j = Some i" "raw = Some r" "get_ue i s = Some c" by blast
  have "sok (Some sec)" if "ue_auth c = Some pending" "released_keys E pending sec" for pending sec
    using assms(2) that j by (auto simp: challenged_by_def)
  then have up: "inv (snd (uplink_nas E i m (put_ue i (c\<lparr>ue_sec := sec\<rparr>) s)))" "inv (snd (uplink_nas E i m s))"
    if "sok sec" for m sec
    using assms(1) j that by (auto intro!: inv_uplink_nas inv_put)
  show ?thesis
    using up inv_get[OF j(3) assms(1)] assms(1) j
    by (auto simp: on_uplink_nas_def Let_def split_beta split: option.splits intro!: inv_put)
next
  case False
  then show ?thesis using assms(1) by (auto simp: on_uplink_nas_def split: option.splits)
qed

lemma inv_handle:
  assumes "inv s" "\<And>pending sec. challenged_by e s pending \<Longrightarrow> released_keys E pending sec \<Longrightarrow> sok (Some sec)"
  shows "inv (snd (handle E e s))"
  using assms
  by (cases e) (auto simp: on_initial_ue_message_def on_release_guard_expiry_def split: option.splits
      intro!: frame_intros inv_fresh_initial_ue inv_on_service_request inv_on_uplink_nas inv_commands inv_resets
        inv_on_network_release inv_on_sdm_data_change inv_on_am_policy_update inv_finalize_release inv_evict_stale_retained)

end

end
