(* ===== verification/Amf_Keys.thy ===== *)
theory Amf_Keys
  imports Amf_Frame
begin

section \<open>NAS keys come from confirmed authentications\<close>

text \<open>
  The keys an AMF holds, in the contexts of its association and in the retained ones: only a confirmed
  Authentication Response brings new ones.
\<close>

type_synonym keys = "bytes \<times> bytes \<times> u8 \<times> u8"

definition keys_of :: "NasSecurityContext \<Rightarrow> keys" where
  "keys_of sec = (NasSecurityContext.knas_int sec, NasSecurityContext.knas_enc sec, sec_nia sec, sec_nea sec)"

definition held :: "Amf \<Rightarrow> keys set" where
  "held s = (\<Union>c\<in>snd ` set (ues s) \<union> snd ` set (retained s). keys_of ` set_option (ue_sec c))"

definition sec_within :: "keys set \<Rightarrow> NasSecurityContext option \<Rightarrow> bool" where
  "sec_within A sec \<longleftrightarrow> keys_of ` set_option sec \<subseteq> A"

subsection \<open>The frame of the keys in use\<close>

lemma keys_of_protect [simp]: "keys_of (snd (sec_protect E sec m sht)) = keys_of sec"
  by (simp add: sec_protect_def nas_protect_state keys_of_def)

lemma keys_of_unprotect [simp]: "keys_of (snd (sec_unprotect E sec raw)) = keys_of sec"
  by (simp add: sec_unprotect_def unprotect_def Let_def keys_of_def)

lemma keys_protected: "sec_protect E sec m sht = (bs, sec') \<Longrightarrow> keys_of sec' = keys_of sec"
  by (metis keys_of_protect snd_conv)

lemma sec_within_simps [simp]: "sec_within A None" "sec_within A (Some sec) \<longleftrightarrow> keys_of sec \<in> A"
  by (simp_all add: sec_within_def)

lemma held_iff: "held s \<subseteq> A \<longleftrightarrow> (\<forall>e\<in>set (ues s). sec_within A (ue_sec (snd e))) \<and> (\<forall>e\<in>set (retained s). sec_within A (ue_sec (snd e)))"
  unfolding held_def sec_within_def by blast

lemma held_fields: "held (s\<lparr>acts := as\<rparr>) = held s" "held (s\<lparr>ue_directory := d\<rparr>) = held s" "held (guti_forget u s) = held s"
    "held (guti_assign x u s) = held s" "held (s\<lparr>next_amf_ue_id := n\<rparr>) = held s" "held (s\<lparr>cbl_gate := g\<rparr>) = held s"
    "held (s\<lparr>cbl_leases := ls\<rparr>) = held s" "held (s\<lparr>gnb_links := gs\<rparr>) = held s" "held (s\<lparr>sdm_subs := sub\<rparr>) = held s"
  by (simp_all add: held_def guti_forget_def guti_assign_def Let_def)

lemma all_update: "\<forall>e\<in>set al. P (snd e) \<Longrightarrow> P v \<Longrightarrow> e \<in> set (AList.update k v al) \<Longrightarrow> P (snd e)"
  using set_update_subset[of k v al] by auto

interpretation keys: amf_frame "\<lambda>s. held s \<subseteq> A" "sec_within A" for A
proof unfold_locales
  fix i t and s :: Amf and c :: UeContext assume "held s \<subseteq> A"
  then show "get_ue i s = Some c \<Longrightarrow> sec_within A (ue_sec c)" "map_of (retained s) t = Some c \<Longrightarrow> sec_within A (ue_sec c)"
    unfolding held_iff get_ue_def by (metis map_of_SomeD snd_conv)+
next
  fix s :: Amf and c :: UeContext and i tmsi P assume A: "held s \<subseteq> A"
  show "held (s\<lparr>ues := AList.delete i (ues s)\<rparr>) \<subseteq> A" "held (s\<lparr>retained := filter P (retained s)\<rparr>) \<subseteq> A"
    using A by (simp_all add: held_iff AList.delete_eq)
  assume c: "sec_within A (ue_sec c)"
  show "held (put_ue i c s) \<subseteq> A" "held (s\<lparr>retained := AList.update tmsi c (retained s)\<rparr>) \<subseteq> A"
    using A c all_update[of _ "\<lambda>c. sec_within A (ue_sec c)" c] unfolding held_iff put_ue_def by auto
qed (simp_all add: held_fields)

subsection \<open>Authentication\<close>

text \<open>What the AUSF confirmed for a pending challenge, and the keys that follow from it.\<close>

definition confirms :: "Env \<Rightarrow> PendingAuth \<Rightarrow> keys \<Rightarrow> bool" where
  "confirms E pending k \<longleftrightarrow> (\<exists>res conf ks supi kseaf nea nia.
     length res = 16 \<and> hxres_star (e_aka E) (pa_rand pending) res = pa_hxres pending \<and>
     ausf_confirm E (pa_ausf_base pending) (pa_ctx_id pending) (hex_lower res) = Some conf \<and>
     cf_auth_result conf = ''AUTHENTICATION_SUCCESS'' \<and> cf_kseaf conf = Some ks \<and> cf_supi conf = Some supi \<and>
     sized_hex 32 ks = Some kseaf \<and> nea \<in> set NEA_PRIORITY \<and> nia \<in> set NIA_PRIORITY \<and>
     (let keys = nas_keys (e_aka E) (kamf (e_aka E) kseaf supi ABBA) nea nia in k = (NasKeys.knas_int keys, NasKeys.knas_enc keys, nia, nea)))"

lemma select_algo_in: "select_algo cap ps = Some a \<Longrightarrow> a \<in> set ps \<and> ue_supports_algo cap a"
  using find_Some_in by (fastforce simp: select_algo_def)

lemma establish_keys:
  assumes "establish_security E ks supi cap = Some (sec, bs, nea, nia, ka)"
  obtains kseaf where "sized_hex 32 ks = Some kseaf" "nea \<in> set NEA_PRIORITY" "nia \<in> set NIA_PRIORITY"
    "ka = kamf (e_aka E) kseaf supi ABBA"
    "keys_of sec = (NasKeys.knas_int (nas_keys (e_aka E) ka nea nia), NasKeys.knas_enc (nas_keys (e_aka E) ka nea nia), nia, nea)"
proof -
  have new: "keys_of (security_new a b c d) = (a, b, c, d)" for a b c d
    by (simp add: keys_of_def security_new_def)
  show thesis
    using assms that select_algo_in
    by (auto simp: establish_security_def Let_def split: option.splits prod.splits dest!: keys_protected simp: new)
qed

lemma finish_success:
  assumes "auth_finish E pending res = Some out" "ao_success out"
  obtains conf where "length res = 16" "hxres_star (e_aka E) (pa_rand pending) res = pa_hxres pending"
    "ausf_confirm E (pa_ausf_base pending) (pa_ctx_id pending) (hex_lower res) = Some conf"
    "cf_auth_result conf = ''AUTHENTICATION_SUCCESS''" "ao_kseaf out = cf_kseaf conf" "ao_supi out = cf_supi conf"
  using assms by (auto simp: auth_finish_def split: if_splits)

lemma released_keys_confirmed:
  assumes "released_keys E pending sec"
  shows "confirms E pending (keys_of sec)"
proof -
  obtain res out ks supi cap bs nea nia ka where f: "auth_finish E pending res = Some out" "ao_success out"
      and o: "ao_kseaf out = Some ks" "ao_supi out = Some supi" and est: "establish_security E ks supi cap = Some (sec, bs, nea, nia, ka)"
    using assms unfolding released_keys_def by blast
  obtain conf where conf: "length res = 16" "hxres_star (e_aka E) (pa_rand pending) res = pa_hxres pending"
      "ausf_confirm E (pa_ausf_base pending) (pa_ctx_id pending) (hex_lower res) = Some conf"
      "cf_auth_result conf = ''AUTHENTICATION_SUCCESS''" "ao_kseaf out = cf_kseaf conf" "ao_supi out = cf_supi conf"
    using f by (rule finish_success)
  obtain kseaf where keys: "sized_hex 32 ks = Some kseaf" "nea \<in> set NEA_PRIORITY" "nia \<in> set NIA_PRIORITY"
      "ka = kamf (e_aka E) kseaf supi ABBA"
      "keys_of sec = (NasKeys.knas_int (nas_keys (e_aka E) ka nea nia), NasKeys.knas_enc (nas_keys (e_aka E) ka nea nia), nia, nea)"
    using est by (rule establish_keys)
  show ?thesis
    unfolding confirms_def Let_def
    by (rule exI[of _ res], rule exI[of _ conf], rule exI[of _ ks], rule exI[of _ supi], rule exI[of _ kseaf],
        rule exI[of _ nea], rule exI[of _ nia]) (use conf keys o in simp)
qed

subsection \<open>Runs\<close>

definition run :: "(Env \<times> event) list \<Rightarrow> Amf \<Rightarrow> Amf" where
  "run tr s = foldl (\<lambda>s (E, e). snd (handle E e s)) s tr"

lemma run_snoc [simp]: "run (tr @ [(E, e)]) s = snd (handle E e (run tr s))" "run [] s = s"
  by (simp_all add: run_def)

text \<open>
  C12: No NAS security without authentication. In whatever order messages, timers, policy changes and returns from CM-IDLE
  arrive, every NAS key an AMF holds, connected or retained, was derived from the K_SEAF with which the AUSF confirmed
  the answer to a challenge this AMF had sent, after the answer matched the challenge's HXRES*; and its integrity
  algorithm is one of NIA1 to NIA3, never the null one.
\<close>

theorem nas_keys_authenticated:
  assumes "held s = {}" "k \<in> held (run tr s)"
  shows "(\<exists>past E e later pending. tr = past @ (E, e) # later \<and> challenged_by e (run past s) pending \<and> confirms E pending k)
    \<and> fst (snd (snd k)) \<in> {1, 2, 3}"
proof -
  have conf: "\<exists>past E e later pending. tr = past @ (E, e) # later \<and> challenged_by e (run past s) pending \<and> confirms E pending k"
    if "k \<in> held (run tr s)" for k
    using that
  proof (induction tr rule: rev_induct)
    case Nil
    then show ?case using assms(1) by simp
  next
    case (snoc step tr)
    obtain E e where step: "step = (E, e)" by (cases step)
    let ?A = "held (run tr s) \<union> {k. \<exists>pending. challenged_by e (run tr s) pending \<and> confirms E pending k}"
    have "held (snd (handle E e (run tr s))) \<subseteq> ?A"
      by (rule keys.inv_handle) (auto dest: released_keys_confirmed)
    then consider "k \<in> held (run tr s)" | pending where "challenged_by e (run tr s) pending" "confirms E pending k"
      using snoc.prems by (auto simp: step)
    then show ?case
    proof cases
      case 1
      then show ?thesis using snoc.IH by (metis append_Cons append_assoc)
    next
      case 2
      then show ?thesis unfolding step by blast
    qed
  qed
  obtain past E e later pending where c: "tr = past @ (E, e) # later" "challenged_by e (run past s) pending" "confirms E pending k"
    using conf[OF assms(2)] by blast
  from c(3) have "fst (snd (snd k)) \<in> {1, 2, 3}"
    by (auto simp: confirms_def Let_def NIA_PRIORITY_def)
  with c show ?thesis by blast
qed


subsection \<open>A registration\<close>

text \<open>
  An environment in which a UE registers: octet strings stand for the messages of a table, and the home network
  challenges everyone with the same vector.
\<close>

definition demo_nas :: nas_lib where
  "demo_nas = carrying [
     ([1], Gmm TRegistrationRequest (RegistrationRequest \<lparr>fgs_registration_type = 1, rr_mobile_identity = [1, 0x99, 0xF9, 0x07, 0, 0, 0, 0, 0x21],
        ue_security_capability = Some [0xE0, 0x60], requested_nssai_ie = None, uplink_data_status_ie = None, rr_pdu_session_status = None\<rparr>)),
     ([2], Gmm TAuthenticationResponse (AuthenticationResponse (Some (replicate 16 5)))),
     ([3], Gmm TRegistrationComplete RegistrationComplete),
     ([4], Gmm TDeregistrationRequestFromUe (DeregistrationRequestFromUe 9 []))]"

definition demo_aka :: aka_lib where
  "demo_aka = demo_lib\<lparr>kdf_hres_star := \<lambda>r x. x\<rparr>"

definition demo_env :: Env where
  "demo_env = \<lparr>e_nas = demo_nas, e_crypto = demo_crypto, e_aka = demo_aka, e_channel = 0, e_now = 0, e_guard_secs = 10,
     ausf_discover = Some ''ausf'',
     ausf_authenticate = (\<lambda>_ _ _. Some \<lparr>ac_ctx_id = ''1'', ac_rand = hex_lower (replicate 16 7), ac_autn = hex_lower (replicate 16 8),
       ac_hxres_star = hex_lower (replicate 16 5)\<rparr>),
     ausf_resync = (\<lambda>_ _ _ _ _. None),
     ausf_confirm = (\<lambda>_ _ _. Some \<lparr>cf_auth_result = ''AUTHENTICATION_SUCCESS'', cf_kseaf = Some (hex_lower (replicate 32 6)), cf_supi = Some ''imsi-9997012''\<rparr>),
     udm_am_data = (\<lambda>_. None), pcf_create = (\<lambda>_. None), nssf_select = (\<lambda>_ _ _. None), smf_select = (\<lambda>_ _. None),
     smf_create = (\<lambda>_ _ _ _ _ _. Inl Forbidden), smf_activate = (\<lambda>_ _. None)\<rparr>"

definition demo_amf :: Amf where
  "demo_amf = \<lparr>ues = [], ue_directory = [], guti_directory = [], retained = [], next_amf_ue_id = 1, gnb_links = [], sdm_subs = [],
     cbl_gate = cbl_with None 0 0, cbl_leases = [], acts = []\<rparr>"

definition demo_initial :: event where
  "demo_initial = InitialUEMessage \<lparr>iu_ran_id = Some 9, iu_nas = Some [1], iu_tac = None, iu_s_tmsi = None\<rparr>"

lemmas demo_defs = demo_nas_def demo_aka_def demo_env_def demo_amf_def demo_initial_def carrying_def

lemma demo_identity:
  "decode_nas demo_nas [1] = Some m \<Longrightarrow> registration_identity demo_nas m = Some (IdSupi ''imsi-9997012'', Some (0xE0, 0x60), [])"
  by (auto simp: demo_nas_def carrying_def registration_identity_def unpack_suci_def suci_to_supi_def decimal_digits_def
      requested_nssai_from_registration_request_def char_of_def bit_Suc_0_iff)


definition demo_pending :: PendingAuth where
  "demo_pending = \<lparr>pa_ausf_base = ''ausf'', pa_ctx_id = ''1'', pa_rand = replicate 16 7, pa_hxres = replicate 16 5\<rparr>"

definition demo_context :: UeContext where
  "demo_context = challenged 0 demo_pending (authentication_request demo_nas 0 (replicate 16 7) (replicate 16 8))
     ((ue_new 0 9 Identified (Some ''imsi-9997012''))\<lparr>ue_sec_cap := Some (0xE0, 0x60)\<rparr>)"

definition demo_challenged :: Amf where
  "demo_challenged = demo_amf\<lparr>ues := [(1, demo_context)], ue_directory := [(''imsi-9997012'', 1, 0)], next_amf_ue_id := 2,
     acts := [ArmRegistrationGuard 1 10, ArmNasRetx 1 RetxAuthRequest]\<rparr>"

lemma demo_env_simps [simp]: "e_nas demo_env = demo_nas" "e_now demo_env = 0" "e_channel demo_env = 0" "e_guard_secs demo_env = 10"
  "e_aka demo_env = demo_aka" "e_crypto demo_env = demo_crypto"
  by (simp_all add: demo_env_def)

lemma demo_begin: "auth_begin demo_env supi = Some (demo_pending, authentication_request demo_nas 0 (replicate 16 7) (replicate 16 8))"
  by (simp add: auth_begin_def demo_env_def challenge_def hex16_def sized_hex_lower demo_pending_def)

lemma demo_resolve: "resolve_identity demo_env (Some [1]) s = (Some ''imsi-9997012'', Some (0xE0, 0x60), [])"
proof -
  obtain m where m: "decode_nas demo_nas [1] = Some m" by (simp add: demo_nas_def carrying_def)
  show ?thesis using demo_identity[OF m] m by (simp add: resolve_identity_def)
qed

lemma demo_initial_step: "snd (handle demo_env demo_initial demo_amf) = demo_challenged"
  by (simp add: demo_initial_def on_initial_ue_message_def fresh_initial_ue_def demo_amf_def admit_def cbl_with_def on_initial_ue_def
      demo_resolve registration_area_for_def directory_insert_def put_ue_def get_ue_def act_def start_authentication_def demo_begin
      arm_nas_retx_def demo_challenged_def demo_context_def ue_new_def challenged_def guard_retx_def)


definition demo_keys :: keys where
  "demo_keys = (replicate 16 6, replicate 16 6, 2, 2)"

lemma demo_security_established:
  obtains sec bs where "establish_security demo_env (hex_lower (replicate 32 6)) supi (0xE0, 0x60)
      = Some (sec, bs, 2, 2, kamf demo_aka (replicate 32 6) supi ABBA)" "keys_of sec = demo_keys"
proof -
  have algo: "select_algo 0xE0 NEA_PRIORITY = Some 2" "select_algo 0x60 NIA_PRIORITY = Some 2"
    by (simp_all add: select_algo_def NEA_PRIORITY_def NIA_PRIORITY_def ue_supports_algo_def)
  obtain sec bs where est: "establish_security demo_env (hex_lower (replicate 32 6)) supi (0xE0, 0x60)
      = Some (sec, bs, 2, 2, kamf demo_aka (replicate 32 6) supi ABBA)"
    by (simp add: establish_security_def algo sized_hex_lower Let_def split_beta)
  obtain kseaf where "sized_hex 32 (hex_lower (replicate 32 6)) = Some kseaf" "keys_of sec = (NasKeys.knas_int (nas_keys (e_aka demo_env) (kamf (e_aka demo_env) kseaf supi ABBA) 2 2),
      NasKeys.knas_enc (nas_keys (e_aka demo_env) (kamf (e_aka demo_env) kseaf supi ABBA) 2 2), 2, 2)"
    using est by (rule establish_keys) (auto simp: sized_hex_lower)
  then have "keys_of sec = demo_keys"
    by (auto simp: sized_hex_lower demo_keys_def nas_keys_def demo_aka_def demo_lib_def kamf_def)
  with est that show thesis by blast
qed

lemma demo_answer_step: "demo_keys \<in> held (snd (handle demo_env (UplinkNasTransport (Some 1) (Some [2])) demo_challenged))"
proof -
  obtain sec bs where est: "establish_security demo_env (hex_lower (replicate 32 6)) ''imsi-9997012'' (0xE0, 0x60)
      = Some (sec, bs, 2, 2, kamf demo_aka (replicate 32 6) ''imsi-9997012'' ABBA)" "keys_of sec = demo_keys"
    by (rule demo_security_established)
  have decode: "decode_nas demo_nas [2] = Some (Gmm TAuthenticationResponse (AuthenticationResponse (Some (replicate 16 5))))"
    by (simp add: demo_nas_def carrying_def)
  have ue: "get_ue 1 demo_challenged = Some demo_context" by (simp add: demo_challenged_def get_ue_def)
  have c: "ue_sec demo_context = None" "ue_auth demo_context = Some demo_pending" "ue_sec_cap demo_context = Some (0xE0, 0x60)"
    by (simp_all add: demo_context_def challenged_def guard_retx_def ue_new_def)
  have fin: "auth_finish demo_env demo_pending (replicate 16 5)
      = Some \<lparr>ao_success = True, ao_kseaf = Some (hex_lower (replicate 32 6)), ao_supi = Some ''imsi-9997012''\<rparr>"
    by (simp add: auth_finish_def demo_pending_def hxres_star_def demo_aka_def demo_env_def)
  show ?thesis
    by (simp add: on_uplink_nas_def ue c decode uplink_nas_def gmm_message_type_def complete_authentication_def
        res_star_from_authentication_response_def fin unwrap_or_def est Let_def)
      (simp add: held_def est(2) arm_nas_retx_def act_def put_ue_def guard_retx_def demo_challenged_def)
qed

theorem nas_keys_authenticated_witness:
  "demo_keys \<in> held (run [(demo_env, demo_initial), (demo_env, UplinkNasTransport (Some 1) (Some [2]))] demo_amf) \<and>
   (\<exists>past E e later pending. [(demo_env, demo_initial), (demo_env, UplinkNasTransport (Some 1) (Some [2]))] = past @ (E, e) # later
      \<and> challenged_by e (run past demo_amf) pending \<and> confirms E pending demo_keys)"
proof -
  have "held demo_amf = {}" by (simp add: held_def demo_amf_def)
  moreover have "demo_keys \<in> held (run [(demo_env, demo_initial), (demo_env, UplinkNasTransport (Some 1) (Some [2]))] demo_amf)"
    using demo_answer_step demo_initial_step by (simp add: run_def)
  ultimately show ?thesis using nas_keys_authenticated by blast
qed

end
