(* ===== verification/Amf_Guti.thy ===== *)
theory Amf_Guti
  imports Amf_Keys
begin

section \<open>The 5G-TMSI directory and retransmissions\<close>

text \<open>
  A second frame of the AMF's steps: the directory that resolves a 5G-GUTI to a subscriber. Then the timers that resend
  a downlink until the UE answers: one contract for T3522, T3555 and the timers of the registration.
\<close>

subsection \<open>One temporary identity per subscriber\<close>

definition guti_ok :: "Amf \<Rightarrow> bool" where
  "guti_ok s \<longleftrightarrow> distinct (map fst (guti_directory s)) \<and> distinct (map snd (guti_directory s))"

lemma distinct_snd_filter: "distinct (map snd al) \<Longrightarrow> distinct (map snd (filter P al))"
  by (induction al) auto

lemma guti_ok_forget: "guti_ok s \<Longrightarrow> guti_ok (guti_forget u s)"
  by (auto simp: guti_ok_def guti_forget_def distinct_snd_filter distinct_map_filter)

lemma snd_update: "v \<notin> snd ` set al \<Longrightarrow> distinct (map snd al) \<Longrightarrow> distinct (map snd (AList.update k v al))"
proof (induction al)
  case (Cons e al)
  have "snd ` set (AList.update k v al) \<subseteq> insert v (snd ` set al)"
    using set_update_subset[of k v al] by force
  then show ?case using Cons by (cases e) auto
qed simp

lemma guti_ok_assign: "guti_ok s \<Longrightarrow> guti_ok (guti_assign x u s)"
  using guti_ok_forget[of s u]
  by (auto simp: guti_assign_def Let_def guti_ok_def AList.distinct_update intro!: snd_update simp: guti_forget_def)

definition any_security :: "NasSecurityContext option \<Rightarrow> bool" where
  "any_security sec \<longleftrightarrow> True"

interpretation gutis: amf_frame guti_ok any_security
  by unfold_locales (simp_all add: any_security_def guti_ok_forget guti_ok_assign, simp_all add: guti_ok_def put_ue_def)

lemma guti_ok_run: "guti_ok s \<Longrightarrow> guti_ok (run tr s)"
proof (induction tr rule: rev_induct)
  case (snoc step tr)
  obtain E e where "step = (E, e)" by (cases step)
  moreover have "guti_ok (snd (handle E e (run tr s)))"
    using snoc by (intro gutis.inv_handle) (simp_all add: any_security_def)
  ultimately show ?case by simp
qed simp

lemma same_value_same_key: "distinct (map snd al) \<Longrightarrow> map_of al k = Some v \<Longrightarrow> map_of al l = Some v \<Longrightarrow> k = l"
  using inj_onD[of snd "set al" "(k, v)" "(l, v)"] by (auto simp: distinct_map dest: map_of_SomeD)



subsection \<open>Retransmission\<close>

fun expiries :: "(Env \<Rightarrow> u64 \<Rightarrow> Amf \<Rightarrow> NgapOut list \<times> Amf) \<Rightarrow> Env list \<Rightarrow> u64 \<Rightarrow> Amf \<Rightarrow> NgapOut list \<times> Amf" where
  "expiries expire [] i s = ([], s)"
| "expiries expire (E # Es) i s = (fst (expire E i s) @ fst (expiries expire Es i (snd (expire E i s))), snd (expiries expire Es i (snd (expire E i s))))"

locale retransmission =
  fixes expire :: "Env \<Rightarrow> u64 \<Rightarrow> Amf \<Rightarrow> NgapOut list \<times> Amf"
    and attempts :: "UeContext \<Rightarrow> nat option" and ready :: "UeContext \<Rightarrow> bool"
  assumes resend: "\<lbrakk>get_ue i s = Some c; attempts c = Some n; n < MAX_SENDS; ready c\<rbrakk> \<Longrightarrow>
      \<exists>m c'. fst (expire E i s) = [m] \<and> get_ue i (snd (expire E i s)) = Some c' \<and> attempts c' = Some (Suc n) \<and> ready c' \<and> ue_ran_id c' = ue_ran_id c"
    and give_up: "\<lbrakk>get_ue i s = Some c; attempts c = Some n; MAX_SENDS \<le> n\<rbrakk> \<Longrightarrow>
      fst (expire E i s) = [ReleaseCommand i (ue_ran_id c) DEREGISTER] \<and> get_ue i (snd (expire E i s)) = None"
    and gone: "get_ue i s = None \<Longrightarrow> expire E i s = ([], s)"
begin

lemma silent: "get_ue i s = None \<Longrightarrow> expiries expire Es i s = ([], s)"
  by (induction Es) (simp_all add: gone)

lemma abandoned:
  assumes "get_ue i s = Some c" "attempts c = Some n" "ready c" "n \<le> MAX_SENDS" "MAX_SENDS - n < length Es"
  shows "get_ue i (snd (expiries expire Es i s)) = None \<and>
    (\<exists>resent. fst (expiries expire Es i s) = resent @ [ReleaseCommand i (ue_ran_id c) DEREGISTER] \<and> length resent = MAX_SENDS - n)"
  using assms
proof (induction Es arbitrary: s c n)
  case (Cons E Es)
  show ?case
  proof (cases "n < MAX_SENDS")
    case True
    obtain m c' where step: "fst (expire E i s) = [m]" "get_ue i (snd (expire E i s)) = Some c'" "attempts c' = Some (Suc n)" "ready c'"
        "ue_ran_id c' = ue_ran_id c"
      using resend[OF Cons.prems(1,2) True Cons.prems(3), of E] by blast
    have len: "MAX_SENDS - Suc n < length Es" using Cons.prems(5) True by simp
    obtain resent where r: "fst (expiries expire Es i (snd (expire E i s))) = resent @ [ReleaseCommand i (ue_ran_id c) DEREGISTER]"
        "length resent = MAX_SENDS - Suc n"
      using Cons.IH[OF step(2-4) Suc_leI[OF True] len] step(5) by auto
    show ?thesis
      using Cons.IH[OF step(2-4) Suc_leI[OF True] len] True r step(1)
      by (auto intro!: exI[of _ "m # resent"])
  next
    case False
    then have n: "MAX_SENDS \<le> n" by simp
    show ?thesis using give_up[OF Cons.prems(1,2) n, of E] silent n by simp
  qed
qed simp

end

definition retx_attempts :: "RetxKind \<Rightarrow> UeContext \<Rightarrow> nat option" where
  "retx_attempts k c = Option.bind (ue_pending_retx c) (\<lambda>p. if rx_kind p = k then Some (rx_attempts p) else None)"

lemma get_fields [simp]: "get_ue i (act a s) = get_ue i s" "get_ue i (guti_forget u s) = get_ue i s" "get_ue i (forget_subscription u s) = get_ue i s"
    "get_ue i (am_policy_delete am s) = get_ue i s" "get_ue i (arm_nas_retx j k s) = get_ue i s" "get_ue i (directory_remove u s) = get_ue i s"
    "get_ue i (drop_slot x s) = get_ue i s" "get_ue i (release_sessions refs s) = get_ue i s"
  by (simp_all add: get_ue_def act_def guti_forget_def forget_subscription_def sdm_unsubscribe_def am_policy_delete_def arm_nas_retx_def
      directory_remove_def drop_slot_def release_sessions_def split: option.splits)

lemma get_remove [simp]: "get_ue i (remove_ue i s) = None"
proof (cases "get_ue i s")
  case (Some c)
  have "get_ue i (s\<lparr>ues := AList.delete i (ues s)\<rparr>) = None"
    by (simp add: get_ue_def AList.delete_conv')
  then show ?thesis by (simp add: remove_ue_def Some)
qed (simp add: remove_ue_def)

lemma implicitly_deregistered:
  "get_ue i s = Some c \<Longrightarrow> fst (implicit_deregister i s) = [ReleaseCommand i (ue_ran_id c) DEREGISTER] \<and> get_ue i (snd (implicit_deregister i s)) = None"
  by (simp add: implicit_deregister_def Let_def split: option.splits)

lemma retx_attempts_Some: "retx_attempts k c = Some n \<longleftrightarrow> (\<exists>p. ue_pending_retx c = Some p \<and> rx_kind p = k \<and> rx_attempts p = n)"
  by (cases "ue_pending_retx c") (simp_all add: retx_attempts_def)

interpretation registration_timers: retransmission "\<lambda>E i. on_nas_retx_expiry i k" "retx_attempts k" "\<lambda>c. True" for k
proof unfold_locales
  fix i n and s :: Amf and c :: UeContext
  assume c: "get_ue i s = Some c" "retx_attempts k c = Some n"
  then obtain p where p: "ue_pending_retx c = Some p" "rx_kind p = k" "rx_attempts p = n" unfolding retx_attempts_Some by blast
  show "n < MAX_SENDS \<Longrightarrow> \<exists>m c'. fst (on_nas_retx_expiry i k s) = [m] \<and> get_ue i (snd (on_nas_retx_expiry i k s)) = Some c' \<and>
      retx_attempts k c' = Some (Suc n) \<and> True \<and> ue_ran_id c' = ue_ran_id c"
    using c p by (simp add: on_nas_retx_expiry_def retx_attempts_def)
  show "MAX_SENDS \<le> n \<Longrightarrow> fst (on_nas_retx_expiry i k s) = [ReleaseCommand i (ue_ran_id c) DEREGISTER] \<and> get_ue i (snd (on_nas_retx_expiry i k s)) = None"
    using c p by (simp add: on_nas_retx_expiry_def implicitly_deregistered)
qed (simp add: on_nas_retx_expiry_def)

interpretation t3522: retransmission on_t3522_expiry ue_dereg_attempts "\<lambda>c. ue_sec c \<noteq> None"
  by unfold_locales (auto simp: on_t3522_expiry_def implicitly_deregistered split_beta)

interpretation t3555: retransmission on_t3555_expiry "\<lambda>c. map_option cfg_attempts (ue_pending_config c)" "\<lambda>c. ue_sec c \<noteq> None"
  by unfold_locales (auto simp: on_t3555_expiry_def implicitly_deregistered split_beta config_update_downlink_def)

definition abandons :: "(Env \<Rightarrow> u64 \<Rightarrow> Amf \<Rightarrow> NgapOut list \<times> Amf) \<Rightarrow> Env list \<Rightarrow> u64 \<Rightarrow> UeContext \<Rightarrow> Amf \<Rightarrow> bool" where
  "abandons expire Es i c s \<longleftrightarrow> get_ue i (snd (expiries expire Es i s)) = None \<and>
     (\<exists>resent. fst (expiries expire Es i s) = resent @ [ReleaseCommand i (ue_ran_id c) DEREGISTER] \<and> length resent = 4)"


definition silent_context :: UeContext where
  "silent_context = demo_context\<lparr>ue_sec := Some (security_new [] [] 2 2), ue_dereg_attempts := Some 1,
     ue_pending_config := Some \<lparr>cfg_cuc = configuration_update_command, cfg_area = None, cfg_attempts = 1\<rparr>\<rparr>"


end
