(* ===== verification/Amf_Plain.thy ===== *)
theory Amf_Plain
  imports Amf_Guti
begin

section \<open>What the AMF does before authentication, and on a return it cannot verify\<close>

text \<open>
  Consequences of three branches of \<open>main.rs\<close>: the dispatch of plain NAS messages of a UE without a security context,
  the refusal of a return from CM-IDLE, and the resynchronisation of the sequence number.
\<close>

subsection \<open>Plain messages\<close>

lemma plain_uplink:
  assumes "get_ue i s = Some c" "ue_sec c = None" "decode_nas (e_nas E) raw = Some m"
  shows "on_uplink_nas E (Some i) (Some raw) s = uplink_nas E i m s"
  using assms by (simp add: on_uplink_nas_def)

lemma acts_fields [simp]: "acts (put_ue i c s) = acts s" "acts (drop_slot x s) = acts s" "acts (directory_remove u s) = acts s"
    "acts (act a s) = acts s @ [a]"
  by (simp_all add: put_ue_def drop_slot_def directory_remove_def act_def split: option.splits)

text \<open>
  C20: A registration completes without authentication. For a UE that has only claimed an identity, so that no NAS security
  exists yet, a plain Registration Complete is dispatched like a protected one: its context becomes Registered, the AMF registers
  itself in the UDM as the one serving the claimed SUPI and subscribes to its data.
\<close>

theorem unauthenticated_registration_completes:
  assumes "get_ue i s = Some c" "ue_sec c = None" "ue_suci c = Some supi"
    "decode_nas (e_nas E) raw = Some (Gmm TRegistrationComplete m)"
  shows "\<exists>c'. get_ue i (snd (handle E (UplinkNasTransport (Some i) (Some raw)) s)) = Some c' \<and> ue_state c' = Registered \<and> ue_sec c' = None \<and>
    acts (snd (handle E (UplinkNasTransport (Some i) (Some raw)) s)) = acts s @ [UecmRegister supi, SdmSubscribe supi]"
  using assms
  by (simp add: plain_uplink uplink_nas_def gmm_message_type_def dispatch_uplink_nas_def on_registration_complete_def Let_def)

lemma demo_challenged_facts:
  "get_ue 1 demo_challenged = Some demo_context" "ue_sec demo_context = None" "ue_suci demo_context = Some ''imsi-9997012''"
  by (simp_all add: demo_challenged_def get_ue_def demo_context_def challenged_def guard_retx_def ue_new_def)

theorem unauthenticated_registration_completes_witness:
  "\<exists>c'. get_ue 1 (run [(demo_env, demo_initial), (demo_env, UplinkNasTransport (Some 1) (Some [3]))] demo_amf) = Some c' \<and>
     ue_state c' = Registered \<and> ue_sec c' = None \<and>
     acts (run [(demo_env, demo_initial), (demo_env, UplinkNasTransport (Some 1) (Some [3]))] demo_amf)
       = [ArmRegistrationGuard 1 10, ArmNasRetx 1 RetxAuthRequest, UecmRegister ''imsi-9997012'', SdmSubscribe ''imsi-9997012'']"
proof -
  have "decode_nas (e_nas demo_env) [3] = Some (Gmm TRegistrationComplete RegistrationComplete)"
    by (simp add: demo_nas_def carrying_def)
  from unauthenticated_registration_completes[OF demo_challenged_facts this] demo_initial_step show ?thesis
    by (simp add: run_def demo_challenged_def)
qed

lemma unauthenticated_deregistration:
  assumes "get_ue i s = Some c" "ue_sec c = None" "ue_suci c = Some supi"
    "decode_nas (e_nas E) raw = Some (Gmm TDeregistrationRequestFromUe m)"
  shows "map_of (ue_directory (snd (handle E (UplinkNasTransport (Some i) (Some raw)) s))) supi = None \<and>
    UecmPurge supi \<in> set (acts (snd (handle E (UplinkNasTransport (Some i) (Some raw)) s)))"
proof -
  have dir: "ue_directory (drop_slot x u) = ue_directory u" "ue_directory (remove_ue i u) = ue_directory u" "acts (remove_ue i u) = acts u"
      "ue_directory (am_policy_delete am u) = ue_directory u" "set (acts u) \<subseteq> set (acts (am_policy_delete am u))"
      "ue_directory (forget_subscription v u) = ue_directory u" "UecmPurge v \<in> set (acts (forget_subscription v u))" for x u am v
    by (auto simp: drop_slot_def remove_ue_def am_policy_delete_def forget_subscription_def sdm_unsubscribe_def act_def split: option.splits)
  have gone: "map_of (ue_directory (directory_remove supi u)) supi = None" for u
    by (simp add: directory_remove_def AList.delete_conv')
  show ?thesis
    using assms
    by (simp add: plain_uplink uplink_nas_def gmm_message_type_def on_deregistration_def Let_def dir(2-4) dir(6) gone)
      (rule subsetD[OF dir(5) dir(7)])
qed

subsection \<open>A return that fails verification\<close>

text \<open>
  C19: A return from CM-IDLE that the AMF cannot verify costs the subscriber its sessions. The 5G-S-TMSI in the clear names the retained
  context; when the NAS message beside it does not pass the integrity check, the context is gone, and nothing is asked of
  the SMF or the PCF: the PDU sessions and the policy association it named stay behind with no reference to them.
\<close>

theorem refused_return_abandons_sessions:
  assumes "iu_ran_id msg = Some r" "iu_s_tmsi msg = Some tmsi" "map_of (retained s) tmsi = Some c" "fst (verify_return E (iu_nas msg) c) = None"
  shows "map_of (retained (snd (handle E (InitialUEMessage msg) s))) tmsi = None \<and>
    ues (snd (handle E (InitialUEMessage msg) s)) = ues s \<and> acts (snd (handle E (InitialUEMessage msg) s)) = acts s"
proof -
  have "classify_return (e_nas E) None = None" by (simp add: classify_return_def)
  moreover have "ues (drop_slot x u) = ues u" "acts (drop_slot x u) = acts u" for x u
    by (simp_all add: drop_slot_def split: option.splits)
  ultimately show ?thesis
    using assms
    by (simp add: on_initial_ue_message_def on_service_request_def split_beta refuse_return_def Let_def AList.delete_conv')
qed

theorem refused_return_abandons_sessions_witness:
  "map_of (retained (snd (handle demo_env (InitialUEMessage \<lparr>iu_ran_id = Some 9, iu_nas = Some [0xFF], iu_tac = None, iu_s_tmsi = Some 7\<rparr>)
     (demo_amf\<lparr>retained := [(7, demo_context\<lparr>ue_sm_refs := [(5, ''ref'', ''smf'')]\<rparr>)]\<rparr>)))) 7 = None \<and>
   acts (snd (handle demo_env (InitialUEMessage \<lparr>iu_ran_id = Some 9, iu_nas = Some [0xFF], iu_tac = None, iu_s_tmsi = Some 7\<rparr>)
     (demo_amf\<lparr>retained := [(7, demo_context\<lparr>ue_sm_refs := [(5, ''ref'', ''smf'')]\<rparr>)]\<rparr>))) = []"
  using refused_return_abandons_sessions[of "\<lparr>iu_ran_id = Some 9, iu_nas = Some [0xFF], iu_tac = None, iu_s_tmsi = Some 7\<rparr>" 9 7
      "demo_amf\<lparr>retained := [(7, demo_context\<lparr>ue_sm_refs := [(5, ''ref'', ''smf'')]\<rparr>)]\<rparr>" _ demo_env]
  by (simp add: verify_return_def demo_challenged_facts demo_amf_def)

subsection \<open>Resynchronisation\<close>

lemma resync_resends_the_old_challenge:
  assumes "get_ue i s = Some c" "ue_auth c = Some p" "ue_suci c = Some supi" "\<not> ue_resync_attempted c"
    "ue_pending_retx c = Some \<lparr>rx_kind = RetxAuthRequest, rx_nas_bytes = old, rx_attempts = n\<rparr>" "n < MAX_SENDS"
    "authentication_failure_info m = Some (GMM_CAUSE_SYNCH_FAILURE, Some auts)" "auth_resync E p supi auts = Some (fresh, nas_req)"
  shows "fst (on_authentication_failure E i m s) = [DownlinkNas i (ue_ran_id c) nas_req] \<and>
    fst (on_nas_retx_expiry i RetxAuthRequest (snd (on_authentication_failure E i m s))) = [DownlinkNas i (ue_ran_id c) old]"
  using assms by (simp add: on_authentication_failure_def on_nas_retx_expiry_def Let_def)

end
