(* ===== verification/Suci.thy ===== *)
theory Suci
  imports Amf_Auth
begin

unbundle bit_operations_syntax

section \<open>Concealed subscriber identities\<close>

text \<open>
  \<open>crates/aka/src/suci.rs\<close>: the UDM recovers a SUPI from the SUCI a UE built with the home network's public key. The curves,
  SHA-256, HMAC and AES-CTR of external crates are the record \<open>ecies_lib\<close>. The UE's side draws its ephemeral key at
  random; here it is an argument.
\<close>

subsection \<open>Keys and errors\<close>

datatype SuciError = Malformed | UnknownScheme string | NoKey string u8 | BadMac

record HomeNetworkKeys =
  profile_a :: "(u8 \<times> bytes) list"
  profile_b :: "(u8 \<times> bytes) list"

definition no_keys :: HomeNetworkKeys where
  "no_keys = \<lparr>profile_a = [], profile_b = []\<rparr>"

definition with_profile_a :: "u8 \<Rightarrow> bytes \<Rightarrow> HomeNetworkKeys \<Rightarrow> HomeNetworkKeys" where
  "with_profile_a key_id private_key ks = ks\<lparr>profile_a := AList.update key_id private_key (profile_a ks)\<rparr>"

definition with_profile_b :: "u8 \<Rightarrow> bytes \<Rightarrow> HomeNetworkKeys \<Rightarrow> HomeNetworkKeys" where
  "with_profile_b key_id private_key ks = ks\<lparr>profile_b := AList.update key_id private_key (profile_b ks)\<rparr>"

text \<open>
  \<open>x25519 k p\<close> is the shared secret of a private and a public key, \<open>x25519_public k\<close> the public key of a private one.
  A P-256 private or public key is accepted or refused when it is read; \<open>p256\<close> and \<open>p256_public\<close> take accepted ones.
\<close>

record ecies_lib =
  x25519 :: "bytes \<Rightarrow> bytes \<Rightarrow> bytes"
  x25519_public :: "bytes \<Rightarrow> bytes"
  p256_secret_ok :: "bytes \<Rightarrow> bool"
  p256_public_ok :: "bytes \<Rightarrow> bool"
  p256 :: "bytes \<Rightarrow> bytes \<Rightarrow> bytes"
  p256_public :: "bytes \<Rightarrow> bytes"
  sha256 :: "bytes \<Rightarrow> bytes"
  hmac_sha256 :: "bytes \<Rightarrow> bytes \<Rightarrow> bytes"
  aes128_ctr :: "bytes \<Rightarrow> bytes \<Rightarrow> bytes \<Rightarrow> bytes"

subsection \<open>ECIES\<close>

record EciesProfile =
  eph_pub_len :: nat
  ecdh :: "bytes \<Rightarrow> SuciError + bytes"

definition profile_of_a :: "ecies_lib \<Rightarrow> bytes \<Rightarrow> EciesProfile" where
  "profile_of_a L private_key = \<lparr>eph_pub_len = 32,
     ecdh = (\<lambda>eph_pub. if length eph_pub = 32 then Inr (x25519 L private_key eph_pub) else Inl Malformed)\<rparr>"

definition profile_of_b :: "ecies_lib \<Rightarrow> bytes \<Rightarrow> EciesProfile" where
  "profile_of_b L private_key = \<lparr>eph_pub_len = 33,
     ecdh = (\<lambda>eph_pub. if p256_secret_ok L private_key \<and> p256_public_ok L eph_pub then Inr (p256 L private_key eph_pub) else Inl Malformed)\<rparr>"

definition ECIES_MAC_LEN :: nat where "ECIES_MAC_LEN = 8"

text \<open>The loop of \<open>ecies_kdf\<close>: SHA-256 gives 32 octets, so it hashes with the counters 1 and 2.\<close>

definition ecies_kdf :: "ecies_lib \<Rightarrow> bytes \<Rightarrow> bytes \<Rightarrow> bytes \<times> bytes \<times> bytes" where
  "ecies_kdf L z eph_pub =
    (let derived = concat (map (\<lambda>counter. sha256 L (z @ to_be 4 (counter :: u32) @ eph_pub)) [1, 2])
     in (take 16 derived, take 16 (drop 16 derived), take 32 (drop 32 derived)))"

definition hmac_sha256_64 :: "ecies_lib \<Rightarrow> bytes \<Rightarrow> bytes \<Rightarrow> bytes" where
  "hmac_sha256_64 L key octs = take ECIES_MAC_LEN (hmac_sha256 L key octs)"

definition tbcd_decode :: "bytes \<Rightarrow> string" where
  "tbcd_decode bs = map (\<lambda>n. char_of (48 + unat (min n 9))) (filter (\<lambda>n. n \<noteq> 0x0F) (concat (map (\<lambda>b. [b AND 0x0F, drop_bit 4 b]) bs)))"

definition tbcd_encode :: "string \<Rightarrow> bytes" where
  "tbcd_encode digits = msin_octets (map (\<lambda>c. of_char c - 48) digits)"

definition decrypt_ecies :: "ecies_lib \<Rightarrow> string \<Rightarrow> EciesProfile \<Rightarrow> SuciError + string" where
  "decrypt_ecies L output_hex pr = (case hex_decode output_hex of None \<Rightarrow> Inl Malformed | Some bs \<Rightarrow>
     if length bs < eph_pub_len pr + ECIES_MAC_LEN then Inl Malformed
     else (let eph_pub = take (eph_pub_len pr) bs; rest = drop (eph_pub_len pr) bs;
               ciphertext = take (length rest - ECIES_MAC_LEN) rest; mac_tag = drop (length rest - ECIES_MAC_LEN) rest
           in case ecdh pr eph_pub of Inl e \<Rightarrow> Inl e | Inr z \<Rightarrow>
             (let (aes_key, icb, mac_key) = ecies_kdf L z eph_pub in
              if hmac_sha256_64 L mac_key ciphertext \<noteq> mac_tag then Inl BadMac
              else Inr (tbcd_decode (aes128_ctr L aes_key icb ciphertext)))))"

subsection \<open>Deconcealment and concealment\<close>

definition deconceal :: "ecies_lib \<Rightarrow> string \<Rightarrow> HomeNetworkKeys \<Rightarrow> SuciError + string" where
  "deconceal L input ks = (if take 5 input \<noteq> ''suci-'' then Inr input else
     (case split_on CHR ''-'' input of
        [_, ty, mcc, mnc, _, scheme, kid, output] \<Rightarrow>
          if ty \<noteq> ''0'' then Inl Malformed else
          (case parse_word kid of None \<Rightarrow> Inl Malformed | Some key_id \<Rightarrow>
            (let supi = (\<lambda>msin. Inr (''imsi-'' @ mcc @ mnc @ msin)) in
             if scheme = ''0'' then supi output
             else if scheme = ''1'' then (case map_of (profile_a ks) key_id of None \<Rightarrow> Inl (NoKey ''A'' key_id)
               | Some priv \<Rightarrow> (case decrypt_ecies L output (profile_of_a L priv) of Inl e \<Rightarrow> Inl e | Inr msin \<Rightarrow> supi msin))
             else if scheme = ''2'' then (case map_of (profile_b ks) key_id of None \<Rightarrow> Inl (NoKey ''B'' key_id)
               | Some priv \<Rightarrow> (case decrypt_ecies L output (profile_of_b L priv) of Inl e \<Rightarrow> Inl e | Inr msin \<Rightarrow> supi msin))
             else Inl (UnknownScheme scheme)))
      | _ \<Rightarrow> Inl Malformed))"

text \<open>The scheme output a UE builds: \<open>eph\<close> is its ephemeral private key, \<open>z\<close> the shared secret.\<close>

definition sealed_msin :: "ecies_lib \<Rightarrow> bytes \<Rightarrow> bytes \<Rightarrow> string \<Rightarrow> bytes" where
  "sealed_msin L eph_pub z msin =
    (let (aes_key, icb, mac_key) = ecies_kdf L z eph_pub; ciphertext = aes128_ctr L aes_key icb (tbcd_encode msin)
     in eph_pub @ ciphertext @ hmac_sha256_64 L mac_key ciphertext)"

definition ephemeral :: "ecies_lib \<Rightarrow> string \<Rightarrow> bytes \<Rightarrow> bytes \<Rightarrow> SuciError + bytes \<times> bytes" where
  "ephemeral L scheme eph home =
    (if scheme = ''1'' then if length home = 32 then Inr (x25519_public L eph, x25519 L eph home) else Inl Malformed
     else if scheme = ''2'' then if p256_public_ok L home then Inr (p256_public L eph, p256 L eph home) else Inl Malformed
     else Inl (UnknownScheme scheme))"

definition conceal :: "ecies_lib \<Rightarrow> bytes \<Rightarrow> string \<Rightarrow> string \<Rightarrow> string \<Rightarrow> string \<Rightarrow> u8 \<Rightarrow> bytes \<Rightarrow> SuciError + string" where
  "conceal L eph mcc mnc msin scheme key_id home = (case ephemeral L scheme eph home of Inl e \<Rightarrow> Inl e | Inr (eph_pub, z) \<Rightarrow>
     Inr (''suci-0-'' @ mcc @ ''-'' @ mnc @ ''-0-'' @ scheme @ ''-'' @ show_word key_id @ ''-'' @ hex_lower (sealed_msin L eph_pub z msin)))"

subsection \<open>The home network reads what the UE concealed\<close>

text \<open>What the two profiles use of the libraries: Diffie-Hellman agreement, sizes, and a stream cipher that undoes itself.\<close>

definition ecies_ok :: "ecies_lib \<Rightarrow> bool" where
  "ecies_ok L \<longleftrightarrow> (\<forall>a b. x25519 L a (x25519_public L b) = x25519 L b (x25519_public L a)) \<and> (\<forall>k. length (x25519_public L k) = 32) \<and>
     (\<forall>a b. p256_secret_ok L a \<longrightarrow> p256_secret_ok L b \<longrightarrow> p256 L a (p256_public L b) = p256 L b (p256_public L a)) \<and>
     (\<forall>k. p256_secret_ok L k \<longrightarrow> p256_public_ok L (p256_public L k) \<and> length (p256_public L k) = 33) \<and>
     (\<forall>k xs. length (hmac_sha256 L k xs) = 32) \<and> (\<forall>k c xs. aes128_ctr L k c (aes128_ctr L k c xs) = xs)"

lemma tbcd_nibbles:
  "\<forall>d\<in>set ds. d \<le> 9 \<Longrightarrow> filter (\<lambda>n. n \<noteq> 0x0F) (concat (map (\<lambda>b. [b AND 0x0F, drop_bit 4 b]) (msin_octets ds))) = ds"
proof (induction ds rule: msin_octets.induct)
  case (2 d)
  then show ?case using nibbles[of d "0x0F"] by auto
next
  case (3 d e ds)
  then show ?case using nibbles[of d e] order_trans[of e 9 15] by auto
qed simp

lemma tbcd_roundtrip:
  assumes "is_decimal msin"
  shows "tbcd_decode (tbcd_encode msin) = msin"
proof -
  have d: "\<forall>d\<in>set (digit_octets msin). d \<le> 9"
    using assms digit_octet by (auto simp: digit_octets_def is_decimal_def list_all_iff simp del: list.set)
  have "map (\<lambda>n. char_of (48 + unat (min n 9))) (digit_octets msin) = decimal_digits (digit_octets msin)"
    using d by (simp add: decimal_digits_def min_def)
  then show ?thesis
    using tbcd_nibbles[OF d] decimal_digits_octets[OF assms] by (simp add: tbcd_decode_def tbcd_encode_def flip: digit_octets_def)
qed

lemma decrypt_sealed:
  assumes "ecies_ok L" "is_decimal msin" "length eph_pub = eph_pub_len pr" "ecdh pr eph_pub = Inr z"
  shows "decrypt_ecies L (hex_lower (sealed_msin L eph_pub z msin)) pr = Inr msin"
proof -
  have mac: "length (hmac_sha256_64 L k xs) = ECIES_MAC_LEN" for k xs
    using assms(1) by (simp add: ecies_ok_def hmac_sha256_64_def ECIES_MAC_LEN_def)
  have "aes128_ctr L k c (aes128_ctr L k c xs) = xs" for k c xs
    using assms(1) by (simp add: ecies_ok_def)
  then show ?thesis
    using assms(2-4) mac tbcd_roundtrip[OF assms(2)] hex_roundtrip
    by (simp add: decrypt_ecies_def sealed_msin_def Let_def split_beta)
qed

lemma digit_no_dash: "is_digit 16 c \<Longrightarrow> c \<noteq> CHR ''-''"
  by (auto simp: is_digit_def to_digit_def)

lemma hex_no_dash: "CHR ''-'' \<notin> set (hex_lower bs)"
proof -
  have "CHR ''-'' \<noteq> digit_char n" if "n < 16" for n
    using to_digit_digit_char[of n 16] digit_no_dash[of "digit_char n"] that by (auto simp: is_digit_def)
  moreover have "unat b div 16 < 16" "unat b mod 16 < 16" for b :: u8
    using unsigned_less[of b, where ?'a = nat] by simp_all
  ultimately show ?thesis by (induction bs) (simp_all add: hex_lower_def)
qed

lemma word_no_dash: "CHR ''-'' \<notin> set (show_word w)"
  using show_word_digits[of _ w] by (force simp: is_digit_def to_digit_def)

lemma decimal_no_dash:
  assumes "is_decimal s"
  shows "CHR ''-'' \<notin> set s"
proof
  assume "CHR ''-'' \<in> set s"
  with assms have "CHR ''-'' \<in> set ''0123456789''" unfolding is_decimal_def list_all_iff by blast
  then show False by simp
qed

text \<open>A SUCI as text, field by field.\<close>

lemma suci_fields:
  assumes "is_decimal mcc" "is_decimal mnc" "CHR ''-'' \<notin> set routing" "CHR ''-'' \<notin> set scheme"
  shows "split_on CHR ''-'' (''suci-0-'' @ mcc @ ''-'' @ mnc @ ''-'' @ routing @ ''-'' @ scheme @ ''-'' @ show_word key_id @ ''-'' @ hex_lower out)
    = [''suci'', ''0'', mcc, mnc, routing, scheme, show_word key_id, hex_lower out]"
  using assms decimal_no_dash[OF assms(1)] decimal_no_dash[OF assms(2)]
  by (simp add: split_on_append split_on_none hex_no_dash word_no_dash)

lemma deconceal_sealed:
  assumes "ecies_ok L" "is_decimal mcc" "is_decimal mnc" "is_decimal msin" "CHR ''-'' \<notin> set routing"
    and "(scheme = ''1'' \<and> map_of (profile_a ks) key_id = Some priv \<and> home = x25519_public L priv)
      \<or> (scheme = ''2'' \<and> map_of (profile_b ks) key_id = Some priv \<and> home = p256_public L priv \<and> p256_secret_ok L priv \<and> p256_secret_ok L eph)"
    and "ephemeral L scheme eph home = Inr (eph_pub, z)"
  shows "deconceal L (''suci-0-'' @ mcc @ ''-'' @ mnc @ ''-'' @ routing @ ''-'' @ scheme @ ''-'' @ show_word key_id @ ''-''
      @ hex_lower (sealed_msin L eph_pub z msin)) ks = Inr (''imsi-'' @ mcc @ mnc @ msin)"
proof -
  let ?s = "''suci-0-'' @ mcc @ ''-'' @ mnc @ ''-'' @ routing @ ''-'' @ scheme @ ''-'' @ show_word key_id @ ''-'' @ hex_lower (sealed_msin L eph_pub z msin)"
  have t: "take 5 ?s = ''suci-''" by simp
  have sch: "CHR ''-'' \<notin> set scheme" using assms(6) by auto
  note parts = deconceal_def suci_fields[OF assms(2,3,5) sch] t
  show ?thesis
    using assms(6)
  proof
    assume a: "scheme = ''1'' \<and> map_of (profile_a ks) key_id = Some priv \<and> home = x25519_public L priv"
    then have "length eph_pub = eph_pub_len (profile_of_a L priv)" "ecdh (profile_of_a L priv) eph_pub = Inr z"
      using assms(1,7) by (auto simp: ephemeral_def profile_of_a_def ecies_ok_def split: if_splits)
    from decrypt_sealed[OF assms(1,4) this] show ?thesis
      unfolding parts using a by simp
  next
    assume b: "scheme = ''2'' \<and> map_of (profile_b ks) key_id = Some priv \<and> home = p256_public L priv \<and> p256_secret_ok L priv \<and> p256_secret_ok L eph"
    then have "length eph_pub = eph_pub_len (profile_of_b L priv)" "ecdh (profile_of_b L priv) eph_pub = Inr z"
      using assms(1,7) by (auto simp: ephemeral_def profile_of_b_def ecies_ok_def split: if_splits)
    from decrypt_sealed[OF assms(1,4) this] show ?thesis
      unfolding parts using b by simp
  qed
qed

text \<open>The SUCI a UE sends over NAS: scheme 1 or 2, and the sealed MSIN as its scheme output.\<close>

definition ecies_suci :: "string \<Rightarrow> string \<Rightarrow> bytes \<Rightarrow> u8 \<Rightarrow> u8 \<Rightarrow> bytes \<Rightarrow> Suci" where
  "ecies_suci mcc mnc routing scheme key_id out = \<lparr>suci_mcc = mcc_digits mcc, suci_mnc = mnc_digits mnc, routing_indicator = routing,
     protection_scheme = scheme, home_nw_public_key_id = key_id, scheme_output = out\<rparr>"

text \<open>
  C13: A concealed identity arrives. What a UE seals with the public key of its home network's private key, under either profile, the UDM
  opens to the subscriber's SUPI \<open>imsi-MCC-MNC-MSIN\<close>: from the string \<open>conceal\<close> builds, and equally from the string into which the
  AMF turns the SUCI it received over NAS, whatever its routing indicator.
\<close>

theorem suci_end_to_end:
  assumes "ecies_ok L" "is_decimal mcc" "length mcc = 3" "is_decimal mnc" "length mnc = 2 \<or> length mnc = 3" "is_decimal msin"
    and "(scheme = 1 \<and> map_of (profile_a ks) key_id = Some priv \<and> home = x25519_public L priv)
      \<or> (scheme = 2 \<and> map_of (profile_b ks) key_id = Some priv \<and> home = p256_public L priv \<and> p256_secret_ok L priv \<and> p256_secret_ok L eph)"
  shows "\<exists>suci eph_pub z. conceal L eph mcc mnc msin (show_word (scheme :: u8)) key_id home = Inr suci \<and>
    deconceal L suci ks = Inr (''imsi-'' @ mcc @ mnc @ msin) \<and> ephemeral L (show_word scheme) eph home = Inr (eph_pub, z) \<and>
    deconceal L (suci_to_supi (ecies_suci mcc mnc routing scheme key_id (sealed_msin L eph_pub z msin))) ks = Inr (''imsi-'' @ mcc @ mnc @ msin)"
proof -
  have show1: "show_word (1 :: u8) = ''1''" "show_word (2 :: u8) = ''2''"
    by (simp_all add: show_word_def show_radix.simps digit_char_def)
  have sch: "(show_word scheme = ''1'' \<and> map_of (profile_a ks) key_id = Some priv \<and> home = x25519_public L priv)
      \<or> (show_word scheme = ''2'' \<and> map_of (profile_b ks) key_id = Some priv \<and> home = p256_public L priv \<and> p256_secret_ok L priv \<and> p256_secret_ok L eph)"
    using assms(7) show1 by auto
  obtain eph_pub z where e: "ephemeral L (show_word scheme) eph home = Inr (eph_pub, z)"
    using sch assms(1) by (auto simp: ephemeral_def ecies_ok_def)
  have plmn: "decimal_digits (octets3 (mcc_digits mcc)) = mcc" "decimal_digits (octets3 (mnc_digits mnc)) = mnc"
    using plmn_fields assms(2-5) by blast+
  have nz: "scheme \<noteq> 0" using assms(7) by auto
  have "suci_to_supi (ecies_suci mcc mnc routing scheme key_id out)
      = ''suci-0-'' @ mcc @ ''-'' @ mnc @ ''-'' @ hex_lower routing @ ''-'' @ show_word scheme @ ''-'' @ show_word key_id @ ''-'' @ hex_lower out" for out
    using nz by (simp add: suci_to_supi_def ecies_suci_def suci_canonical_string_def plmn show_word_def)
  moreover note deconceal_sealed[OF assms(1,2,4,6) hex_no_dash[of routing] sch e]
    deconceal_sealed[OF assms(1,2,4,6), where routing = "''0''", OF _ sch e]
  ultimately show ?thesis using e by (simp add: conceal_def)
qed

subsection \<open>Toy curves\<close>

definition padded :: "nat \<Rightarrow> bytes \<Rightarrow> bytes" where
  "padded n k = take n (k @ replicate n 0)"

definition toy_ecies :: ecies_lib where
  "toy_ecies = \<lparr>x25519 = (\<lambda>k p. map2 (+) (padded 32 k) p), x25519_public = padded 32, p256_secret_ok = (\<lambda>_. True),
     p256_public_ok = (\<lambda>p. length p = 33), p256 = (\<lambda>k p. map2 (+) (padded 33 k) p), p256_public = padded 33,
     sha256 = (\<lambda>_. replicate 32 0), hmac_sha256 = (\<lambda>k xs. replicate 32 (of_nat (length xs))), aes128_ctr = (\<lambda>k c xs. xs)\<rparr>"

lemma toy_ecies_ok: "ecies_ok toy_ecies"
proof -
  have "map2 (+) xs ys = map2 (+) ys (xs :: bytes)" for xs ys
    by (induction xs ys rule: list_induct2') (simp_all add: add.commute)
  moreover have "length (padded n k) = n" for n k by (simp add: padded_def)
  ultimately show ?thesis by (simp add: ecies_ok_def toy_ecies_def)
qed

theorem suci_end_to_end_witness:
  "\<exists>suci eph_pub z. conceal toy_ecies [1] ''999'' ''70'' ''0000000001'' (show_word (1 :: u8)) 7 (x25519_public toy_ecies [5]) = Inr suci \<and>
    deconceal toy_ecies suci (with_profile_a 7 [5] no_keys) = Inr (''imsi-'' @ ''999'' @ ''70'' @ ''0000000001'') \<and>
    ephemeral toy_ecies (show_word (1 :: u8)) [1] (x25519_public toy_ecies [5]) = Inr (eph_pub, z) \<and>
    deconceal toy_ecies (suci_to_supi (ecies_suci ''999'' ''70'' [0xF0, 0xFF] 1 7 (sealed_msin toy_ecies eph_pub z ''0000000001'')))
      (with_profile_a 7 [5] no_keys) = Inr (''imsi-'' @ ''999'' @ ''70'' @ ''0000000001'')"
  by (rule suci_end_to_end[OF toy_ecies_ok]) (simp_all add: is_decimal_def with_profile_a_def no_keys_def)

end
