(* ===== verification/Subscriber_Db.thy ===== *)
theory Subscriber_Db
  imports Amf_Auth
begin

section \<open>The subscriber database\<close>

text \<open>
  \<open>crates/subscriber-db/src/lib.rs\<close>: credentials, sequence numbers, provisioned documents and registrations, in memory and in a persistent
  store that encrypts the credentials. A document is a value of any type \<open>'d\<close>. Of the persistent store, the AEAD cipher and the JSON
  encoding are the record \<open>db_lib\<close>, a table is the map its documentation promises, and a transaction commits. The random nonce of an
  encryption is an argument. The two stores share the locale \<open>sqn_source\<close>, and the second refines the first.
\<close>

subsection \<open>Keys and sequence numbers\<close>

datatype DataSet = DsAm | DsSm | DsSmfSelection | DsPolicy | DsAmPolicy

definition key_to_bytes :: "SubscriberKey \<Rightarrow> bytes" where
  "key_to_bytes key = sk_k key @ sk_opc key @ sk_amf key"

definition key_from_bytes :: "bytes \<Rightarrow> SubscriberKey option" where
  "key_from_bytes b = (if length b \<noteq> 34 then None
     else Some \<lparr>sk_k = take 16 b, sk_opc = take 16 (drop 16 b), sk_amf = drop 32 b\<rparr>)"

text \<open>The loop over the octets from the last one on, while they carry.\<close>

fun increment_octets :: "bytes \<Rightarrow> bytes" where
  "increment_octets [] = []"
| "increment_octets (b # bs) = (if b + 1 = 0 then 0 # increment_octets bs else (b + 1) # bs)"

definition increment_sqn :: "bytes \<Rightarrow> bytes" where
  "increment_sqn sqn = rev (increment_octets (rev sqn))"

definition parse_key :: "string \<Rightarrow> string \<Rightarrow> string \<Rightarrow> SubscriberKey option" where
  "parse_key k opc amf = (case (sized_hex 16 k, sized_hex 16 opc, sized_hex 2 amf) of
     (Some k, Some opc, Some amf) \<Rightarrow> Some \<lparr>sk_k = k, sk_opc = opc, sk_amf = amf\<rparr> | _ \<Rightarrow> None)"

subsection \<open>In memory\<close>

record 'd InMemoryInner =
  credentials :: "string \<rightharpoonup> SubscriberKey"
  sqns :: "string \<rightharpoonup> bytes"
  docs :: "DataSet \<times> string \<times> string \<rightharpoonup> 'd"
  amf_reg :: "string \<rightharpoonup> 'd"
  smf_reg :: "string \<times> u8 \<rightharpoonup> 'd"
  influence :: "string \<rightharpoonup> 'd"

definition mem_new :: "'d InMemoryInner" where
  "mem_new = \<lparr>credentials = Map.empty, sqns = Map.empty, docs = Map.empty, amf_reg = Map.empty, smf_reg = Map.empty, influence = Map.empty\<rparr>"

definition mem_provision :: "string \<Rightarrow> SubscriberKey \<Rightarrow> 'd InMemoryInner \<Rightarrow> 'd InMemoryInner" where
  "mem_provision supi key m = m\<lparr>sqns := (sqns m)(supi \<mapsto> replicate 6 0), credentials := (credentials m)(supi \<mapsto> key)\<rparr>"

definition mem_provision_hex :: "string \<Rightarrow> string \<Rightarrow> string \<Rightarrow> string \<Rightarrow> 'd InMemoryInner \<Rightarrow> bool \<times> 'd InMemoryInner" where
  "mem_provision_hex supi k opc amf m = (case parse_key k opc amf of Some key \<Rightarrow> (True, mem_provision supi key m) | None \<Rightarrow> (False, m))"

definition mem_exists :: "string \<Rightarrow> 'd InMemoryInner \<Rightarrow> bool" where
  "mem_exists supi m \<longleftrightarrow> credentials m supi \<noteq> None"

definition mem_remove_subscriber :: "string \<Rightarrow> 'd InMemoryInner \<Rightarrow> bool \<times> 'd InMemoryInner" where
  "mem_remove_subscriber supi m = (credentials m supi \<noteq> None,
     m\<lparr>credentials := (credentials m)(supi := None), sqns := (sqns m)(supi := None), docs := (\<lambda>k. if fst (snd k) = supi then None else docs m k),
       amf_reg := (amf_reg m)(supi := None), smf_reg := (\<lambda>k. if fst k = supi then None else smf_reg m k)\<rparr>)"

definition mem_next_sqn :: "string \<Rightarrow> 'd InMemoryInner \<Rightarrow> bytes option \<times> 'd InMemoryInner" where
  "mem_next_sqn supi m = (if credentials m supi = None then (None, m) else
     (case sqns m supi of None \<Rightarrow> (None, m)
      | Some sqn \<Rightarrow> (Some (increment_sqn sqn), m\<lparr>sqns := (sqns m)(supi \<mapsto> increment_sqn sqn)\<rparr>)))"

definition mem_generate_he_av :: "aka_lib \<Rightarrow> string \<Rightarrow> bytes \<Rightarrow> bytes \<Rightarrow> string \<Rightarrow> string \<Rightarrow> 'd InMemoryInner \<Rightarrow> AuthVector option" where
  "mem_generate_he_av L supi sqn rand mcc mnc m = Option.bind (credentials m supi) (\<lambda>key. case generate_5g_he_av L key sqn rand mcc mnc of Inr av \<Rightarrow> Some av | Inl _ \<Rightarrow> None)"

definition mem_resync_sqn :: "aka_lib \<Rightarrow> string \<Rightarrow> bytes \<Rightarrow> bytes \<Rightarrow> 'd InMemoryInner \<Rightarrow> bool \<times> 'd InMemoryInner" where
  "mem_resync_sqn L supi rand auts m = (case credentials m supi of None \<Rightarrow> (False, m) | Some key \<Rightarrow>
     (case sqn_ms_from_auts L key rand auts of None \<Rightarrow> (False, m) | Some sqn_ms \<Rightarrow> (True, m\<lparr>sqns := (sqns m)(supi \<mapsto> sqn_ms)\<rparr>)))"

text \<open>Documents and registrations: the same three operations on each map.\<close>

definition mem_put_provisioned :: "DataSet \<Rightarrow> string \<Rightarrow> string \<Rightarrow> 'd \<Rightarrow> 'd InMemoryInner \<Rightarrow> 'd InMemoryInner" where
  "mem_put_provisioned ds supi plmn doc m = m\<lparr>docs := (docs m)((ds, supi, plmn) \<mapsto> doc)\<rparr>"

definition mem_put_amf_registration :: "string \<Rightarrow> 'd \<Rightarrow> 'd InMemoryInner \<Rightarrow> 'd InMemoryInner" where
  "mem_put_amf_registration supi doc m = m\<lparr>amf_reg := (amf_reg m)(supi \<mapsto> doc)\<rparr>"

definition mem_remove_amf_registration :: "string \<Rightarrow> 'd InMemoryInner \<Rightarrow> bool \<times> 'd InMemoryInner" where
  "mem_remove_amf_registration supi m = (amf_reg m supi \<noteq> None, m\<lparr>amf_reg := (amf_reg m)(supi := None)\<rparr>)"

definition mem_put_smf_registration :: "string \<Rightarrow> u8 \<Rightarrow> 'd \<Rightarrow> 'd InMemoryInner \<Rightarrow> 'd InMemoryInner" where
  "mem_put_smf_registration supi psi doc m = m\<lparr>smf_reg := (smf_reg m)((supi, psi) \<mapsto> doc)\<rparr>"

definition mem_remove_smf_registration :: "string \<Rightarrow> u8 \<Rightarrow> 'd InMemoryInner \<Rightarrow> bool \<times> 'd InMemoryInner" where
  "mem_remove_smf_registration supi psi m = (smf_reg m (supi, psi) \<noteq> None, m\<lparr>smf_reg := (smf_reg m)((supi, psi) := None)\<rparr>)"

definition mem_put_influence_data :: "string \<Rightarrow> 'd \<Rightarrow> 'd InMemoryInner \<Rightarrow> 'd InMemoryInner" where
  "mem_put_influence_data i doc m = m\<lparr>influence := (influence m)(i \<mapsto> doc)\<rparr>"

definition mem_remove_influence_data :: "string \<Rightarrow> 'd InMemoryInner \<Rightarrow> bool \<times> 'd InMemoryInner" where
  "mem_remove_influence_data i m = (influence m i \<noteq> None, m\<lparr>influence := (influence m)(i := None)\<rparr>)"

subsection \<open>Persistent\<close>

record 'd db_lib =
  aead_seal :: "bytes \<Rightarrow> bytes \<Rightarrow> string \<Rightarrow> bytes \<Rightarrow> bytes"
  aead_open :: "bytes \<Rightarrow> bytes \<Rightarrow> string \<Rightarrow> bytes \<Rightarrow> bytes option"
  json_write :: "'d \<Rightarrow> bytes"
  json_read :: "bytes \<Rightarrow> 'd option"

record RedbStore =
  t_credentials :: "string \<rightharpoonup> bytes"
  t_auth_state :: "string \<rightharpoonup> bytes"
  t_docs :: "DataSet \<times> string \<times> string \<rightharpoonup> bytes"
  t_amf_reg :: "string \<rightharpoonup> bytes"
  t_smf_reg :: "string \<times> u8 \<rightharpoonup> bytes"
  t_influence :: "string \<rightharpoonup> bytes"
  kek :: bytes

definition redb_open :: "bytes \<Rightarrow> RedbStore" where
  "redb_open k = \<lparr>t_credentials = Map.empty, t_auth_state = Map.empty, t_docs = Map.empty, t_amf_reg = Map.empty, t_smf_reg = Map.empty,
     t_influence = Map.empty, kek = k\<rparr>"

definition encrypt :: "'d db_lib \<Rightarrow> bytes \<Rightarrow> bytes \<Rightarrow> string \<Rightarrow> bytes \<Rightarrow> bytes" where
  "encrypt D key nonce supi plaintext = nonce @ aead_seal D key nonce supi plaintext"

definition decrypt :: "'d db_lib \<Rightarrow> bytes \<Rightarrow> string \<Rightarrow> bytes \<Rightarrow> bytes option" where
  "decrypt D key supi blob = (if length blob < 12 then None else aead_open D key (take 12 blob) supi (drop 12 blob))"

definition read_key :: "'d db_lib \<Rightarrow> string \<Rightarrow> RedbStore \<Rightarrow> SubscriberKey option" where
  "read_key D supi db = Option.bind (t_credentials db supi) (\<lambda>blob. Option.bind (decrypt D (kek db) supi blob) key_from_bytes)"

definition redb_provision :: "'d db_lib \<Rightarrow> bytes \<Rightarrow> string \<Rightarrow> SubscriberKey \<Rightarrow> RedbStore \<Rightarrow> RedbStore" where
  "redb_provision D nonce supi key db = db\<lparr>t_credentials := (t_credentials db)(supi \<mapsto> encrypt D (kek db) nonce supi (key_to_bytes key)),
     t_auth_state := (t_auth_state db)(supi \<mapsto> replicate 6 0)\<rparr>"

definition redb_provision_hex :: "'d db_lib \<Rightarrow> bytes \<Rightarrow> string \<Rightarrow> string \<Rightarrow> string \<Rightarrow> string \<Rightarrow> RedbStore \<Rightarrow> bool \<times> RedbStore" where
  "redb_provision_hex D nonce supi k opc amf db = (case parse_key k opc amf of Some key \<Rightarrow> (True, redb_provision D nonce supi key db) | None \<Rightarrow> (False, db))"

definition redb_exists :: "'d db_lib \<Rightarrow> string \<Rightarrow> RedbStore \<Rightarrow> bool" where
  "redb_exists D supi db \<longleftrightarrow> read_key D supi db \<noteq> None"

definition redb_remove_subscriber :: "string \<Rightarrow> RedbStore \<Rightarrow> bool \<times> RedbStore" where
  "redb_remove_subscriber supi db = (t_credentials db supi \<noteq> None,
     db\<lparr>t_credentials := (t_credentials db)(supi := None), t_auth_state := (t_auth_state db)(supi := None), t_amf_reg := (t_amf_reg db)(supi := None),
        t_smf_reg := (\<lambda>k. if fst k = supi then None else t_smf_reg db k), t_docs := (\<lambda>k. if fst (snd k) = supi then None else t_docs db k)\<rparr>)"

definition redb_next_sqn :: "'d db_lib \<Rightarrow> string \<Rightarrow> RedbStore \<Rightarrow> bytes option \<times> RedbStore" where
  "redb_next_sqn D supi db = (if \<not> redb_exists D supi db then (None, db) else
     (case t_auth_state db supi of None \<Rightarrow> (None, db) | Some cur \<Rightarrow>
        if length cur \<noteq> 6 then (None, db)
        else (Some (increment_sqn cur), db\<lparr>t_auth_state := (t_auth_state db)(supi \<mapsto> increment_sqn cur)\<rparr>)))"

definition redb_generate_he_av :: "aka_lib \<Rightarrow> 'd db_lib \<Rightarrow> string \<Rightarrow> bytes \<Rightarrow> bytes \<Rightarrow> string \<Rightarrow> string \<Rightarrow> RedbStore \<Rightarrow> AuthVector option" where
  "redb_generate_he_av L D supi sqn rand mcc mnc db = Option.bind (read_key D supi db) (\<lambda>key. case generate_5g_he_av L key sqn rand mcc mnc of Inr av \<Rightarrow> Some av | Inl _ \<Rightarrow> None)"

definition redb_resync_sqn :: "aka_lib \<Rightarrow> 'd db_lib \<Rightarrow> string \<Rightarrow> bytes \<Rightarrow> bytes \<Rightarrow> RedbStore \<Rightarrow> bool \<times> RedbStore" where
  "redb_resync_sqn L D supi rand auts db = (case read_key D supi db of None \<Rightarrow> (False, db) | Some key \<Rightarrow>
     (case sqn_ms_from_auts L key rand auts of None \<Rightarrow> (False, db)
      | Some sqn_ms \<Rightarrow> (True, db\<lparr>t_auth_state := (t_auth_state db)(supi \<mapsto> sqn_ms)\<rparr>)))"

text \<open>Reading a row of JSON, and all of a table's.\<close>

definition row :: "'d db_lib \<Rightarrow> ('k \<rightharpoonup> bytes) \<Rightarrow> 'k \<Rightarrow> 'd option" where
  "row D t k = Option.bind (t k) (json_read D)"

definition rows :: "'d db_lib \<Rightarrow> ('k \<rightharpoonup> bytes) \<Rightarrow> ('k \<times> 'd) set" where
  "rows D t = {(k, doc). row D t k = Some doc}"

definition redb_put_provisioned :: "'d db_lib \<Rightarrow> DataSet \<Rightarrow> string \<Rightarrow> string \<Rightarrow> 'd \<Rightarrow> RedbStore \<Rightarrow> RedbStore" where
  "redb_put_provisioned D ds supi plmn doc db = db\<lparr>t_docs := (t_docs db)((ds, supi, plmn) \<mapsto> json_write D doc)\<rparr>"

definition redb_put_amf_registration :: "'d db_lib \<Rightarrow> string \<Rightarrow> 'd \<Rightarrow> RedbStore \<Rightarrow> RedbStore" where
  "redb_put_amf_registration D supi doc db = db\<lparr>t_amf_reg := (t_amf_reg db)(supi \<mapsto> json_write D doc)\<rparr>"

definition redb_remove_amf_registration :: "string \<Rightarrow> RedbStore \<Rightarrow> bool \<times> RedbStore" where
  "redb_remove_amf_registration supi db = (t_amf_reg db supi \<noteq> None, db\<lparr>t_amf_reg := (t_amf_reg db)(supi := None)\<rparr>)"

definition redb_put_smf_registration :: "'d db_lib \<Rightarrow> string \<Rightarrow> u8 \<Rightarrow> 'd \<Rightarrow> RedbStore \<Rightarrow> RedbStore" where
  "redb_put_smf_registration D supi psi doc db = db\<lparr>t_smf_reg := (t_smf_reg db)((supi, psi) \<mapsto> json_write D doc)\<rparr>"

definition redb_remove_smf_registration :: "string \<Rightarrow> u8 \<Rightarrow> RedbStore \<Rightarrow> bool \<times> RedbStore" where
  "redb_remove_smf_registration supi psi db = (t_smf_reg db (supi, psi) \<noteq> None, db\<lparr>t_smf_reg := (t_smf_reg db)((supi, psi) := None)\<rparr>)"

definition redb_put_influence_data :: "'d db_lib \<Rightarrow> string \<Rightarrow> 'd \<Rightarrow> RedbStore \<Rightarrow> RedbStore" where
  "redb_put_influence_data D i doc db = db\<lparr>t_influence := (t_influence db)(i \<mapsto> json_write D doc)\<rparr>"

definition redb_remove_influence_data :: "string \<Rightarrow> RedbStore \<Rightarrow> bool \<times> RedbStore" where
  "redb_remove_influence_data i db = (t_influence db i \<noteq> None, db\<lparr>t_influence := (t_influence db)(i := None)\<rparr>)"

subsection \<open>Sequence numbers\<close>

definition be_value :: "bytes \<Rightarrow> nat" where
  "be_value bs = foldl (\<lambda>a b. 256 * a + unat b) 0 bs"

fun le_value :: "bytes \<Rightarrow> nat" where
  "le_value [] = 0"
| "le_value (b # bs) = unat b + 256 * le_value bs"

lemma be_value_zero [simp]: "be_value (replicate n 0) = 0"
  by (induction n) (simp_all add: be_value_def)

lemma be_value_rev: "be_value (rev bs) = le_value bs"
  by (induction bs) (simp_all add: be_value_def)

lemma le_value_bound: "le_value bs < 256 ^ length bs"
proof (induction bs)
  case (Cons b bs)
  have "unat b < 256" using unsigned_less[of b, where ?'a = nat] by simp
  with Cons have "unat b + 256 * le_value bs < 256 + 256 * (256 ^ length bs - 1)" by simp
  also have "\<dots> = 256 ^ length (b # bs)" by (simp add: diff_mult_distrib2)
  finally show ?case by simp
qed simp

lemma increment_octets_value: "le_value (increment_octets bs) = (le_value bs + 1) mod 256 ^ length bs"
proof (induction bs)
  case (Cons b bs)
  show ?case
  proof (cases "b + 1 = 0")
    case True
    then have "b = - 1" by (simp add: eq_neg_iff_add_eq_0)
    then have b: "unat b = 255" by (simp add: unat_minus_one_word_eq)
    have "le_value (b # bs) + 1 = 256 * (le_value bs + 1)" using b by simp
    then have "(le_value (b # bs) + 1) mod 256 ^ length (b # bs) = 256 * ((le_value bs + 1) mod 256 ^ length bs)"
      by (simp only: length_Cons power_Suc mult_mod_right)
    then show ?thesis using True Cons by (simp only: increment_octets.simps le_value.simps refl if_True unsigned_0 add_0)
  next
    case False
    then have "unat (b + 1) = unat b + 1" using unatSuc[of b] by (simp add: add.commute)
    moreover have "le_value ((b + 1) # bs) < 256 ^ length ((b + 1) # bs)" by (rule le_value_bound)
    ultimately show ?thesis using False by simp
  qed
qed simp

lemma length_increment: "length (increment_sqn sqn) = length sqn"
proof -
  have "length (increment_octets bs) = length bs" for bs by (induction bs rule: increment_octets.induct) auto
  then show ?thesis by (simp add: increment_sqn_def)
qed

lemma increment_sqn_value: "be_value (increment_sqn sqn) = (be_value sqn + 1) mod 256 ^ length sqn"
  using increment_octets_value[of "rev sqn"] be_value_rev[of "rev sqn"] by (simp add: increment_sqn_def be_value_rev)

text \<open>What the UDR relies on: taking a subscriber's next sequence number advances it by one and leaves the others alone.\<close>

fun drawn :: "(string \<Rightarrow> 's \<Rightarrow> bytes option \<times> 's) \<Rightarrow> string list \<Rightarrow> 's \<Rightarrow> (string \<times> bytes option) list" where
  "drawn draw [] s = []"
| "drawn draw (u # us) s = (u, fst (draw u s)) # drawn draw us (snd (draw u s))"

locale sqn_source =
  fixes next_sqn :: "string \<Rightarrow> 's \<Rightarrow> bytes option \<times> 's" and at :: "string \<Rightarrow> 's \<Rightarrow> nat option"
  assumes advances: "at supi s = Some n \<Longrightarrow> \<exists>sqn. fst (next_sqn supi s) = Some sqn \<and> be_value sqn = (n + 1) mod 2 ^ 48
      \<and> at supi (snd (next_sqn supi s)) = Some ((n + 1) mod 2 ^ 48)"
    and others: "v \<noteq> supi \<Longrightarrow> at v (snd (next_sqn supi s)) = at v s"
begin

lemma drawn_consecutive:
  assumes "at supi s = Some n"
  shows "map (map_option be_value \<circ> snd) (filter (\<lambda>e. fst e = supi) (drawn next_sqn us s))
    = map (\<lambda>i. Some ((n + i) mod 2 ^ 48)) [1..<length (filter (\<lambda>u. u = supi) us) + 1]"
  using assms
proof (induction us arbitrary: s n)
  case (Cons u us)
  show ?case
  proof (cases "u = supi")
    case True
    obtain sqn where step: "fst (next_sqn supi s) = Some sqn" "be_value sqn = (n + 1) mod 2 ^ 48"
        "at supi (snd (next_sqn supi s)) = Some ((n + 1) mod 2 ^ 48)"
      using advances[OF Cons.prems] by blast
    let ?k = "length (filter (\<lambda>u. u = supi) us)"
    have "map (\<lambda>i. Some ((n + i) mod 2 ^ 48)) [1..<Suc (Suc ?k)] = Some ((n + 1) mod 2 ^ 48) # map (\<lambda>i. Some ((n + Suc i) mod 2 ^ 48)) [1..<Suc ?k]"
      by (simp add: upt_conv_Cons map_Suc_upt[symmetric] del: upt_Suc)
    moreover have "(((n + 1) mod 2 ^ 48) + i) mod 2 ^ 48 = (n + Suc i) mod 2 ^ 48" for i
      by (simp add: mod_simps)
    ultimately show ?thesis
      using Cons.IH[OF step(3)] step(1,2) True by (simp del: upt_Suc)
  next
    case False
    then show ?thesis using Cons.IH[of "snd (next_sqn u s)" n] others[of supi u s] Cons.prems by simp
  qed
qed simp

end

definition mem_at :: "string \<Rightarrow> 'd InMemoryInner \<Rightarrow> nat option" where
  "mem_at supi m = (if credentials m supi = None then None else Option.bind (sqns m supi) (\<lambda>sqn. if length sqn = 6 then Some (be_value sqn) else None))"

definition redb_at :: "'d db_lib \<Rightarrow> string \<Rightarrow> RedbStore \<Rightarrow> nat option" where
  "redb_at D supi db = (if \<not> redb_exists D supi db then None
     else Option.bind (t_auth_state db supi) (\<lambda>sqn. if length sqn = 6 then Some (be_value sqn) else None))"

interpretation mem: sqn_source mem_next_sqn mem_at
  by unfold_locales
    (auto simp: mem_at_def mem_next_sqn_def length_increment increment_sqn_value split: option.splits if_splits bind_splits)

interpretation redb: sqn_source "redb_next_sqn D" "redb_at D" for D
  by unfold_locales
    (auto simp: redb_at_def redb_next_sqn_def redb_exists_def read_key_def length_increment increment_sqn_value split: option.splits if_splits bind_splits)


text \<open>
  C15: Sequence numbers are never skipped or repeated. In either store, however the requests for the next sequence number of different
  subscribers are mixed, those a subscriber gets are consecutive, one up from the number recorded, up to the wrap at 48 bits.
\<close>

theorem sequence_numbers_consecutive:
  "(mem_at supi m = Some n \<longrightarrow> map (map_option be_value \<circ> snd) (filter (\<lambda>e. fst e = supi) (drawn mem_next_sqn us m))
      = map (\<lambda>i. Some ((n + i) mod 2 ^ 48)) [1..<length (filter (\<lambda>u. u = supi) us) + 1]) \<and>
   (redb_at D supi db = Some n \<longrightarrow> map (map_option be_value \<circ> snd) (filter (\<lambda>e. fst e = supi) (drawn (redb_next_sqn D) us db))
      = map (\<lambda>i. Some ((n + i) mod 2 ^ 48)) [1..<length (filter (\<lambda>u. u = supi) us) + 1])"
  using mem.drawn_consecutive[of supi m n us] redb.drawn_consecutive[of D supi db n us] by blast

subsection \<open>The persistent store behaves as the one in memory\<close>

datatype 'd store_op =
    Provision bytes string SubscriberKey | Exists string | RemoveSubscriber string | NextSqn string
  | GenerateHeAv string bytes bytes string string | ResyncSqn string bytes bytes
  | GetProvisioned DataSet string string | PutProvisioned DataSet string string 'd
  | GetAmf string | PutAmf string 'd | RemoveAmf string | ListAmf
  | GetSmf string u8 | PutSmf string u8 'd | RemoveSmf string u8 | ListSmf
  | PutInfluence string 'd | RemoveInfluence string | ListInfluence

datatype 'd store_result = Done_with bool | Sqn "bytes option" | Vector "AuthVector option" | Doc "'d option"
  | Entries "(string \<times> 'd) set" | SmfEntries "((string \<times> u8) \<times> 'd) set"

fun mem_op :: "aka_lib \<Rightarrow> 'd store_op \<Rightarrow> 'd InMemoryInner \<Rightarrow> 'd store_result \<times> 'd InMemoryInner" where
  "mem_op L (Provision nonce supi key) m = (Done_with True, mem_provision supi key m)"
| "mem_op L (Exists supi) m = (Done_with (mem_exists supi m), m)"
| "mem_op L (RemoveSubscriber supi) m = map_prod Done_with id (mem_remove_subscriber supi m)"
| "mem_op L (NextSqn supi) m = map_prod Sqn id (mem_next_sqn supi m)"
| "mem_op L (GenerateHeAv supi sqn rand mcc mnc) m = (Vector (mem_generate_he_av L supi sqn rand mcc mnc m), m)"
| "mem_op L (ResyncSqn supi rand auts) m = map_prod Done_with id (mem_resync_sqn L supi rand auts m)"
| "mem_op L (GetProvisioned ds supi plmn) m = (Doc (docs m (ds, supi, plmn)), m)"
| "mem_op L (PutProvisioned ds supi plmn doc) m = (Done_with True, mem_put_provisioned ds supi plmn doc m)"
| "mem_op L (GetAmf supi) m = (Doc (amf_reg m supi), m)"
| "mem_op L (PutAmf supi doc) m = (Done_with True, mem_put_amf_registration supi doc m)"
| "mem_op L (RemoveAmf supi) m = map_prod Done_with id (mem_remove_amf_registration supi m)"
| "mem_op L ListAmf m = (Entries (Map.graph (amf_reg m)), m)"
| "mem_op L (GetSmf supi psi) m = (Doc (smf_reg m (supi, psi)), m)"
| "mem_op L (PutSmf supi psi doc) m = (Done_with True, mem_put_smf_registration supi psi doc m)"
| "mem_op L (RemoveSmf supi psi) m = map_prod Done_with id (mem_remove_smf_registration supi psi m)"
| "mem_op L ListSmf m = (SmfEntries (Map.graph (smf_reg m)), m)"
| "mem_op L (PutInfluence i doc) m = (Done_with True, mem_put_influence_data i doc m)"
| "mem_op L (RemoveInfluence i) m = map_prod Done_with id (mem_remove_influence_data i m)"
| "mem_op L ListInfluence m = (Entries (Map.graph (influence m)), m)"

fun redb_op :: "aka_lib \<Rightarrow> 'd db_lib \<Rightarrow> 'd store_op \<Rightarrow> RedbStore \<Rightarrow> 'd store_result \<times> RedbStore" where
  "redb_op L D (Provision nonce supi key) db = (Done_with True, redb_provision D nonce supi key db)"
| "redb_op L D (Exists supi) db = (Done_with (redb_exists D supi db), db)"
| "redb_op L D (RemoveSubscriber supi) db = map_prod Done_with id (redb_remove_subscriber supi db)"
| "redb_op L D (NextSqn supi) db = map_prod Sqn id (redb_next_sqn D supi db)"
| "redb_op L D (GenerateHeAv supi sqn rand mcc mnc) db = (Vector (redb_generate_he_av L D supi sqn rand mcc mnc db), db)"
| "redb_op L D (ResyncSqn supi rand auts) db = map_prod Done_with id (redb_resync_sqn L D supi rand auts db)"
| "redb_op L D (GetProvisioned ds supi plmn) db = (Doc (row D (t_docs db) (ds, supi, plmn)), db)"
| "redb_op L D (PutProvisioned ds supi plmn doc) db = (Done_with True, redb_put_provisioned D ds supi plmn doc db)"
| "redb_op L D (GetAmf supi) db = (Doc (row D (t_amf_reg db) supi), db)"
| "redb_op L D (PutAmf supi doc) db = (Done_with True, redb_put_amf_registration D supi doc db)"
| "redb_op L D (RemoveAmf supi) db = map_prod Done_with id (redb_remove_amf_registration supi db)"
| "redb_op L D ListAmf db = (Entries (rows D (t_amf_reg db)), db)"
| "redb_op L D (GetSmf supi psi) db = (Doc (row D (t_smf_reg db) (supi, psi)), db)"
| "redb_op L D (PutSmf supi psi doc) db = (Done_with True, redb_put_smf_registration D supi psi doc db)"
| "redb_op L D (RemoveSmf supi psi) db = map_prod Done_with id (redb_remove_smf_registration supi psi db)"
| "redb_op L D ListSmf db = (SmfEntries (rows D (t_smf_reg db)), db)"
| "redb_op L D (PutInfluence i doc) db = (Done_with True, redb_put_influence_data D i doc db)"
| "redb_op L D (RemoveInfluence i) db = map_prod Done_with id (redb_remove_influence_data i db)"
| "redb_op L D ListInfluence db = (Entries (rows D (t_influence db)), db)"

text \<open>Nonces and keys have the sizes the source's arrays fix.\<close>

fun sized_op :: "'d store_op \<Rightarrow> bool" where
  "sized_op (Provision nonce supi key) \<longleftrightarrow> length nonce = 12 \<and> length (sk_k key) = 16 \<and> length (sk_opc key) = 16 \<and> length (sk_amf key) = 2"
| "sized_op _ \<longleftrightarrow> True"

text \<open>What is used of the libraries.\<close>

definition db_ok :: "'d db_lib \<Rightarrow> bool" where
  "db_ok D \<longleftrightarrow> (\<forall>k nonce u msg. aead_open D k nonce u (aead_seal D k nonce u msg) = Some msg) \<and> (\<forall>doc. json_read D (json_write D doc) = Some doc)"

definition holds_rows :: "'d db_lib \<Rightarrow> ('k \<rightharpoonup> bytes) \<Rightarrow> ('k \<rightharpoonup> 'd) \<Rightarrow> bool" where
  "holds_rows D t m \<longleftrightarrow> (\<forall>k. row D t k = m k \<and> (t k = None \<longleftrightarrow> m k = None))"

definition sized_sqns :: "(string \<rightharpoonup> bytes) \<Rightarrow> bool" where
  "sized_sqns t \<longleftrightarrow> (\<forall>u sqn. t u = Some sqn \<longrightarrow> length sqn = 6)"

definition refines :: "'d db_lib \<Rightarrow> RedbStore \<Rightarrow> 'd InMemoryInner \<Rightarrow> bool" where
  "refines D db m \<longleftrightarrow> (\<forall>supi. read_key D supi db = credentials m supi \<and> (t_credentials db supi = None \<longleftrightarrow> credentials m supi = None)) \<and>
     t_auth_state db = sqns m \<and> sized_sqns (sqns m) \<and> holds_rows D (t_docs db) (docs m) \<and> holds_rows D (t_amf_reg db) (amf_reg m) \<and>
     holds_rows D (t_smf_reg db) (smf_reg m) \<and> holds_rows D (t_influence db) (influence m)"

lemma key_roundtrip: "length (sk_k key) = 16 \<Longrightarrow> length (sk_opc key) = 16 \<Longrightarrow> length (sk_amf key) = 2 \<Longrightarrow> key_from_bytes (key_to_bytes key) = Some key"
  by (simp add: key_from_bytes_def key_to_bytes_def)

lemma decrypt_encrypt: "db_ok D \<Longrightarrow> length nonce = 12 \<Longrightarrow> decrypt D k u (encrypt D k nonce u msg) = Some msg"
  by (simp add: db_ok_def decrypt_def encrypt_def)

lemma holds_rows_put: "db_ok D \<Longrightarrow> holds_rows D t m \<Longrightarrow> holds_rows D (t(k \<mapsto> json_write D doc)) (m(k \<mapsto> doc))"
  by (simp add: db_ok_def holds_rows_def row_def)

lemma holds_rows_drop: "holds_rows D t m \<Longrightarrow> holds_rows D (\<lambda>k. if P k then None else t k) (\<lambda>k. if P k then None else m k)"
  "holds_rows D t m \<Longrightarrow> holds_rows D (t(k := None)) (m(k := None))"
  by (simp_all add: holds_rows_def row_def)

lemma holds_rows_graph: "holds_rows D t m \<Longrightarrow> rows D t = Map.graph m"
  by (auto simp: holds_rows_def rows_def Map.graph_def)

lemma sized_sqns_update: "sized_sqns t \<Longrightarrow> length sqn = 6 \<Longrightarrow> sized_sqns (t(u \<mapsto> sqn))" "sized_sqns t \<Longrightarrow> sized_sqns (t(u := None))"
  by (simp_all add: sized_sqns_def)

lemma holds_rowsD: "holds_rows D t m \<Longrightarrow> row D t k = m k" "holds_rows D t m \<Longrightarrow> t k = None \<longleftrightarrow> m k = None"
  by (simp_all only: holds_rows_def)

lemma sqn_ms_length: "sqn_ms_from_auts L key rand auts = Some sqn \<Longrightarrow> length sqn = 6"
  by (auto simp: sqn_ms_from_auts_def Let_def split: if_splits)

lemma refines_sqn: "refines D db m \<Longrightarrow> length sqn = 6 \<Longrightarrow> refines D (db\<lparr>t_auth_state := (t_auth_state db)(supi \<mapsto> sqn)\<rparr>) (m\<lparr>sqns := (sqns m)(supi \<mapsto> sqn)\<rparr>)"
  by (simp add: refines_def read_key_def sized_sqns_update)

lemma refines_credentials:
  assumes "db_ok D" "refines D db m" "length nonce = 12" "length (sk_k key) = 16" "length (sk_opc key) = 16" "length (sk_amf key) = 2"
  shows "refines D (redb_provision D nonce supi key db) (mem_provision supi key m)"
proof -
  have "read_key D u (redb_provision D nonce supi key db) = (if u = supi then Some key else read_key D u db)" for u
    using assms by (simp add: read_key_def redb_provision_def decrypt_encrypt key_roundtrip)
  then show ?thesis
    using assms(2) by (simp add: refines_def redb_provision_def mem_provision_def sized_sqns_update)
qed

lemma refines_remove: "refines D db m \<Longrightarrow> refines D (snd (redb_remove_subscriber supi db)) (snd (mem_remove_subscriber supi m))"
  by (simp add: refines_def redb_remove_subscriber_def mem_remove_subscriber_def read_key_def holds_rows_drop sized_sqns_update)

lemma refines_rows:
  assumes "db_ok D" "refines D db m"
  shows "refines D (redb_put_provisioned D ds supi plmn doc db) (mem_put_provisioned ds supi plmn doc m)"
    "refines D (redb_put_amf_registration D supi doc db) (mem_put_amf_registration supi doc m)"
    "refines D (redb_put_smf_registration D supi psi doc db) (mem_put_smf_registration supi psi doc m)"
    "refines D (redb_put_influence_data D i doc db) (mem_put_influence_data i doc m)"
    "refines D (snd (redb_remove_amf_registration supi db)) (snd (mem_remove_amf_registration supi m))"
    "refines D (snd (redb_remove_smf_registration supi psi db)) (snd (mem_remove_smf_registration supi psi m))"
    "refines D (snd (redb_remove_influence_data i db)) (snd (mem_remove_influence_data i m))"
  using assms
  by (simp_all add: refines_def read_key_def redb_put_provisioned_def mem_put_provisioned_def redb_put_amf_registration_def
      mem_put_amf_registration_def redb_put_smf_registration_def mem_put_smf_registration_def redb_put_influence_data_def
      mem_put_influence_data_def redb_remove_amf_registration_def mem_remove_amf_registration_def redb_remove_smf_registration_def
      mem_remove_smf_registration_def redb_remove_influence_data_def mem_remove_influence_data_def holds_rows_put holds_rows_drop)

lemma refines_next_sqn:
  assumes "refines D db m"
  shows "fst (redb_next_sqn D supi db) = fst (mem_next_sqn supi m) \<and> refines D (snd (redb_next_sqn D supi db)) (snd (mem_next_sqn supi m))"
proof (cases "credentials m supi = None \<or> sqns m supi = None")
  case True
  then show ?thesis using assms by (auto simp: redb_next_sqn_def mem_next_sqn_def redb_exists_def refines_def split: option.splits)
next
  case False
  then obtain sqn where sqn: "sqns m supi = Some sqn" "credentials m supi \<noteq> None" by auto
  have db: "read_key D supi db = credentials m supi" "t_auth_state db = sqns m" using assms by (auto simp: refines_def)
  have "length sqn = 6" using assms sqn(1) by (simp add: refines_def sized_sqns_def)
  then show ?thesis
    using sqn db refines_sqn[OF assms, of "increment_sqn sqn" supi] by (simp add: redb_next_sqn_def mem_next_sqn_def redb_exists_def length_increment)
qed

lemma refines_resync:
  assumes "refines D db m"
  shows "fst (redb_resync_sqn L D supi rand auts db) = fst (mem_resync_sqn L supi rand auts m) \<and>
    refines D (snd (redb_resync_sqn L D supi rand auts db)) (snd (mem_resync_sqn L supi rand auts m))"
proof -
  have "read_key D supi db = credentials m supi" "t_auth_state db = sqns m" using assms by (auto simp: refines_def)
  then show ?thesis
    using assms refines_sqn[OF assms] sqn_ms_length by (auto simp: redb_resync_sqn_def mem_resync_sqn_def split: option.splits)
qed

lemma refines_step:
  assumes "db_ok D" "refines D db m" "sized_op op"
  shows "fst (redb_op L D op db) = fst (mem_op L op m) \<and> refines D (snd (redb_op L D op db)) (snd (mem_op L op m))"
proof -
  have r: "read_key D supi db = credentials m supi" "t_credentials db supi = None \<longleftrightarrow> credentials m supi = None" for supi
    using assms(2) by (auto simp: refines_def)
  have h: "holds_rows D (t_docs db) (docs m)" "holds_rows D (t_amf_reg db) (amf_reg m)" "holds_rows D (t_smf_reg db) (smf_reg m)"
      "holds_rows D (t_influence db) (influence m)"
    using assms(2) by (auto simp: refines_def)
  note g = h[THEN holds_rows_graph]
  note n = holds_rowsD[OF h(1)] holds_rowsD[OF h(2)] holds_rowsD[OF h(3)] holds_rowsD[OF h(4)]
  show ?thesis
    using assms refines_rows[OF assms(1,2)] refines_next_sqn[OF assms(2)] refines_resync[OF assms(2)] refines_remove[OF assms(2)] refines_credentials[OF assms(1,2)]
    by (cases op) (simp_all add: r n g redb_exists_def mem_exists_def redb_generate_he_av_def mem_generate_he_av_def
        redb_remove_subscriber_def mem_remove_subscriber_def redb_remove_amf_registration_def mem_remove_amf_registration_def
        redb_remove_smf_registration_def mem_remove_smf_registration_def redb_remove_influence_data_def mem_remove_influence_data_def)
qed

fun results :: "('op \<Rightarrow> 's \<Rightarrow> 'r \<times> 's) \<Rightarrow> 'op list \<Rightarrow> 's \<Rightarrow> 'r list" where
  "results step [] s = []"
| "results step (op # ops) s = fst (step op s) # results step ops (snd (step op s))"

lemma refines_results:
  "db_ok D \<Longrightarrow> refines D db m \<Longrightarrow> list_all sized_op ops \<Longrightarrow> results (redb_op L D) ops db = results (mem_op L) ops m"
proof (induction ops arbitrary: db m)
  case (Cons op ops)
  then have "sized_op op" "list_all sized_op ops" by simp_all
  with refines_step[OF Cons.prems(1,2), of op L] Cons.IH[OF Cons.prems(1)] show ?case by simp
qed simp

lemma refines_new: "refines D (redb_open k) mem_new"
  by (simp add: refines_def redb_open_def mem_new_def read_key_def holds_rows_def row_def sized_sqns_def)

text \<open>
  C14: The persistent store cannot be told from the one in memory. Whatever sequence of requests both are given from empty, provisioning,
  sequence numbers, vectors, resynchronisation, withdrawal, documents, registrations and influence data included, they answer the same,
  although one keeps the credentials encrypted and bound to the SUPI and the documents as JSON text.
\<close>

theorem persistent_store_refines_memory:
  assumes "db_ok D" "list_all sized_op ops"
  shows "results (redb_op L D) ops (redb_open k) = results (mem_op L) ops mem_new"
  using refines_results[OF assms(1) refines_new assms(2)] .

definition toy_db :: "bytes db_lib" where
  "toy_db = \<lparr>aead_seal = (\<lambda>k n u msg. msg @ [of_nat (length u)]), aead_open = (\<lambda>k n u ct. if ct \<noteq> [] \<and> last ct = of_nat (length u) then Some (butlast ct) else None),
     json_write = id, json_read = Some\<rparr>"

definition toy_ops :: "bytes store_op list" where
  "toy_ops = [Provision (replicate 12 9) ''imsi-1'' \<lparr>sk_k = replicate 16 1, sk_opc = replicate 16 2, sk_amf = [128, 0]\<rparr>, NextSqn ''imsi-1'',
     PutAmf ''imsi-1'' [7], GetAmf ''imsi-1'', RemoveSubscriber ''imsi-1'', GetAmf ''imsi-1'', NextSqn ''imsi-1'']"

theorem persistent_store_refines_memory_witness:
  "results (redb_op demo_lib toy_db) toy_ops (redb_open (replicate 32 0))
   = [Done_with True, Sqn (Some [0, 0, 0, 0, 0, 1]), Done_with True, Doc (Some [7]), Done_with True, Doc None, Sqn None]"
proof -
  have "db_ok toy_db" by (simp add: db_ok_def toy_db_def)
  moreover have "list_all sized_op toy_ops" by (simp add: toy_ops_def)
  moreover have "results (mem_op demo_lib) toy_ops mem_new
      = [Done_with True, Sqn (Some [0, 0, 0, 0, 0, 1]), Done_with True, Doc (Some [7]), Done_with True, Doc None, Sqn None]"
    by (simp add: toy_ops_def mem_new_def mem_provision_def mem_next_sqn_def mem_put_amf_registration_def mem_remove_subscriber_def
        increment_sqn_def numeral_eq_Suc)
  ultimately show ?thesis using persistent_store_refines_memory by metis
qed

theorem sequence_numbers_consecutive_witness:
  "map (map_option be_value \<circ> snd) (filter (\<lambda>e. fst e = ''imsi-1'') (drawn mem_next_sqn [''imsi-1'', ''imsi-2'', ''imsi-1'']
     (mem_provision ''imsi-1'' \<lparr>sk_k = [1], sk_opc = [2], sk_amf = [128, 0]\<rparr> (mem_new :: bytes InMemoryInner)))) = [Some 1, Some 2] \<and>
   map (map_option be_value \<circ> snd) (filter (\<lambda>e. fst e = ''imsi-1'') (drawn (redb_next_sqn toy_db) [''imsi-1'', ''imsi-2'', ''imsi-1'']
     (redb_provision toy_db (replicate 12 9) ''imsi-1'' \<lparr>sk_k = replicate 16 1, sk_opc = replicate 16 2, sk_amf = [128, 0]\<rparr> (redb_open [])))) = [Some 1, Some 2]"
proof -
  have m: "mem_at ''imsi-1'' (mem_provision ''imsi-1'' \<lparr>sk_k = [1], sk_opc = [2], sk_amf = [128, 0]\<rparr> (mem_new :: bytes InMemoryInner)) = Some 0"
    by (simp add: mem_at_def mem_provision_def)
  have "db_ok toy_db" by (simp add: db_ok_def toy_db_def)
  then have r: "redb_at toy_db ''imsi-1'' (redb_provision toy_db (replicate 12 9) ''imsi-1'' \<lparr>sk_k = replicate 16 1, sk_opc = replicate 16 2, sk_amf = [128, 0]\<rparr>
      (redb_open [])) = Some 0"
    by (simp add: redb_at_def redb_exists_def read_key_def redb_provision_def decrypt_encrypt key_roundtrip)
  show ?thesis
    using sequence_numbers_consecutive[of "''imsi-1''" "mem_provision ''imsi-1'' \<lparr>sk_k = [1], sk_opc = [2], sk_amf = [128, 0]\<rparr> (mem_new :: bytes InMemoryInner)" 0 "[''imsi-1'', ''imsi-2'', ''imsi-1'']" toy_db
        "redb_provision toy_db (replicate 12 9) ''imsi-1'' \<lparr>sk_k = replicate 16 1, sk_opc = replicate 16 2, sk_amf = [128, 0]\<rparr> (redb_open [])"] m r
    by (simp add: upt_rec del: drawn.simps flip: numeral_2_eq_2)
qed

end
