(* ===== verification/Spec2Isabelle.thy ===== *)
theory Spec2Isabelle
  imports Upf_Node Sdap Pdcp Aka Smf_Upf Nas_Ie Nas_Security Amf_Plain Suci Subscriber_Db
begin

text \<open>
  A verification of the core logic of radian-rs, a 5G core network written in Rust.

  \<^bold>\<open>The program.\<close> The user plane function (\<open>nf/nf-upf\<close>) forwards packets between the radio network (N3,
  GTP-U), other user plane functions (N9) and the data network (N6). The session management function
  (\<open>nf/nf-smf\<close>) chooses the user plane path of a session, leases its addresses, obtains its policy
  from the policy control function (\<open>sbi-core/npcf\<close>) and programs the UPFs over N4 (PFCP). The access and mobility management function (\<open>nf/nf-amf\<close>) registers subscribers, authenticates
  them by 5G-AKA with the home network, protects NAS signalling and has the SMF create their sessions. Radio bearers are protected by PDCP.

  \<^bold>\<open>The theories.\<close>
  \<^item> \<open>Prelude\<close>: machine integers, big-endian octets, saturating arithmetic, first-match updates.
  \<^item> \<open>Gtpu_Frames\<close>, \<open>Gtpu\<close>: \<open>crates/gtpu\<close>, the GTP-U codec with its extension-header chains. The
    four container formats share the locale \<open>container_codec\<close>.
  \<^item> \<open>Sdap\<close>, \<open>Pdcp\<close>: \<open>crates/sdap\<close> and \<open>crates/pdcp\<close>. The two sequence-number formats of PDCP are
    interpretations of \<open>sn_format\<close>, in which the lossy-link theorem is proved once.
  \<^item> \<open>Aka\<close>: \<open>crates/aka/src/lib.rs\<close>, both ends of 5G-AKA and the key hierarchy.
  \<^item> \<open>Ip_Text\<close>: the textual IP addresses of the Rust standard library, reading and printing.
  \<^item> \<open>Pfcp_Classifier\<close>, \<open>Pfcp_TokenBucket\<close>, \<open>Pfcp_Session\<close>, \<open>Pfcp_State\<close>: the session table of
    \<open>crates/pfcp/src/lib.rs\<close> bottom up: packet filters, policers (locale \<open>rate_limiter\<close>), admission
    and usage accounting of one session, and the table with its operations (locale
    \<open>keyed_table\<close>), its invariant and its reachable states.
  \<^item> \<open>Pfcp_Msg\<close>, \<open>Pfcp_N4\<close>, \<open>Pfcp_N4_Session\<close>: the PFCP messages both ends build and read, the
    handler of the UPF, and end-to-end properties of an exchange.
  \<^item> \<open>N6\<close>: \<open>crates/n6/src/lib.rs\<close>, the datapath decisions and router advertisements.
  \<^item> \<open>Keyed_Table\<close>: the locale \<open>keyed_table\<close> of string- or number-keyed maps and the hash maps of the
    control plane as association lists.
  \<^item> \<open>Smf_Topology\<close>, \<open>Smf_Path\<close>: \<open>nf/nf-smf/src/topology.rs\<close> and the path resolution of
    \<open>pdu_session.rs\<close>: validation, breadth-first search, anchors, intermediates and breakouts.
  \<^item> \<open>Smf_Pool\<close>: the address pools (locale \<open>allocator\<close>) and the guaranteed-rate budget of the SMF.
  \<^item> \<open>Pcf_Policy\<close>: \<open>sbi-core/src/policy.rs\<close> and \<open>npcf.rs\<close>: policy decisions, partial updates and the
    handlers of the PCF.
  \<^item> \<open>Smf_Flows\<close>: from a decision to the flows at the UPF, and the refresh of a live session across
    PCF, SMF and UPF.
  \<^item> \<open>Smf_Session\<close>, \<open>Smf_Handlers\<close>: the SM contexts of \<open>pdu_session.rs\<close> and every handler on them, from
    N4 association and recovery to creation, update, release, breakouts, reports and policy refresh.
    A handler is a process (\<open>proc\<close>): \<open>Act\<close> is one critical section under a lock, \<open>Transact\<close>, \<open>SendN4\<close>
    and the \<open>Ask\<close> constructors are the points where the source awaits another network function.
  \<^item> \<open>Smf_Leases\<close>, \<open>Smf_Race\<close>: handlers interleave at those points. Every process owns the references and
    addresses it has taken and not yet stored (a multiset of tokens); ownership is preserved by each
    atomic step, which gives the leases of all reachable states. A release is one exchange there; the
    schedule that overlaps two of them is executed and hands one address out twice.
  \<^item> \<open>Smf_Upf\<close>: a handler run against the UPFs themselves (\<open>drive\<close>): every PFCP request is answered by
    the handler of \<open>Pfcp_N4\<close>. Creation and policy refresh end to end.
  \<^item> \<open>Nas_Ie\<close>, \<open>Nas_Security\<close>: \<open>crates/nas/src/lib.rs\<close>: the information elements and 5GSM containers
    encoded by hand (locales \<open>entry_list\<close> and \<open>timer_units\<close>), and the security context with its COUNT
    reconstruction and replay protection.
  \<^item> \<open>Nas_Msg\<close>: the builders and readers of the 5GMM messages in \<open>crates/nas/src/lib.rs\<close>.
  \<^item> \<open>Amf_Cbl\<close>: \<open>nf/nf-amf/src/cbl.rs\<close>, the admission gate. Its operations are sequences of atomic accesses that interleave (\<open>task_step\<close>); the
    step \<open>admit\<close> the rest of the AMF uses is what such a sequence does when it is not interrupted.
  \<^item> \<open>Amf_State\<close>, \<open>Amf_Auth\<close>, \<open>Amf_Nas\<close>, \<open>Amf_Procedures\<close>, \<open>Amf_Service\<close>: \<open>nf/nf-amf/src/main.rs\<close> and \<open>auth.rs\<close>: UE contexts and
    directories; registration up to NAS security; uplink NAS; what the network and timers start, paging and CM-IDLE;
    Service Request and registration updates. An event of an association (\<open>handle\<close>) is one step from which its NGAP messages result.
  \<^item> \<open>Amf_Frame\<close>: the locale \<open>amf_frame\<close> of what every event keeps. It is interpreted in \<open>Amf_Keys\<close> (every NAS key comes from a confirmed
    authentication) and in \<open>Amf_Guti\<close> (the 5G-TMSI directory), which also holds the locale \<open>retransmission\<close> of the timers.
    \<open>Amf_Plain\<close>: what the AMF does for UEs that are not authenticated, and on returns it cannot verify.
  \<^item> \<open>Upf_Node\<close>: the tasks of \<open>nf/nf-upf/src/main.rs\<close> as atomic steps on the shared table, and the
    invariant of all their interleavings.

  \<^bold>\<open>Parameters.\<close> Code outside the repository is a parameter: the PFCP wire codec (\<open>pfcp_lib\<close>, with
  \<open>lib_ok\<close> and \<open>travels\<close> stating what is used of it), the NAS cipher and integrity algorithms
  (\<open>crypto\<close>), Milenage and the key derivation functions (\<open>aka_lib\<close>), the codec of NAS messages and identities (\<open>nas_lib\<close>). What other
  network functions answer to the AMF is the record \<open>Env\<close> of a step.

  \<^bold>\<open>Bounds.\<close> Counters, identifiers and rates keep the width they have in the source; arithmetic wraps
  or saturates as the source's operators do. Loops are total functions with a measure, so no fuel is
  used anywhere; the one loop that need not end on every input, the walk back along the predecessors
  of the path search, is a \<open>partial_function\<close> and is shown to return on every search.

  \<^bold>\<open>Not modelled.\<close> Sockets, TUN device, telemetry, TLS and configuration; the ASN.1 codecs (NGAP, RRC,
  F1AP), which are generated code and thin builders over it; the HTTP services of the control plane. Of the AMF: path switch and handover, the
  gNB's responses to session setup and release, and the routes that turn SBI callbacks into commands. Its handlers are
  atomic steps, while the source may interleave handlers of different associations on the shared directories where one awaits an answer.
\<close>

end
